(* ===== verification/Prelude.thy ===== *)
theory Prelude
  imports Main
begin

text \<open>
  What every theory of the development shares: Go's error values and the shape of a fallible
  operation on the outside world, 64-bit signed integers with the wrap-around written out,
  \<open>time.Duration\<close> constants, decimal printing (\<open>strconv.FormatInt\<close>, \<open>fmt.Sprintf("%d")\<close>)
  with its inverse, and a few facts on strings and pairs. The collections
  \<open>code_simps\<close> (the equations that unfold a handler into its calls) and
  \<open>wrap_simps\<close> (in-range integer arithmetic) carry the component proofs.
\<close>

named_theorems code_simps \<open>definitions of the handlers, unfolded to run them\<close>
named_theorems wrap_simps \<open>arithmetic that stays inside 64 bits\<close>

section \<open>Errors and actions\<close>

text \<open>
  An \<open>error\<close> is the sentinel \<open>redis.Nil\<close>, a plain \<open>errors.New(msg)\<close>, or
  \<open>fmt.Errorf("msg: %w", err)\<close>, which wraps another one; \<open>errors.Is\<close> walks the chain of
  wrapped errors. A panic is the value \<open>Panicked e\<close> in the place of the error.
\<close>

datatype go_error =
    RedisNil
  | NewError string
  | Wrapf string go_error
  | Panicked go_error

fun errors_is :: "go_error \<Rightarrow> go_error \<Rightarrow> bool" where
  "errors_is (Wrapf m e) t = (Wrapf m e = t \<or> errors_is e t)"
| "errors_is e t = (e = t)"

text \<open>\<open>err.Error()\<close>, as \<open>%v\<close> prints it.\<close>

fun error_text :: "go_error \<Rightarrow> string" where
  "error_text RedisNil = ''redis: nil''"
| "error_text (NewError m) = m"
| "error_text (Wrapf m e) = m @ '': '' @ error_text e"
| "error_text (Panicked e) = error_text e"

text \<open>
  A Go function that returns \<open>(T, error)\<close> gives \<open>Inl err\<close> or \<open>Inr v\<close>. An operation that
  reaches outside the process (a Redis command, a storage backend) also maps the state of the
  outside world, of any type \<open>'w\<close>, to the next one.
\<close>

type_synonym 'a res = "go_error + 'a"
type_synonym ('w, 'a) act = "'w \<Rightarrow> 'a res \<times> 'w"

definition map_err :: "(go_error \<Rightarrow> go_error) \<Rightarrow> 'a res \<Rightarrow> 'a res" where
  "map_err f r = (case r of Inl e \<Rightarrow> Inl (f e) | Inr a \<Rightarrow> Inr a)"

lemma map_err_simps [simp]:
  "map_err f (Inl e) = Inl (f e)"
  "map_err f (Inr a) = Inr a"
  by (simp_all add: map_err_def)

text \<open>The next operation runs only if the first one succeeded.\<close>

definition and_then :: "('w, 'a) act \<Rightarrow> ('a \<Rightarrow> ('w, 'b) act) \<Rightarrow> ('w, 'b) act" where
  "and_then m f w = (case m w of (Inl e, w') \<Rightarrow> (Inl e, w') | (Inr a, w') \<Rightarrow> f a w')"

definition raise :: "go_error \<Rightarrow> ('w, 'a) act" where
  "raise e w = (Inl e, w)"

definition give :: "'a \<Rightarrow> ('w, 'a) act" where
  "give a w = (Inr a, w)"

lemma and_then_Inl: "fst (m w) = Inl e \<Longrightarrow> and_then m f w = (Inl e, snd (m w))"
  by (cases "m w") (simp add: and_then_def)

lemma and_then_Inr: "fst (m w) = Inr a \<Longrightarrow> and_then m f w = f a (snd (m w))"
  by (cases "m w") (simp add: and_then_def)

text \<open>From what is known of an action's reply and of a view of its result to the action.\<close>

lemma act_result: "fst p = r \<and> view (snd p) = v \<Longrightarrow> \<exists>w'. p = (r, w') \<and> view w' = v"
  by (cases p) simp

lemma give_simps [simp]: "fst (give a w) = Inr a" "snd (give a w) = w"
  by (simp_all add: give_def)

lemma raise_simps [simp]: "fst (raise e w) = Inl e" "snd (raise e w) = w"
  by (simp_all add: raise_def)

lemma errors_is_refl [simp]: "errors_is e e"
  by (cases e) auto

section \<open>64-bit signed integers\<close>

text \<open>\<open>int\<close>, \<open>int64\<close> and \<open>time.Duration\<close> are two's complement on 64 bits.\<close>

definition wrap64 :: "int \<Rightarrow> int" where
  "wrap64 x = (x + 2 ^ 63) mod 2 ^ 64 - 2 ^ 63"

definition in_i64 :: "int \<Rightarrow> bool" where
  "in_i64 x \<longleftrightarrow> - (2 ^ 63) \<le> x \<and> x < 2 ^ 63"

lemma wrap64_id [wrap_simps]: "in_i64 x \<Longrightarrow> wrap64 x = x"
  by (simp add: wrap64_def in_i64_def)

lemma wrap64_range: "in_i64 (wrap64 x)"
  using pos_mod_bound [of "2 ^ 64" "x + 2 ^ 63"] pos_mod_sign [of "2 ^ 64" "x + 2 ^ 63"]
  by (simp add: wrap64_def in_i64_def)

section \<open>Durations and instants\<close>

text \<open>
  A \<open>time.Duration\<close> is a number of nanoseconds. An instant (\<open>time.Time\<close>) is the number of
  nanoseconds since the Unix epoch; Go keeps seconds and nanoseconds in separate words, so an
  instant is unbounded here. \<open>UnixMilli\<close> and \<open>Unix\<close> round towards minus infinity, because
  the nanosecond part of a \<open>time.Time\<close> is never negative.
\<close>

type_synonym duration = int
type_synonym instant = int

definition microsecond :: duration where "microsecond = 1000"
definition millisecond :: duration where "millisecond = 1000000"
definition second :: duration where "second = 1000000000"
definition minute :: duration where "minute = 60 * second"

lemmas duration_defs = microsecond_def millisecond_def second_def minute_def

definition unix_milli :: "instant \<Rightarrow> int" where
  "unix_milli t = t div 1000000"

definition unix_sec :: "instant \<Rightarrow> int" where
  "unix_sec t = t div 1000000000"

definition unix_nano :: "instant \<Rightarrow> int" where
  "unix_nano t = wrap64 t"

definition of_unix_milli :: "int \<Rightarrow> instant" where
  "of_unix_milli m = m * 1000000"

text \<open>
  \<open>time.Unix(s, 0)\<close> counts the seconds from the year 1 in an \<open>int64\<close>: the sum wraps around for the
  greatest values of \<open>s\<close>.
\<close>

definition of_unix_sec :: "int \<Rightarrow> instant" where
  "of_unix_sec s = (wrap64 (s + 62135596800) - 62135596800) * 1000000000"

text \<open>
  \<open>t.Sub(u)\<close> and \<open>time.Until\<close> saturate at the least and the greatest duration.
\<close>

definition time_sub :: "instant \<Rightarrow> instant \<Rightarrow> duration" where
  "time_sub t u = max (- (2 ^ 63)) (min (2 ^ 63 - 1) (t - u))"

lemma time_sub_nonpos: "t \<le> u \<Longrightarrow> time_sub t u \<le> 0"
  by (simp add: time_sub_def)

lemma time_sub_pos: "u < t \<Longrightarrow> 0 < time_sub t u"
  by (simp add: time_sub_def)

lemma time_sub_exact: "in_i64 (t - u) \<Longrightarrow> time_sub t u = t - u"
  by (simp add: time_sub_def in_i64_def)

lemma unix_milli_mono: "s \<le> t \<Longrightarrow> unix_milli s \<le> unix_milli t"
  by (simp add: unix_milli_def zdiv_mono1)

lemma unix_milli_of_unix_milli [simp]: "unix_milli (of_unix_milli s) = s"
  by (simp add: unix_milli_def of_unix_milli_def)

section \<open>Decimal strings\<close>

definition digit :: "nat \<Rightarrow> char" where
  "digit d = char_of (48 + d)"

fun dec :: "nat \<Rightarrow> string" where
  "dec n = (if n < 10 then [digit n] else dec (n div 10) @ [digit (n mod 10)])"

declare dec.simps [simp del]

definition undec :: "string \<Rightarrow> nat" where
  "undec s = foldl (\<lambda>a c. a * 10 + (of_char c - 48)) 0 s"

text \<open>\<open>strconv.FormatInt(n, 10)\<close> and \<open>%d\<close>.\<close>

definition format_int :: "int \<Rightarrow> string" where
  "format_int n = (if n < 0 then CHR ''-'' # dec (nat (- n)) else dec (nat n))"

definition parse_int :: "string \<Rightarrow> int" where
  "parse_int s = (case s of c # cs \<Rightarrow> if c = CHR ''-'' then - int (undec cs) else int (undec s) | [] \<Rightarrow> 0)"

lemma of_char_digit: "d < 10 \<Longrightarrow> (of_char (digit d) :: nat) = 48 + d"
  by (simp add: digit_def)

lemma undec_dec [simp]: "undec (dec n) = n"
proof (induction n rule: dec.induct)
  case (1 n)
  show ?case
  proof (cases "n < 10")
    case True
    then show ?thesis by (simp add: dec.simps [of n] undec_def of_char_digit)
  next
    case False
    then have "undec (dec n) = undec (dec (n div 10)) * 10 + (of_char (digit (n mod 10)) - 48)"
      by (simp add: dec.simps [of n] undec_def)
    with 1 False show ?thesis by (simp add: of_char_digit)
  qed
qed

lemma dec_inject [simp]: "dec m = dec n \<longleftrightarrow> m = n"
  by (metis undec_dec)

lemma digit_code: "d < 10 \<Longrightarrow> (of_char (digit d) :: nat) \<in> {48..57}"
  by (simp add: of_char_digit)

lemma dec_digits: "c \<in> set (dec n) \<Longrightarrow> (of_char c :: nat) \<in> {48..57}"
proof (induction n rule: dec.induct)
  case (1 n)
  show ?case
  proof (cases "n < 10")
    case True
    then show ?thesis using "1.prems" by (simp add: dec.simps [of n] of_char_digit)
  next
    case False
    with "1.prems" have "c \<in> set (dec (n div 10)) \<or> c = digit (n mod 10)"
      by (auto simp: dec.simps [of n])
    then show ?thesis
      using "1.IH" [OF False] digit_code [of "n mod 10"] by auto
  qed
qed

lemma dec_nonempty [simp]: "dec n \<noteq> []"
  by (simp add: dec.simps [of n])

lemma not_in_dec: "(of_char c :: nat) \<notin> {48..57} \<Longrightarrow> c \<notin> set (dec n)"
  using dec_digits by blast

lemma minus_not_in_dec [simp]: "CHR ''-'' \<notin> set (dec n)"
  by (rule not_in_dec) simp

lemma colon_not_in_dec [simp]: "CHR '':'' \<notin> set (dec n)"
  by (rule not_in_dec) simp

lemma parse_format_int [simp]: "parse_int (format_int n) = n"
proof (cases "n < 0")
  case True
  then show ?thesis by (simp add: format_int_def parse_int_def)
next
  case False
  obtain c cs where c: "dec (nat n) = c # cs" by (cases "dec (nat n)") simp_all
  have "c \<noteq> CHR ''-''" using minus_not_in_dec [of "nat n"] c by auto
  with False c show ?thesis
    by (simp add: format_int_def parse_int_def c) (simp flip: c)
qed

lemma format_int_inject [simp]: "format_int m = format_int n \<longleftrightarrow> m = n"
  by (metis parse_format_int)

lemma colon_not_in_format_int [simp]: "CHR '':'' \<notin> set (format_int n)"
  by (simp add: format_int_def)

lemma format_int_0 [simp]: "format_int 0 = ''0''"
  by code_simp

section \<open>Strings and separators\<close>

text \<open>A separator that does not occur in the left part makes the split unique.\<close>

lemma append_sep_eq:
  assumes "c \<notin> set u" and "c \<notin> set v"
  shows "u @ c # x = v @ c # y \<longleftrightarrow> u = v \<and> x = y"
  using assms
proof (induction u arbitrary: v)
  case Nil
  then show ?case by (cases v) auto
next
  case (Cons a u)
  then show ?case by (cases v) auto
qed

lemma suffix_neq: "xs @ s = ys @ s \<longleftrightarrow> xs = ys"
  by simp

end
