(* ===== verification/Float64.thy ===== *)
theory Float64
  imports Prelude Complex_Main "HOL-Library.Signed_Division"
begin

text \<open>
  Double-precision arithmetic, which Go's \<open>float64\<close> and Lua's numbers share: a number is a
  rational, and every operation rounds its exact result to the nearest multiple of the last of
  53 significant bits, ties to even. Infinities, NaN, overflow and the gradual underflow below
  2^-1022 are left out; the rate limiter's operands are integers below 2^63, quotients of such
  integers and their products, far inside the range. What the proofs use of rounding is the
  locale \<open>rounding\<close>: it is monotone, idempotent and exact on the integers up to 2^53.
\<close>

section \<open>Rounding to nearest, ties to even\<close>

definition round_even :: "rat \<Rightarrow> int" where
  "round_even x =
     (let n = \<lfloor>x\<rfloor>; r = x - of_int n
      in if r < 1 / 2 then n else if 1 / 2 < r then n + 1 else if even n then n else n + 1)"

fun log2n :: "nat \<Rightarrow> nat" where
  "log2n n = (if n < 2 then 0 else Suc (log2n (n div 2)))"

declare log2n.simps [simp del]

definition clog2n :: "nat \<Rightarrow> nat" where
  "clog2n n = (if n < 2 then 0 else Suc (log2n (n - 1)))"

text \<open>The exponent of a positive number: \<open>2 powi binade x \<le> x < 2 powi (binade x + 1)\<close>.\<close>

definition binade :: "rat \<Rightarrow> int" where
  "binade x = (if 1 \<le> x then int (log2n (nat \<lfloor>x\<rfloor>)) else - int (clog2n (nat \<lceil>1 / x\<rceil>)))"

definition ulp :: "rat \<Rightarrow> rat" where
  "ulp x = 2 powi (binade x - 52)"

definition fl64 :: "rat \<Rightarrow> rat" where
  "fl64 x = (if x = 0 then 0 else sgn x * (of_int (round_even (\<bar>x\<bar> / ulp \<bar>x\<bar>)) * ulp \<bar>x\<bar>))"

lemma round_even_floor: "round_even x = \<lfloor>x\<rfloor> \<or> round_even x = \<lfloor>x\<rfloor> + 1"
  by (simp add: round_even_def Let_def)

lemma round_even_int [simp]: "round_even (of_int n) = n"
  by (simp add: round_even_def)

lemma round_even_mono:
  assumes "x \<le> y"
  shows "round_even x \<le> round_even y"
proof (cases "\<lfloor>x\<rfloor> = \<lfloor>y\<rfloor>")
  case True
  then show ?thesis using assms by (simp add: round_even_def Let_def)
next
  case False
  then have "\<lfloor>x\<rfloor> + 1 \<le> \<lfloor>y\<rfloor>" using floor_mono [OF assms] by linarith
  then show ?thesis using round_even_floor [of x] round_even_floor [of y] by linarith
qed

lemma log2n_bounds: "0 < n \<Longrightarrow> 2 ^ log2n n \<le> n \<and> n < 2 ^ Suc (log2n n)"
proof (induction n rule: log2n.induct)
  case (1 n)
  show ?case
  proof (cases "n < 2")
    case True
    then show ?thesis using 1(2) by (simp add: log2n.simps [of n])
  next
    case False
    then have "2 ^ log2n (n div 2) \<le> n div 2 \<and> n div 2 < 2 ^ Suc (log2n (n div 2))"
      using 1(1) by simp
    then have "2 * 2 ^ log2n (n div 2) \<le> n \<and> n < 2 * (2 * 2 ^ log2n (n div 2))"
      by auto
    then show ?thesis using False by (simp add: log2n.simps [of n])
  qed
qed

lemma clog2n_bounds:
  assumes "1 < n"
  shows "n \<le> 2 ^ clog2n n" and "\<exists>k. clog2n n = Suc k \<and> 2 ^ k < n"
proof -
  have c: "clog2n n = Suc (log2n (n - 1))" using assms by (simp add: clog2n_def)
  have b: "2 ^ log2n (n - 1) \<le> n - 1 \<and> n - 1 < 2 ^ Suc (log2n (n - 1))"
    by (rule log2n_bounds) (use assms in simp)
  then show "n \<le> 2 ^ clog2n n" unfolding c by linarith
  show "\<exists>k. clog2n n = Suc k \<and> 2 ^ k < n" unfolding c using b assms by auto
qed

lemma binade_bounds:
  assumes "0 < x"
  shows "2 powi binade x \<le> x" and "x < 2 powi (binade x + 1)"
proof -
  have "2 powi binade x \<le> x \<and> x < 2 powi (binade x + 1)"
  proof (cases "1 \<le> x")
    case True
    let ?n = "nat \<lfloor>x\<rfloor>"
    have n: "of_nat ?n = (of_int \<lfloor>x\<rfloor> :: rat)" using True by simp
    have b: "2 ^ log2n ?n \<le> ?n \<and> ?n < 2 ^ Suc (log2n ?n)"
      by (rule log2n_bounds) (use True in simp)
    have "(2 :: rat) ^ log2n ?n \<le> of_nat ?n"
      using b by (metis of_nat_le_iff of_nat_numeral of_nat_power)
    moreover have "of_nat (?n + 1) \<le> (2 :: rat) ^ Suc (log2n ?n)"
      using b by (metis Suc_eq_plus1 Suc_leI of_nat_le_iff of_nat_numeral of_nat_power)
    moreover have "of_int \<lfloor>x\<rfloor> \<le> x" "x < of_int \<lfloor>x\<rfloor> + 1" by linarith+
    ultimately have "2 ^ log2n ?n \<le> x \<and> x < 2 ^ Suc (log2n ?n)"
      using n by (simp only: of_nat_add of_nat_1) linarith
    then show ?thesis using True by (simp add: binade_def power_int_add)
  next
    case False
    let ?n = "nat \<lceil>1 / x\<rceil>"
    have gt: "1 < 1 / x" using False assms by (simp add: field_simps)
    then have n: "of_nat ?n = (of_int \<lceil>1 / x\<rceil> :: rat)" by simp
    have n1: "1 < ?n" using gt by linarith
    obtain k where k: "clog2n ?n = Suc k" "2 ^ k < ?n" using clog2n_bounds(2) [OF n1] by blast
    have "1 / x \<le> of_nat ?n" using n by simp
    also have "of_nat ?n \<le> (2 :: rat) ^ Suc k"
      using clog2n_bounds(1) [OF n1] k(1) by (metis of_nat_le_iff of_nat_numeral of_nat_power)
    finally have lo: "1 \<le> x * 2 ^ Suc k" using assms by (simp add: field_simps)
    have "int (2 ^ k) < \<lceil>1 / x\<rceil>" using k(2) by linarith
    then have "of_int (int (2 ^ k)) < 1 / x" by (simp only: less_ceiling_iff)
    then have hi: "x * 2 ^ k < 1" using assms by (simp add: field_simps)
    have "binade x = - int (Suc k)" using False k(1) by (simp add: binade_def)
    then have "binade x + 1 = - int k" by simp
    with \<open>binade x = - int (Suc k)\<close>
    have e: "2 powi binade x = (1 / 2 ^ Suc k :: rat)" "2 powi (binade x + 1) = (1 / 2 ^ k :: rat)"
      by (simp_all only: power_int_minus power_int_of_nat inverse_eq_divide)
    show ?thesis unfolding e using lo hi by (simp add: field_simps)
  qed
  then show "2 powi binade x \<le> x" and "x < 2 powi (binade x + 1)" by auto
qed

lemma binade_unique:
  assumes "0 < x" and "2 powi e \<le> x" and "x < 2 powi (e + 1)"
  shows "binade x = e"
proof -
  have "(2 :: rat) powi binade x < 2 powi (e + 1)" "(2 :: rat) powi e < 2 powi (binade x + 1)"
    using binade_bounds [OF assms(1)] assms(2,3) by linarith+
  then have "binade x < e + 1" "e < binade x + 1"
    using power_int_increasing [of _ _ "2 :: rat"] by (meson linorder_not_less numeral_le_one_iff one_le_numeral)+
  then show ?thesis by simp
qed

lemma ulp_pos [simp]: "0 < ulp x"
  by (simp add: ulp_def)

lemma scaled_bounds:
  assumes "0 < x"
  shows "2 ^ 52 \<le> x / ulp x" and "x / ulp x < 2 ^ 53"
proof -
  have "2 powi binade x = 2 ^ 52 * ulp x" "2 powi (binade x + 1) = 2 ^ 53 * ulp x"
    by (simp_all add: ulp_def power_int_diff power_int_add)
  then show "2 ^ 52 \<le> x / ulp x" and "x / ulp x < 2 ^ 53"
    using binade_bounds [OF assms] by (simp_all add: field_simps)
qed

section \<open>Rounding is exact on representable numbers\<close>

lemma fl64_0 [simp]: "fl64 0 = 0"
  by (simp add: fl64_def)

lemma fl64_minus [simp]: "fl64 (- x) = - fl64 x"
  by (simp add: fl64_def sgn_minus)

lemma fl64_pos: "0 < x \<Longrightarrow> fl64 x = of_int (round_even (x / ulp x)) * ulp x"
  by (simp add: fl64_def)

lemma fl64_exact: "0 < x \<Longrightarrow> x = of_int m * ulp x \<Longrightarrow> fl64 x = x"
  using ulp_pos [of x] by (metis fl64_pos nonzero_mult_div_cancel_right order_less_irrefl round_even_int)

lemma fl64_bounds:
  assumes "0 < x"
  shows "2 powi binade x \<le> fl64 x" and "fl64 x \<le> 2 powi (binade x + 1)"
proof -
  let ?m = "round_even (x / ulp x)"
  have "round_even (of_int (2 ^ 52)) \<le> ?m" "?m \<le> round_even (of_int (2 ^ 53))"
    by (rule round_even_mono, use scaled_bounds [OF assms] in simp)+
  then have "2 ^ 52 \<le> ?m" "?m \<le> 2 ^ 53" by (simp_all only: round_even_int)
  then have "of_int (2 ^ 52) \<le> (of_int ?m :: rat)" "of_int ?m \<le> (of_int (2 ^ 53) :: rat)"
    by (simp_all only: of_int_le_iff)
  then have "2 ^ 52 * ulp x \<le> of_int ?m * ulp x" "of_int ?m * ulp x \<le> 2 ^ 53 * ulp x"
    using ulp_pos [of x] by (simp_all add: mult_right_mono)
  then show "2 powi binade x \<le> fl64 x" "fl64 x \<le> 2 powi (binade x + 1)"
    by (simp_all add: fl64_pos [OF assms] ulp_def power_int_diff power_int_add)
qed

lemma fl64_mono_pos:
  assumes "0 < x" and "x \<le> y"
  shows "fl64 x \<le> fl64 y"
proof (cases "binade x = binade y")
  case True
  then have "ulp x = ulp y" by (simp add: ulp_def)
  then have "round_even (x / ulp x) \<le> round_even (y / ulp y)"
    using assms(2) ulp_pos [of y] by (intro round_even_mono) (simp add: divide_right_mono less_imp_le)
  then show ?thesis using assms \<open>ulp x = ulp y\<close> by (simp add: fl64_pos mult_right_mono)
next
  case False
  have y: "0 < y" using assms by simp
  have "(2 :: rat) powi binade x < 2 powi (binade y + 1)"
    using binade_bounds(1) [OF assms(1)] binade_bounds(2) [OF y] assms(2) by linarith
  then have "\<not> binade y + 1 \<le> binade x"
    using power_int_increasing [of "binade y + 1" "binade x" "2 :: rat"] by auto
  with False have "binade x + 1 \<le> binade y" by simp
  then have "(2 :: rat) powi (binade x + 1) \<le> 2 powi binade y" by (simp add: power_int_increasing)
  then show ?thesis using fl64_bounds(2) [OF assms(1)] fl64_bounds(1) [OF y] by linarith
qed

lemma fl64_nonneg: "0 \<le> x \<Longrightarrow> 0 \<le> fl64 x"
  using fl64_bounds(1) [of x] zero_less_power_int [of "2 :: rat" "binade x"]
  by (cases "x = 0") (simp, linarith)

lemma fl64_gt_0: "0 < x \<Longrightarrow> 0 < fl64 x"
  using fl64_bounds(1) [of x] zero_less_power_int [of "2 :: rat" "binade x"] by linarith

lemma fl64_mono: "x \<le> y \<Longrightarrow> fl64 x \<le> fl64 y"
proof -
  assume le: "x \<le> y"
  consider "0 < x" | "x \<le> 0" "0 \<le> y" | "y < 0" by linarith
  then show ?thesis
  proof cases
    case 1
    then show ?thesis using le by (rule fl64_mono_pos)
  next
    case 2
    then show ?thesis using fl64_nonneg [of y] fl64_nonneg [of "- x"] by simp
  next
    case 3
    then show ?thesis using fl64_mono_pos [of "- y" "- x"] le by simp
  qed
qed

text \<open>A number with at most 53 significant bits is its own rounding.\<close>

lemma fl64_multiple:
  assumes "0 < x" and "x = of_int m * 2 powi k" and "binade x - 52 \<le> k"
  shows "fl64 x = x"
proof (rule fl64_exact [OF assms(1)])
  have "k = int (nat (k - (binade x - 52))) + (binade x - 52)" using assms(3) by simp
  then have "(2 :: rat) powi k = 2 ^ nat (k - (binade x - 52)) * ulp x"
    by (metis power_int_add power_int_of_nat ulp_def zero_neq_numeral)
  then show "x = of_int (m * 2 ^ nat (k - (binade x - 52))) * ulp x"
    using assms(2) by simp
qed

lemma fl64_of_pos_int:
  assumes "0 < n" and "n \<le> 2 ^ 53"
  shows "fl64 (of_int n) = of_int n"
proof -
  have pos: "0 < (of_int n :: rat)" using assms(1) by simp
  show ?thesis
  proof (cases "n = 2 ^ 53")
    case True
    then have b: "binade (of_int n) = 53" using pos by (intro binade_unique) simp_all
    show ?thesis
      using fl64_multiple [OF pos, of 1 53] b True by simp
  next
    case False
    then have "n < 2 ^ 53" using assms(2) by simp
    then have lt: "(of_int n :: rat) < 2 powi 53"
      by (metis of_int_less_iff of_int_numeral of_int_power power_int_numeral)
    have "\<not> 53 \<le> binade (of_int n)"
      using binade_bounds(1) [OF pos] lt power_int_increasing [of 53 "binade (of_int n)" "2 :: rat"]
      by auto
    then show ?thesis by (intro fl64_multiple [OF pos, of n 0]) simp_all
  qed
qed

lemma fl64_of_int: "\<bar>n\<bar> \<le> 2 ^ 53 \<Longrightarrow> fl64 (of_int n) = of_int n"
  using fl64_of_pos_int [of n] fl64_of_pos_int [of "- n"]
  by (cases n "0 :: int" rule: linorder_cases) simp_all

lemma fl64_idem_pos:
  assumes "0 < x"
  shows "fl64 (fl64 x) = fl64 x"
proof -
  have pos: "0 < fl64 x"
    using fl64_bounds(1) [OF assms] zero_less_power_int [of "2 :: rat" "binade x"] by linarith
  show ?thesis
  proof (cases "fl64 x = 2 powi (binade x + 1)")
    case True
    have "binade (fl64 x) = binade x + 1" by (rule binade_unique [OF pos]) (simp_all add: True power_int_add)
    then show ?thesis
      by (intro fl64_multiple [OF pos, of 1 "binade x + 1"]) (simp_all add: True)
  next
    case False
    then have "binade (fl64 x) = binade x"
      using fl64_bounds [OF assms] by (intro binade_unique [OF pos]) simp_all
    then show ?thesis
      by (intro fl64_multiple [OF pos, of "round_even (x / ulp x)" "binade x - 52"])
        (simp_all add: fl64_pos [OF assms] ulp_def)
  qed
qed

lemma fl64_idem: "fl64 (fl64 x) = fl64 x"
  using fl64_idem_pos [of x] fl64_idem_pos [of "- x"]
  by (cases x "0 :: rat" rule: linorder_cases) simp_all

text \<open>The relative error of one rounding is at most 2^-53.\<close>

lemma round_even_half: "of_int (round_even x) \<le> x + 1 / 2" "x \<le> of_int (round_even x) + 1 / 2"
  by (simp_all add: round_even_def Let_def) linarith+

lemma fl64_le:
  assumes "0 \<le> x"
  shows "fl64 x \<le> x * (1 + 1 / 2 ^ 53)"
proof (cases "x = 0")
  case False
  with assms have x: "0 < x" by simp
  have "of_int (round_even (x / ulp x)) \<le> x / ulp x + 1 / 2" by (rule round_even_half(1))
  also have "\<dots> \<le> x / ulp x * (1 + 1 / 2 ^ 53)" using scaled_bounds(1) [OF x] by simp
  finally have "of_int (round_even (x / ulp x)) * ulp x \<le> x / ulp x * (1 + 1 / 2 ^ 53) * ulp x"
    by (intro mult_right_mono) (simp_all add: less_imp_le)
  then show ?thesis using x ulp_pos [of x] by (simp add: fl64_pos less_imp_neq [THEN not_sym])
qed simp

lemma fl64_ge:
  assumes "0 \<le> x"
  shows "x * (1 - 1 / 2 ^ 53) \<le> fl64 x"
proof (cases "x = 0")
  case False
  with assms have x: "0 < x" by simp
  have "x / ulp x * (1 - 1 / 2 ^ 53) \<le> x / ulp x - 1 / 2" using scaled_bounds(1) [OF x] by simp
  also have "\<dots> \<le> of_int (round_even (x / ulp x))" using round_even_half(2) [of "x / ulp x"] by simp
  finally have "x / ulp x * (1 - 1 / 2 ^ 53) * ulp x \<le> of_int (round_even (x / ulp x)) * ulp x"
    by (intro mult_right_mono) (simp_all add: less_imp_le)
  then show ?thesis using x ulp_pos [of x] by (simp add: fl64_pos less_imp_neq [THEN not_sym])
qed simp

section \<open>Conversion to integers\<close>

text \<open>
  The conversion \<open>int64(f)\<close> drops the fraction. For a value outside the range of \<open>int64\<close> the
  result is up to the implementation; on amd64 it is the least \<open>int64\<close>.
\<close>

definition trunc :: "rat \<Rightarrow> int" where
  "trunc r = (if r < 0 then - \<lfloor>- r\<rfloor> else \<lfloor>r\<rfloor>)"

definition float_to_int64 :: "rat \<Rightarrow> int" where
  "float_to_int64 r = (if in_i64 (trunc r) then trunc r else - (2 ^ 63))"

lemma trunc_of_int [simp]: "trunc (of_int n) = n"
  by (simp add: trunc_def flip: of_int_minus)

lemma float_to_int64_of_int: "in_i64 n \<Longrightarrow> float_to_int64 (of_int n) = n"
  by (simp add: float_to_int64_def)

text \<open>\<open>time.Duration.Seconds\<close>: the whole seconds plus the rest over a billion, in doubles.\<close>

definition duration_seconds :: "duration \<Rightarrow> rat" where
  "duration_seconds d =
     fl64 (fl64 (of_int (d sdiv second)) + fl64 (fl64 (of_int (d smod second)) / 1000000000))"

section \<open>What the proofs use\<close>

locale rounding =
  fixes fl :: "rat \<Rightarrow> rat"
  assumes fl_mono: "x \<le> y \<Longrightarrow> fl x \<le> fl y"
    and fl_idem [simp]: "fl (fl x) = fl x"
    and fl_int: "\<bar>n\<bar> \<le> 2 ^ 53 \<Longrightarrow> fl (of_int n) = of_int n"
begin

lemma fl_0 [simp]: "fl 0 = 0"
  using fl_int [of 0] by simp

lemma fl_1 [simp]: "fl 1 = 1"
  using fl_int [of 1] by simp

lemma fl_nonneg: "0 \<le> x \<Longrightarrow> 0 \<le> fl x"
  using fl_mono [of 0 x] by simp

lemma fl_ge_int: "\<bar>n\<bar> \<le> 2 ^ 53 \<Longrightarrow> of_int n \<le> x \<Longrightarrow> of_int n \<le> fl x"
  using fl_mono [of "of_int n" x] by (simp add: fl_int)

lemma fl_le_int: "\<bar>n\<bar> \<le> 2 ^ 53 \<Longrightarrow> x \<le> of_int n \<Longrightarrow> fl x \<le> of_int n"
  using fl_mono [of x "of_int n"] by (simp add: fl_int)

end

interpretation fl64: rounding fl64
  by unfold_locales (simp_all add: fl64_mono fl64_idem fl64_of_int)

end
