(* ===== verification/Claims.thy ===== *)
theory Claims
  imports Float64 "HOL-Library.AList"
begin

text \<open>
  Go's \<open>any\<close> values as the JWT module meets them, and a claims map \<open>map[string]any\<close> as an
  association list: Go leaves the order in which \<open>range\<close> visits a map open, so the order of the
  list is the order of one particular iteration, lookups go through \<open>map_of\<close>, and a map never
  holds a key twice (\<open>is_map\<close>).
\<close>

datatype any =
    ANil
  | AStr string
  | AInt64 int
  | AFloat64 rat
  | ABool bool
  | ATime instant
  | AStrs "string list"
  | AList "any list"
  | AOther string

type_synonym claims = "(string \<times> any) list"

definition is_map :: "('k \<times> 'v) list \<Rightarrow> bool" where
  "is_map m = distinct (map fst m)"

text \<open>
  The type assertions \<open>v.(string)\<close>, \<open>v.(int64)\<close>, \<open>v.(float64)\<close> on the value of a key, which is
  \<open>nil\<close> when the key is absent: \<open>None\<close> is a failed assertion (\<open>ok\<close> is false).
\<close>

definition claim :: "claims \<Rightarrow> string \<Rightarrow> any" where
  "claim c k = (case map_of c k of None \<Rightarrow> ANil | Some v \<Rightarrow> v)"

definition has_claim :: "claims \<Rightarrow> string \<Rightarrow> bool" where
  "has_claim c k = (map_of c k \<noteq> None)"

fun as_string :: "any \<Rightarrow> string option" where
  "as_string (AStr s) = Some s"
| "as_string _ = None"

fun as_int64 :: "any \<Rightarrow> int option" where
  "as_int64 (AInt64 n) = Some n"
| "as_int64 _ = None"

fun as_float64 :: "any \<Rightarrow> rat option" where
  "as_float64 (AFloat64 r) = Some r"
| "as_float64 _ = None"

text \<open>The value of a single-result assertion \<open>x, _ := v.(T)\<close> is T's zero value on failure.\<close>

definition string_or_zero :: "any \<Rightarrow> string" where
  "string_or_zero v = (case as_string v of None \<Rightarrow> '''' | Some s \<Rightarrow> s)"

text \<open>\<open>x, ok := v.(string); ok && x != ""\<close>: the non-empty string in \<open>v\<close>, if there is one.\<close>

definition nonempty_string :: "any \<Rightarrow> string option" where
  "nonempty_string v = (case as_string v of
     None \<Rightarrow> None | Some s \<Rightarrow> if s \<noteq> '''' then Some s else None)"

definition int64_or_zero :: "any \<Rightarrow> int" where
  "int64_or_zero v = (case as_int64 v of None \<Rightarrow> 0 | Some n \<Rightarrow> n)"

lemma as_string_Some [simp]: "as_string v = Some s \<longleftrightarrow> v = AStr s"
  by (cases v) auto

lemma string_or_zero_AStr [simp]: "string_or_zero (AStr s) = s"
  by (simp add: string_or_zero_def)

lemma nonempty_string_Some: "nonempty_string v = Some s \<longleftrightarrow> v = AStr s \<and> s \<noteq> ''''"
  by (auto simp: nonempty_string_def split: option.splits)

lemma nonempty_string_AStr [simp]: "s \<noteq> '''' \<Longrightarrow> nonempty_string (AStr s) = Some s"
  by (simp add: nonempty_string_Some)

lemma string_of_absent [simp]: "nonempty_string ANil = None" "string_or_zero ANil = ''''"
  by (simp_all add: nonempty_string_def string_or_zero_def)

lemma claim_Nil [simp]: "claim [] k = ANil"
  by (simp add: claim_def)

lemma claim_Cons [simp]: "claim ((j, v) # c) k = (if j = k then v else claim c k)"
  by (simp add: claim_def)

lemma claim_perm:
  assumes "is_map c" and "is_map c'" and "set c = set c'"
  shows "claim c = claim c'" and "has_claim c = has_claim c'"
proof -
  have "map_of c = map_of c'"
    using assms by (simp add: is_map_def map_of_inject_set)
  then show "claim c = claim c'" and "has_claim c = has_claim c'"
    by (simp_all add: claim_def has_claim_def fun_eq_iff)
qed

end
