(* ===== verification/Redis.thy ===== *)
theory Redis
  imports Prelude Complex_Main "HOL-Library.List_Lexorder" "HOL-Library.Char_ord"
begin

text \<open>
  The Redis command interfaces that the modules declare (\<open>storage.Client\<close>, and the
  \<open>RedisClient\<close> of \<open>cache\<close>, \<open>idempotency\<close> and \<open>ratelimit\<close>). A client is a record of
  commands on an arbitrary world \<open>'w\<close>: it is a parameter of every store. What the stores rely
  on is stated in locales, one per group of commands, as equations on a view of the world (is
  the server reachable, its clock, its keyspace); each equation is the documented effect of
  one command on a reachable server. Nothing is assumed of an unreachable one.
\<close>

section \<open>The client interfaces\<close>

text \<open>
  Go's interfaces are structural: whatever implements the larger interface implements the
  smaller ones, so the larger records extend the smaller.
\<close>

record 'w cache_client =
  c_get :: "string \<Rightarrow> ('w, string) act"
  c_set :: "string \<Rightarrow> string \<Rightarrow> duration \<Rightarrow> ('w, unit) act"
  c_del :: "string list \<Rightarrow> ('w, int) act"
  c_close :: "('w, unit) act"

record set_args =
  sa_mode :: string
  sa_ttl :: duration

record 'w idempotency_client = "'w cache_client" +
  c_set_args :: "string \<Rightarrow> string \<Rightarrow> set_args \<Rightarrow> ('w, string) act"

record 'w storage_client = "'w idempotency_client" +
  c_ttl :: "string \<Rightarrow> ('w, duration) act"

section \<open>The view of a server\<close>

text \<open>
  A key holds a string, a hash (the numbers a Lua script stores in its fields) or a sorted set
  (members with a score), and possibly the instant at which it expires. Sorted-set entries are
  ordered by score and, for equal scores, by member.
\<close>

datatype zmember = Zm (z_score: rat) (z_member: string)

instantiation zmember :: linorder
begin

definition less_eq_zmember :: "zmember \<Rightarrow> zmember \<Rightarrow> bool" where
  "less_eq_zmember a b \<longleftrightarrow>
     z_score a < z_score b \<or> z_score a = z_score b \<and> z_member a \<le> z_member b"

definition less_zmember :: "zmember \<Rightarrow> zmember \<Rightarrow> bool" where
  "less_zmember a b \<longleftrightarrow>
     z_score a < z_score b \<or> z_score a = z_score b \<and> z_member a < z_member b"

instance
  by standard (auto simp: less_eq_zmember_def less_zmember_def intro: zmember.expand)

end

lemma zmember_le_score: "a \<le> b \<Longrightarrow> z_score a \<le> z_score b"
  by (auto simp: less_eq_zmember_def)

datatype redis_obj =
    RString string
  | RHash "string \<Rightarrow> rat option"
  | RZset "zmember set"

type_synonym keyspace = "string \<Rightarrow> (redis_obj \<times> instant option) option"

record redis_view =
  rv_up :: bool
  rv_clock :: instant
  rv_keys :: keyspace

definition put_key :: "string \<Rightarrow> redis_obj \<times> instant option \<Rightarrow> redis_view \<Rightarrow> redis_view" where
  "put_key k x v = v\<lparr>rv_keys := (rv_keys v)(k \<mapsto> x)\<rparr>"

definition drop_key :: "string \<Rightarrow> redis_view \<Rightarrow> redis_view" where
  "drop_key k v = v\<lparr>rv_keys := (rv_keys v)(k := None)\<rparr>"

text \<open>
  A time to live given to \<open>SET\<close> travels in milliseconds, one given to \<open>EXPIRE\<close> in seconds: the
  parameter \<open>rnd\<close> is that rounding. A value of 0 means no expiration.
\<close>

definition expiry_at :: "(duration \<Rightarrow> duration) \<Rightarrow> redis_view \<Rightarrow> duration \<Rightarrow> instant option" where
  "expiry_at rnd v ttl = (if 0 < ttl then Some (rv_clock v + rnd ttl) else None)"

definition survives :: "(instant \<Rightarrow> instant \<Rightarrow> bool) \<Rightarrow> instant \<Rightarrow> instant option \<Rightarrow> bool" where
  "survives late t dl = (case dl of None \<Rightarrow> True | Some d \<Rightarrow> \<not> late t d)"

definition age :: "(instant \<Rightarrow> instant \<Rightarrow> bool) \<Rightarrow> duration \<Rightarrow> redis_view \<Rightarrow> redis_view" where
  "age late d v = v\<lparr>rv_clock := rv_clock v + d,
     rv_keys := (\<lambda>k. case rv_keys v k of
        None \<Rightarrow> None
      | Some (x, dl) \<Rightarrow> if survives late (rv_clock v + d) dl then Some (x, dl) else None)\<rparr>"

lemma put_key_sel [simp]:
  "rv_up (put_key k x v) = rv_up v"
  "rv_clock (put_key k x v) = rv_clock v"
  "rv_keys (put_key k x v) = (rv_keys v)(k \<mapsto> x)"
  by (simp_all add: put_key_def)

lemma drop_key_sel [simp]:
  "rv_up (drop_key k v) = rv_up v"
  "rv_clock (drop_key k v) = rv_clock v"
  "rv_keys (drop_key k v) = (rv_keys v)(k := None)"
  by (simp_all add: drop_key_def)

lemma age_sel [simp]:
  "rv_up (age late d v) = rv_up v"
  "rv_clock (age late d v) = rv_clock v + d"
  by (simp_all add: age_def)

lemma age_keys:
  "rv_keys (age late d v) k =
     (case rv_keys v k of None \<Rightarrow> None
      | Some (x, dl) \<Rightarrow> if survives late (rv_clock v + d) dl then Some (x, dl) else None)"
  by (simp add: age_def)

lemma age_keys_None [simp]: "rv_keys v k = None \<Longrightarrow> rv_keys (age late d v) k = None"
  by (simp add: age_keys)

lemma survives_None [simp]: "survives late t None"
  by (simp add: survives_def)

section \<open>What the stores rely on\<close>

text \<open>
  The environment: time passes (\<open>elapse\<close>), and a key whose deadline is in the past is gone,
  one whose deadline is in the future is not. Servers differ on the very instant of the
  deadline, so \<open>late\<close> says nothing there.
\<close>

locale redis_env =
  fixes view :: "'w \<Rightarrow> redis_view"
    and late :: "instant \<Rightarrow> instant \<Rightarrow> bool"
    and elapse :: "duration \<Rightarrow> 'w \<Rightarrow> 'w"
  assumes late_past: "dl < t \<Longrightarrow> late t dl"
    and late_future: "t < dl \<Longrightarrow> \<not> late t dl"
    and elapse_view: "0 \<le> d \<Longrightarrow> view (elapse d w) = age late d (view w)"

locale redis_kv = redis_env view late elapse
  for view :: "'w \<Rightarrow> redis_view" and late elapse +
  fixes cl :: "('w, 'z) cache_client_scheme"
    and px :: "duration \<Rightarrow> duration"
  assumes px_pos: "0 < d \<Longrightarrow> 0 < px d"
    and px_exact: "millisecond dvd d \<Longrightarrow> px d = d"
    and px_near: "0 < d \<Longrightarrow> d - millisecond < px d"
    and get_view: "rv_up (view w) \<Longrightarrow> view (snd (c_get cl k w)) = view w"
    and get_none: "rv_up (view w) \<Longrightarrow> rv_keys (view w) k = None \<Longrightarrow>
      fst (c_get cl k w) = Inl RedisNil"
    and get_some: "rv_up (view w) \<Longrightarrow> rv_keys (view w) k = Some (RString x, dl) \<Longrightarrow>
      fst (c_get cl k w) = Inr x"
    and set_reply: "rv_up (view w) \<Longrightarrow> 0 \<le> ttl \<Longrightarrow> fst (c_set cl k x ttl w) = Inr ()"
    and set_view: "rv_up (view w) \<Longrightarrow> 0 \<le> ttl \<Longrightarrow>
      view (snd (c_set cl k x ttl w)) = put_key k (RString x, expiry_at px (view w) ttl) (view w)"
    and del_reply: "rv_up (view w) \<Longrightarrow>
      fst (c_del cl [k] w) = Inr (if rv_keys (view w) k = None then 0 else 1)"
    and del_view: "rv_up (view w) \<Longrightarrow> view (snd (c_del cl [k] w)) = drop_key k (view w)"

locale redis_nx = redis_kv view late elapse cl px
  for view :: "'w \<Rightarrow> redis_view" and late elapse
    and cl :: "('w, 'z) idempotency_client_scheme" and px +
  assumes nx_free: "rv_up (view w) \<Longrightarrow> rv_keys (view w) k = None \<Longrightarrow>
      fst (c_set_args cl k x \<lparr>sa_mode = ''NX'', sa_ttl = ttl\<rparr> w) = Inr ''OK''"
    and nx_free_view: "rv_up (view w) \<Longrightarrow> rv_keys (view w) k = None \<Longrightarrow>
      view (snd (c_set_args cl k x \<lparr>sa_mode = ''NX'', sa_ttl = ttl\<rparr> w)) =
        put_key k (RString x, expiry_at px (view w) ttl) (view w)"
    and nx_held: "rv_up (view w) \<Longrightarrow> rv_keys (view w) k = Some y \<Longrightarrow>
      fst (c_set_args cl k x \<lparr>sa_mode = ''NX'', sa_ttl = ttl\<rparr> w) = Inl RedisNil"
    and nx_held_view: "rv_up (view w) \<Longrightarrow> rv_keys (view w) k = Some y \<Longrightarrow>
      view (snd (c_set_args cl k x \<lparr>sa_mode = ''NX'', sa_ttl = ttl\<rparr> w)) = view w"

text \<open>
  \<open>TTL\<close> answers in whole seconds (\<open>secs\<close>), with -1 for a key that never expires and -2 for
  a missing one, which the client hands over as that many nanoseconds.
\<close>

locale redis_ttl = redis_nx view late elapse cl px
  for view :: "'w \<Rightarrow> redis_view" and late elapse
    and cl :: "('w, 'z) storage_client_scheme" and px +
  fixes secs :: "duration \<Rightarrow> duration"
  assumes secs_near: "0 \<le> d \<Longrightarrow> 0 \<le> secs d \<and> \<bar>secs d - d\<bar> \<le> second"
    and ttl_view: "rv_up (view w) \<Longrightarrow> view (snd (c_ttl cl k w)) = view w"
    and ttl_none: "rv_up (view w) \<Longrightarrow> rv_keys (view w) k = None \<Longrightarrow> fst (c_ttl cl k w) = Inr (- 2)"
    and ttl_persistent: "rv_up (view w) \<Longrightarrow> rv_keys (view w) k = Some (x, None) \<Longrightarrow>
      fst (c_ttl cl k w) = Inr (- 1)"
    and ttl_some: "rv_up (view w) \<Longrightarrow> rv_keys (view w) k = Some (x, Some dl) \<Longrightarrow>
      fst (c_ttl cl k w) = Inr (secs (max 0 (dl - rv_clock (view w))))"

context redis_env
begin

lemma up_elapse [simp]: "0 \<le> d \<Longrightarrow> rv_up (view (elapse d w)) = rv_up (view w)"
  by (simp add: elapse_view)

lemma clock_elapse [simp]: "0 \<le> d \<Longrightarrow> rv_clock (view (elapse d w)) = rv_clock (view w) + d"
  by (simp add: elapse_view)

lemma elapse_keeps:
  assumes "0 \<le> d" and "rv_keys (view w) k = Some (x, dl)"
    and "case dl of None \<Rightarrow> True | Some t \<Rightarrow> rv_clock (view w) + d < t"
  shows "rv_keys (view (elapse d w)) k = Some (x, dl)"
  using assms late_future by (auto simp: elapse_view age_keys survives_def split: option.splits)

lemma elapse_drops:
  assumes "0 \<le> d" and "rv_keys (view w) k = Some (x, Some dl)" and "dl < rv_clock (view w) + d"
  shows "rv_keys (view (elapse d w)) k = None"
  using assms late_past by (simp add: elapse_view age_keys survives_def)

lemma elapse_absent:
  assumes "0 \<le> d" and "rv_keys (view w) k = None"
  shows "rv_keys (view (elapse d w)) k = None"
  using assms by (simp add: elapse_view)

end

end
