(* ===== verification/Storage_Interface.thy ===== *)
theory Storage_Interface
  imports Redis
begin

text \<open>
  The interface \<open>storage.Storage\<close> that the modules are given a backend through, its contract
  (the locale \<open>kv_storage\<close>, on a view of the backend's live entries), and what a client can
  conclude from the contract about whole sequences of operations: an entry stays readable
  through any operations on other keys until its time to live has passed, and not longer.
\<close>

section \<open>The storage interface\<close>

record 'w storage_ops =
  so_get :: "string \<Rightarrow> ('w, string option) act"
  so_set :: "string \<Rightarrow> string \<Rightarrow> duration \<Rightarrow> ('w, unit) act"
  so_delete :: "string \<Rightarrow> ('w, unit) act"
  so_close :: "('w, unit) act"

record storage_view =
  sv_ok :: bool
  sv_now :: instant
  sv_entries :: "string \<Rightarrow> (string \<times> instant option) option"

text \<open>
  The view of a storage backend: is it usable, its clock, its live entries with their deadline.
\<close>

definition entry_until :: "(duration \<Rightarrow> duration) \<Rightarrow> instant \<Rightarrow> duration \<Rightarrow> instant option" where
  "entry_until px t ttl = (if 0 < ttl then Some (t + px ttl) else None)"

definition put_entry :: "string \<Rightarrow> string \<times> instant option \<Rightarrow> storage_view \<Rightarrow> storage_view" where
  "put_entry k x v = v\<lparr>sv_entries := (sv_entries v)(k \<mapsto> x)\<rparr>"

definition drop_entry :: "string \<Rightarrow> storage_view \<Rightarrow> storage_view" where
  "drop_entry k v = v\<lparr>sv_entries := (sv_entries v)(k := None)\<rparr>"

definition age_entries ::
  "(instant \<Rightarrow> instant \<Rightarrow> bool) \<Rightarrow> duration \<Rightarrow> storage_view \<Rightarrow> storage_view" where
  "age_entries late d v = v\<lparr>sv_now := sv_now v + d,
     sv_entries := (\<lambda>k. case sv_entries v k of
        None \<Rightarrow> None
      | Some (x, dl) \<Rightarrow> if survives late (sv_now v + d) dl then Some (x, dl) else None)\<rparr>"

lemma storage_view_sel [simp]:
  "sv_ok (put_entry k x v) = sv_ok v"
  "sv_now (put_entry k x v) = sv_now v"
  "sv_entries (put_entry k x v) = (sv_entries v)(k \<mapsto> x)"
  "sv_ok (drop_entry k v) = sv_ok v"
  "sv_now (drop_entry k v) = sv_now v"
  "sv_entries (drop_entry k v) = (sv_entries v)(k := None)"
  "sv_ok (age_entries late d v) = sv_ok v"
  "sv_now (age_entries late d v) = sv_now v + d"
  by (simp_all add: put_entry_def drop_entry_def age_entries_def)

lemma age_entries_entries:
  "sv_entries (age_entries late d v) k =
     (case sv_entries v k of None \<Rightarrow> None
      | Some (x, dl) \<Rightarrow> if survives late (sv_now v + d) dl then Some (x, dl) else None)"
  by (simp add: age_entries_def)

text \<open>The contract of \<open>storage.Storage\<close>, as the modules that are given a backend use it.\<close>

locale kv_storage =
  fixes sview :: "'w \<Rightarrow> storage_view"
    and late :: "instant \<Rightarrow> instant \<Rightarrow> bool"
    and elapse :: "duration \<Rightarrow> 'w \<Rightarrow> 'w"
    and ops :: "'w storage_ops"
    and px :: "duration \<Rightarrow> duration"
  assumes late_past: "dl < t \<Longrightarrow> late t dl"
    and late_future: "t < dl \<Longrightarrow> \<not> late t dl"
    and px_pos: "0 < d \<Longrightarrow> 0 < px d"
    and px_exact: "millisecond dvd d \<Longrightarrow> px d = d"
    and px_near: "0 < d \<Longrightarrow> d - millisecond < px d"
    and elapse_sview: "sv_ok (sview w) \<Longrightarrow> 0 \<le> d \<Longrightarrow> sview (elapse d w) = age_entries late d (sview w)"
    and get_reply: "sv_ok (sview w) \<Longrightarrow>
      fst (so_get ops k w) = Inr (map_option fst (sv_entries (sview w) k))"
    and get_sview: "sv_ok (sview w) \<Longrightarrow> sview (snd (so_get ops k w)) = sview w"
    and set_reply: "sv_ok (sview w) \<Longrightarrow> 0 \<le> ttl \<Longrightarrow> fst (so_set ops k x ttl w) = Inr ()"
    and set_sview: "sv_ok (sview w) \<Longrightarrow> 0 \<le> ttl \<Longrightarrow>
      sview (snd (so_set ops k x ttl w)) =
        put_entry k (x, entry_until px (sv_now (sview w)) ttl) (sview w)"
    and delete_reply: "sv_ok (sview w) \<Longrightarrow> fst (so_delete ops k w) = Inr ()"
    and delete_sview: "sv_ok (sview w) \<Longrightarrow>
      sview (snd (so_delete ops k w)) = drop_entry k (sview w)"

section \<open>Sequences of operations\<close>

datatype storage_op =
    OpGet string
  | OpSet string string duration
  | OpDelete string
  | OpWait duration

fun storage_step ::
  "'w storage_ops \<Rightarrow> (duration \<Rightarrow> 'w \<Rightarrow> 'w) \<Rightarrow> storage_op \<Rightarrow> 'w \<Rightarrow> 'w" where
  "storage_step ops elapse (OpGet k) w = snd (so_get ops k w)"
| "storage_step ops elapse (OpSet k x ttl) w = snd (so_set ops k x ttl w)"
| "storage_step ops elapse (OpDelete k) w = snd (so_delete ops k w)"
| "storage_step ops elapse (OpWait d) w = elapse d w"

definition storage_run ::
  "'w storage_ops \<Rightarrow> (duration \<Rightarrow> 'w \<Rightarrow> 'w) \<Rightarrow> storage_op list \<Rightarrow> 'w \<Rightarrow> 'w" where
  "storage_run ops elapse os w = fold (storage_step ops elapse) os w"

fun op_waits :: "storage_op \<Rightarrow> duration" where
  "op_waits (OpWait d) = d"
| "op_waits _ = 0"

definition waited :: "storage_op list \<Rightarrow> duration" where
  "waited os = sum_list (map op_waits os)"

text \<open>The operations that leave key \<open>k\<close> alone, with no negative durations.\<close>

fun spares :: "string \<Rightarrow> storage_op \<Rightarrow> bool" where
  "spares k (OpGet j) = True"
| "spares k (OpSet j x ttl) = (j \<noteq> k \<and> 0 \<le> ttl)"
| "spares k (OpDelete j) = (j \<noteq> k)"
| "spares k (OpWait d) = (0 \<le> d)"

lemma storage_run_simps [simp]:
  "storage_run ops elapse [] w = w"
  "storage_run ops elapse (x # os) w = storage_run ops elapse os (storage_step ops elapse x w)"
  by (simp_all add: storage_run_def)

lemma waited_simps [simp]:
  "waited [] = 0"
  "waited (x # os) = op_waits x + waited os"
  by (simp_all add: waited_def)

lemma op_waits_nonneg: "spares k x \<Longrightarrow> 0 \<le> op_waits x"
  by (cases x) auto

lemma waited_nonneg: "list_all (spares k) os \<Longrightarrow> 0 \<le> waited os"
  by (induction os) (auto simp: op_waits_nonneg)

section \<open>What happens to one entry\<close>

text \<open>
  \<open>quiet sview elapse k t w w'\<close>: from \<open>w\<close> to \<open>w'\<close> there were only steps that leave the entry of \<open>k\<close>
  alone and waits, \<open>t\<close> nanoseconds in all.
\<close>

inductive quiet ::
  "('w \<Rightarrow> storage_view) \<Rightarrow> (duration \<Rightarrow> 'w \<Rightarrow> 'w) \<Rightarrow> string \<Rightarrow> duration \<Rightarrow> 'w \<Rightarrow> 'w \<Rightarrow> bool"
  for sview elapse k
where
  quiet_start: "quiet sview elapse k 0 w w"
| quiet_step: "quiet sview elapse k t w w1 \<Longrightarrow> sv_ok (sview w2) \<Longrightarrow> sv_now (sview w2) = sv_now (sview w1) \<Longrightarrow>
     sv_entries (sview w2) k = sv_entries (sview w1) k \<Longrightarrow> quiet sview elapse k t w w2"
| quiet_wait: "quiet sview elapse k t w w1 \<Longrightarrow> 0 \<le> d \<Longrightarrow> quiet sview elapse k (t + d) w (elapse d w1)"

lemma quiet_trans:
  assumes "quiet sview elapse k u w1 w2" and "quiet sview elapse k t w w1"
  shows "quiet sview elapse k (t + u) w w2"
  using assms(1,2)
proof (induction rule: quiet.induct)
  case (quiet_wait u w1 w2 d)
  then show ?case using quiet.quiet_wait [of sview elapse k "t + u" w w2 d] by (simp add: add.assoc)
qed (auto intro: quiet.intros)

context kv_storage
begin

lemma quiet_ok:
  assumes "quiet sview elapse k t w w'" and "sv_ok (sview w)"
  shows "sv_ok (sview w')" and "sv_now (sview w') = sv_now (sview w) + t" and "0 \<le> t"
proof -
  have "sv_ok (sview w') \<and> sv_now (sview w') = sv_now (sview w) + t \<and> 0 \<le> t"
    using assms by (induction rule: quiet.induct) (auto simp: elapse_sview)
  then show "sv_ok (sview w')" and "sv_now (sview w') = sv_now (sview w) + t" and "0 \<le> t" by auto
qed

lemma quiet_keeps:
  assumes "quiet sview elapse k t w w'" and "sv_ok (sview w)"
    and "sv_entries (sview w) k = Some (x, dl)"
    and "case dl of None \<Rightarrow> True | Some u \<Rightarrow> sv_now (sview w) + t < u"
  shows "sv_entries (sview w') k = Some (x, dl)"
  using assms
proof (induction rule: quiet.induct)
  case (quiet_wait t w w1 d)
  note ok = quiet_ok [OF quiet_wait.hyps(1) quiet_wait.prems(1)]
  have "sv_entries (sview w1) k = Some (x, dl)"
    using quiet_wait by (auto split: option.splits)
  then show ?case
    using quiet_wait.prems(3) quiet_wait.hyps(2) ok late_future
    by (auto simp: elapse_sview [OF ok(1)] age_entries_entries survives_def add.assoc split: option.splits)
qed simp_all

lemma quiet_drops:
  assumes "quiet sview elapse k t w w'" and "sv_ok (sview w)"
    and "sv_entries (sview w) k = Some (x, Some u)"
    and "sv_now (sview w) \<le> u" and "u < sv_now (sview w) + t"
  shows "sv_entries (sview w') k = None"
proof -
  have "sv_entries (sview w') k = None \<or>
      sv_entries (sview w') k = Some (x, Some u) \<and> sv_now (sview w') \<le> u"
    using assms(1-4)
  proof (induction rule: quiet.induct)
    case (quiet_wait t w w1 d)
    note ok = quiet_ok [OF quiet_wait.hyps(1) quiet_wait.prems(1)]
    have "sv_entries (sview w1) k = None \<or> sv_entries (sview w1) k = Some (x, Some u)"
      using quiet_wait by blast
    then show ?case
      using quiet_wait.hyps(2) late_past [of u "sv_now (sview w1) + d"] not_le
      by (cases "late (sv_now (sview w1) + d) u") (auto simp: elapse_sview [OF ok(1)] age_entries_entries survives_def)
  qed auto
  then show ?thesis using quiet_ok(2) [OF assms(1,2)] assms(5) by auto
qed

text \<open>The reply to a read after a write and any steps that leave its entry alone.\<close>

lemma set_quiet_get:
  assumes "sv_ok (sview w)" and "0 \<le> ttl" and "quiet sview elapse k t (snd (so_set ops k x ttl w)) w'"
  shows "ttl = 0 \<or> t < px ttl \<Longrightarrow> fst (so_get ops k w') = Inr (Some x)"
    and "0 < ttl \<Longrightarrow> px ttl < t \<Longrightarrow> fst (so_get ops k w') = Inr None"
proof -
  let ?w = "snd (so_set ops k x ttl w)"
  have s: "sview ?w = put_entry k (x, entry_until px (sv_now (sview w)) ttl) (sview w)"
    by (rule set_sview [OF assms(1,2)])
  have ok: "sv_ok (sview ?w)" by (simp add: s assms(1))
  note ok' = quiet_ok(1) [OF assms(3) ok]
  show "fst (so_get ops k w') = Inr (Some x)" if "ttl = 0 \<or> t < px ttl"
  proof -
    have "sv_entries (sview w') k = Some (x, entry_until px (sv_now (sview w)) ttl)"
      using that assms(2) by (intro quiet_keeps [OF assms(3) ok]) (auto simp: s entry_until_def)
    then show ?thesis by (simp add: get_reply [OF ok'])
  qed
  show "fst (so_get ops k w') = Inr None" if "0 < ttl" and "px ttl < t"
    using quiet_drops [OF assms(3) ok, of x "sv_now (sview w) + px ttl"] that px_pos [OF that(1)]
    by (simp add: get_reply [OF ok'] s entry_until_def)
qed

lemma quiet_fold:
  assumes "\<And>x w. P x \<Longrightarrow> sv_ok (sview w) \<Longrightarrow> quiet sview elapse k (f x) w (step x w)"
    and "list_all P os" and "sv_ok (sview w)"
  shows "quiet sview elapse k (sum_list (map f os)) w (fold step os w)"
  using assms(2,3)
proof (induction os arbitrary: w)
  case (Cons x os)
  then have x: "quiet sview elapse k (f x) w (step x w)" using assms(1) by simp
  have "quiet sview elapse k (sum_list (map f os)) (step x w) (fold step os (step x w))"
    using Cons quiet_ok(1) [OF x] by simp
  from quiet_trans [OF this x] show ?case by simp
qed (simp add: quiet_start)

lemma quiet_get: "sv_ok (sview w) \<Longrightarrow> quiet sview elapse k 0 w (snd (so_get ops j w))"
  by (rule quiet_step [OF quiet_start]) (simp_all add: get_sview)

lemma quiet_set: "sv_ok (sview w) \<Longrightarrow> 0 \<le> ttl \<Longrightarrow> j \<noteq> k \<Longrightarrow> quiet sview elapse k 0 w (snd (so_set ops j x ttl w))"
  by (rule quiet_step [OF quiet_start]) (simp_all add: set_sview)

lemma quiet_delete: "sv_ok (sview w) \<Longrightarrow> j \<noteq> k \<Longrightarrow> quiet sview elapse k 0 w (snd (so_delete ops j w))"
  by (rule quiet_step [OF quiet_start]) (simp_all add: delete_sview)

lemma quiet_elapse: "0 \<le> d \<Longrightarrow> quiet sview elapse k d w (elapse d w)"
  using quiet_wait [OF quiet_start] by simp

lemmas quiet_ops = quiet_get quiet_set quiet_delete quiet_elapse

lemma quiet_run:
  assumes "list_all (spares k) os" and "sv_ok (sview w)"
  shows "quiet sview elapse k (waited os) w (storage_run ops elapse os w)"
  unfolding waited_def storage_run_def
proof (rule quiet_fold [OF _ assms])
  show "quiet sview elapse k (op_waits x) w (storage_step ops elapse x w)"
    if "spares k x" and "sv_ok (sview w)" for x w
    using that by (cases x) (auto intro: quiet_ops)
qed

lemmas run_ok = quiet_ok(1) [OF quiet_run]

lemma run_keeps:
  assumes "sv_ok (sview w)" and "list_all (spares k) os"
    and "sv_entries (sview w) k = Some (x, dl)"
    and "case dl of None \<Rightarrow> True | Some t \<Rightarrow> sv_now (sview w) + waited os < t"
  shows "sv_entries (sview (storage_run ops elapse os w)) k = Some (x, dl)"
  by (rule quiet_keeps [OF quiet_run [OF assms(2,1)] assms(1,3,4)])

end

end
