(* ===== verification/Jwt_Config.thy ===== *)
theory Jwt_Config
  imports Claims Storage_Interface
begin

text \<open>
  \<open>middleware/jwtauth/config.go\<close>: the configuration of the token store, its defaults, the
  storage key of a token and the default choice of a signing key. A \<open>jwk.Set\<close> is a parameter: a
  number of keys and a lookup by index. A signature algorithm is its name.
\<close>

record 'key key_set =
  ks_len :: int
  ks_key :: "int \<Rightarrow> 'key option"

definition errNoKeys :: go_error where
  "errNoKeys = NewError ''key set contains no keys''"

definition errKeyNotFound :: go_error where
  "errKeyNotFound = NewError ''key not found in key set''"

record ('w, 'key) jwt_config =
  cfg_KeySet :: "'key key_set option"
  cfg_Storage :: "'w storage_ops option"
  cfg_Algorithm :: string
  cfg_Issuer :: string
  cfg_Audience :: string
  cfg_RequiredClaims :: "string list"
  cfg_ValidateIssuer :: bool
  cfg_ValidateAudience :: bool
  cfg_ValidateExpiration :: bool
  cfg_ValidateNotBefore :: bool
  cfg_TokenKeyFunc :: "(claims \<Rightarrow> string) option"
  cfg_KeySelector :: "('key key_set \<Rightarrow> any \<Rightarrow> 'key res) option"

text \<open>
  The key under which a token is revoked: \<open>sub:jti\<close>, else \<open>sub:sid\<close>, else \<open>sub:exp\<close>.
\<close>

definition defaultTokenKeyFunc :: "claims \<Rightarrow> string" where
  "defaultTokenKeyFunc claims =
     (let sub = string_or_zero (claim claims ''sub'')
      in case nonempty_string (claim claims ''jti'') of
           Some jti \<Rightarrow> sub @ '':'' @ jti
         | None \<Rightarrow>
             (case nonempty_string (claim claims ''sid'') of
                Some sid \<Rightarrow> sub @ '':'' @ sid
              | None \<Rightarrow>
                  (let expiry = int64_or_zero (claim claims ''exp'');
                       expiry = (if expiry = 0
                                 then (case as_float64 (claim claims ''exp'') of
                                         Some f \<Rightarrow> float_to_int64 f | None \<Rightarrow> expiry)
                                 else expiry)
                   in sub @ '':'' @ format_int expiry)))"

definition defaultKeySelector :: "'key key_set \<Rightarrow> any \<Rightarrow> 'key res" where
  "defaultKeySelector keySet _ =
     (if ks_len keySet = 0 then Inl errNoKeys
      else case ks_key keySet 0 of None \<Rightarrow> Inl errKeyNotFound | Some key \<Rightarrow> Inr key)"

definition DefaultConfig :: "('w, 'key) jwt_config" where
  "DefaultConfig =
     \<lparr>cfg_KeySet = None, cfg_Storage = None, cfg_Algorithm = ''HS256'', cfg_Issuer = '''',
      cfg_Audience = '''', cfg_RequiredClaims = [], cfg_ValidateIssuer = False,
      cfg_ValidateAudience = False, cfg_ValidateExpiration = True,
      cfg_ValidateNotBefore = True, cfg_TokenKeyFunc = Some defaultTokenKeyFunc,
      cfg_KeySelector = Some defaultKeySelector\<rparr>"

section \<open>The token key\<close>

text \<open>
  The identifier of a token: the part of the key after the first colon. A token is named by its
  \<open>jti\<close>, its \<open>sid\<close> or the decimal digits of its expiry, whichever the key function reaches first.
\<close>

definition exp_number :: "claims \<Rightarrow> int" where
  "exp_number c = (case claim c ''exp'' of
     AInt64 n \<Rightarrow> n | AFloat64 f \<Rightarrow> float_to_int64 f | _ \<Rightarrow> 0)"

definition token_ident :: "claims \<Rightarrow> string" where
  "token_ident c = (case nonempty_string (claim c ''jti'') of
     Some jti \<Rightarrow> jti
   | None \<Rightarrow> (case nonempty_string (claim c ''sid'') of
       Some sid \<Rightarrow> sid
     | None \<Rightarrow> format_int (exp_number c)))"

lemma defaultTokenKeyFunc_split:
  "defaultTokenKeyFunc c = string_or_zero (claim c ''sub'') @ CHR '':'' # token_ident c"
  by (simp add: defaultTokenKeyFunc_def token_ident_def exp_number_def int64_or_zero_def Let_def
      split: option.splits any.splits)

lemma defaultTokenKeyFunc_nonempty [simp]: "defaultTokenKeyFunc c \<noteq> ''''"
  by (simp add: defaultTokenKeyFunc_split)

lemma defaultTokenKeyFunc_eq:
  assumes "CHR '':'' \<notin> set (string_or_zero (claim c ''sub''))"
    and "CHR '':'' \<notin> set (string_or_zero (claim d ''sub''))"
  shows "defaultTokenKeyFunc c = defaultTokenKeyFunc d \<longleftrightarrow>
    string_or_zero (claim c ''sub'') = string_or_zero (claim d ''sub'') \<and> token_ident c = token_ident d"
  by (simp only: defaultTokenKeyFunc_split append_sep_eq [OF assms])

end
