(* ===== verification/Jwt_Adapter.thy ===== *)
theory Jwt_Adapter
  imports Storage_Interface
begin

text \<open>
  \<open>middleware/jwtauth/store.go\<close>: \<open>StorageAdapter\<close>, which keeps revoked tokens and sessions as
  entries of a storage backend, in two namespaces under one prefix. Its lemmas are proved in the
  context of \<open>kv_storage\<close>, for any backend that keeps the contract.
\<close>

record 'w storage_adapter =
  ad_storage :: "'w storage_ops"
  ad_prefix :: string

record storage_adapter_config =
  sac_KeyPrefix :: string

definition DefaultStorageAdapterConfig :: storage_adapter_config where
  "DefaultStorageAdapterConfig = \<lparr>sac_KeyPrefix = ''jwt''\<rparr>"

definition NewStorageAdapter ::
  "'w storage_ops \<Rightarrow> storage_adapter_config list \<Rightarrow> 'w storage_adapter" where
  "NewStorageAdapter s cfg =
     (let c = DefaultStorageAdapterConfig;
          c = (case cfg of
                 [] \<Rightarrow> c
               | userCfg # _ \<Rightarrow>
                   if sac_KeyPrefix userCfg \<noteq> '''' then c\<lparr>sac_KeyPrefix := sac_KeyPrefix userCfg\<rparr>
                   else c)
      in \<lparr>ad_storage = s, ad_prefix = sac_KeyPrefix c\<rparr>)"

definition StorageAdapter_tokenKey :: "'w storage_adapter \<Rightarrow> string \<Rightarrow> string" where
  "StorageAdapter_tokenKey a key = ad_prefix a @ '':token:'' @ key"

definition StorageAdapter_sessionKey :: "'w storage_adapter \<Rightarrow> string \<Rightarrow> string" where
  "StorageAdapter_sessionKey a sid = ad_prefix a @ '':session:'' @ sid"

definition StorageAdapter_RevokeToken ::
  "'w storage_adapter \<Rightarrow> string \<Rightarrow> duration \<Rightarrow> ('w, unit) act" where
  "StorageAdapter_RevokeToken a key ttl w =
     so_set (ad_storage a) (StorageAdapter_tokenKey a key) ''1'' ttl w"

definition StorageAdapter_RevokeSession ::
  "'w storage_adapter \<Rightarrow> string \<Rightarrow> duration \<Rightarrow> ('w, unit) act" where
  "StorageAdapter_RevokeSession a sid ttl w =
     so_set (ad_storage a) (StorageAdapter_sessionKey a sid) ''1'' ttl w"

definition StorageAdapter_IsTokenRevoked ::
  "'w storage_adapter \<Rightarrow> string \<Rightarrow> ('w, bool) act" where
  "StorageAdapter_IsTokenRevoked a key w =
     (let (r, w') = so_get (ad_storage a) (StorageAdapter_tokenKey a key) w
      in (case r of
            Inl err \<Rightarrow> Inl (Wrapf ''failed to check token revocation'' err)
          | Inr found \<Rightarrow> Inr (found \<noteq> None), w'))"

definition StorageAdapter_IsSessionRevoked ::
  "'w storage_adapter \<Rightarrow> string \<Rightarrow> ('w, bool) act" where
  "StorageAdapter_IsSessionRevoked a sid w =
     (let (r, w') = so_get (ad_storage a) (StorageAdapter_sessionKey a sid) w
      in (case r of
            Inl err \<Rightarrow> Inl (Wrapf ''failed to check session revocation'' err)
          | Inr found \<Rightarrow> Inr (found \<noteq> None), w'))"

definition StorageAdapter_Close :: "'w storage_adapter \<Rightarrow> ('w, unit) act" where
  "StorageAdapter_Close a w = so_close (ad_storage a) w"

lemma NewStorageAdapter_storage [simp]: "ad_storage (NewStorageAdapter s cfg) = s"
  by (simp add: NewStorageAdapter_def Let_def)

lemma NewStorageAdapter_default [simp]: "ad_prefix (NewStorageAdapter s []) = ''jwt''"
  by (simp add: NewStorageAdapter_def DefaultStorageAdapterConfig_def)

lemma tokenKey_inject [simp]:
  "StorageAdapter_tokenKey a x = StorageAdapter_tokenKey a y \<longleftrightarrow> x = y"
  by (simp add: StorageAdapter_tokenKey_def)

lemma sessionKey_inject [simp]:
  "StorageAdapter_sessionKey a x = StorageAdapter_sessionKey a y \<longleftrightarrow> x = y"
  by (simp add: StorageAdapter_sessionKey_def)

lemma tokenKey_neq_sessionKey [simp]:
  "StorageAdapter_tokenKey a x \<noteq> StorageAdapter_sessionKey a y"
  "StorageAdapter_sessionKey a y \<noteq> StorageAdapter_tokenKey a x"
  by (simp_all add: StorageAdapter_tokenKey_def StorageAdapter_sessionKey_def)

text \<open>What the backend records: the revocations in force.\<close>

definition token_revoked :: "'w storage_adapter \<Rightarrow> storage_view \<Rightarrow> string \<Rightarrow> bool" where
  "token_revoked a v key = (sv_entries v (StorageAdapter_tokenKey a key) \<noteq> None)"

definition session_revoked :: "'w storage_adapter \<Rightarrow> storage_view \<Rightarrow> string \<Rightarrow> bool" where
  "session_revoked a v sid = (sv_entries v (StorageAdapter_sessionKey a sid) \<noteq> None)"

lemmas revoked_defs = token_revoked_def session_revoked_def

locale jwt_backend = kv_storage sview late elapse "ad_storage a" px
  for sview :: "'w \<Rightarrow> storage_view" and late elapse and a :: "'w storage_adapter" and px

context jwt_backend
begin

lemma RevokeToken_eq:
  assumes "sv_ok (sview w)" and "0 \<le> ttl"
  shows "fst (StorageAdapter_RevokeToken a key ttl w) = Inr ()"
    and "sview (snd (StorageAdapter_RevokeToken a key ttl w)) =
      put_entry (StorageAdapter_tokenKey a key) (''1'', entry_until px (sv_now (sview w)) ttl) (sview w)"
  using assms by (simp_all add: StorageAdapter_RevokeToken_def set_reply set_sview)

lemma RevokeSession_eq:
  assumes "sv_ok (sview w)" and "0 \<le> ttl"
  shows "fst (StorageAdapter_RevokeSession a sid ttl w) = Inr ()"
    and "sview (snd (StorageAdapter_RevokeSession a sid ttl w)) =
      put_entry (StorageAdapter_sessionKey a sid) (''1'', entry_until px (sv_now (sview w)) ttl) (sview w)"
  using assms by (simp_all add: StorageAdapter_RevokeSession_def set_reply set_sview)

lemma IsTokenRevoked_eq:
  assumes "sv_ok (sview w)"
  shows "fst (StorageAdapter_IsTokenRevoked a key w) = Inr (token_revoked a (sview w) key)"
    and "sview (snd (StorageAdapter_IsTokenRevoked a key w)) = sview w"
  using assms by (simp_all add: StorageAdapter_IsTokenRevoked_def Let_def case_prod_unfold
      get_reply get_sview token_revoked_def)

lemma IsSessionRevoked_eq:
  assumes "sv_ok (sview w)"
  shows "fst (StorageAdapter_IsSessionRevoked a sid w) = Inr (session_revoked a (sview w) sid)"
    and "sview (snd (StorageAdapter_IsSessionRevoked a sid w)) = sview w"
  using assms by (simp_all add: StorageAdapter_IsSessionRevoked_def Let_def case_prod_unfold
      get_reply get_sview session_revoked_def)

end

end
