(* ===== verification/Jwt_TokenStore.thy ===== *)
theory Jwt_TokenStore
  imports Jwt_Config Jwt_Adapter
begin

text \<open>
  \<open>middleware/jwtauth/token_store.go\<close>: the token store. The JWT library (\<open>jwx\<close>) is the
  parameter \<open>('key, 'tok) jwt_lib\<close>: parsing with signature verification, the token's accessors,
  building and signing. \<open>Generate\<close> drives a builder, a mutable object; the model keeps the list of
  the calls it makes on it, in order. The clock of the process is the parameter \<open>clk\<close> where the
  storage is involved, and an instant otherwise.
\<close>

section \<open>The JWT library\<close>

datatype 'key parse_option = WithKey string 'key | WithValidate bool

datatype builder_call =
    BSubject string
  | BIssuer string
  | BAudience "string list"
  | BIssuedAt instant
  | BNotBefore instant
  | BExpiration instant
  | BJwtID string
  | BClaim string any

record ('key, 'tok) jwt_lib =
  jx_parse :: "instant \<Rightarrow> string \<Rightarrow> 'key parse_option list \<Rightarrow> 'tok res"
  jx_build :: "builder_call list \<Rightarrow> 'tok res"
  jx_sign :: "'tok \<Rightarrow> string \<Rightarrow> 'key \<Rightarrow> string res"
  jx_subject :: "'tok \<Rightarrow> string option"
  jx_issuer :: "'tok \<Rightarrow> string option"
  jx_audience :: "'tok \<Rightarrow> string list option"
  jx_expiration :: "'tok \<Rightarrow> instant option"
  jx_issued_at :: "'tok \<Rightarrow> instant option"
  jx_not_before :: "'tok \<Rightarrow> instant option"
  jx_jwt_id :: "'tok \<Rightarrow> string option"
  jx_keys :: "'tok \<Rightarrow> string list"
  jx_get :: "'tok \<Rightarrow> string \<Rightarrow> any res"
  jx_type_refresh :: any

datatype token_type = AccessToken | RefreshToken

datatype jwt_claims = NilClaims | MapClaims claims | OtherClaims string

section \<open>The store\<close>

definition errMissingKeySet :: go_error where
  "errMissingKeySet = NewError ''key set is required''"

definition errMissingStorage :: go_error where
  "errMissingStorage = NewError ''storage is required''"

definition errInvalidIssuer :: go_error where
  "errInvalidIssuer = NewError ''invalid issuer''"

definition errInvalidAudience :: go_error where
  "errInvalidAudience = NewError ''invalid audience''"

definition nil_dereference :: go_error where
  "nil_dereference = Panicked (NewError ''invalid memory address or nil pointer dereference'')"

lemmas jwt_errors = errNoKeys_def errKeyNotFound_def errMissingKeySet_def errMissingStorage_def
  errInvalidIssuer_def errInvalidAudience_def nil_dereference_def

record ('w, 'key) token_store =
  ts_config :: "('w, 'key) jwt_config"
  ts_adapter :: "'w storage_adapter"

definition NewTokenStore :: "('w, 'key) jwt_config \<Rightarrow> ('w, 'key) token_store res" where
  "NewTokenStore cfg =
     (case cfg_KeySet cfg of
        None \<Rightarrow> Inl (Panicked errMissingKeySet)
      | Some ks \<Rightarrow>
          if ks_len ks = 0 then Inl (Panicked errNoKeys)
          else (case cfg_Storage cfg of
             None \<Rightarrow> Inl (Panicked errMissingStorage)
           | Some storage \<Rightarrow>
               (let cfg = (if cfg_Algorithm cfg = '''' then cfg\<lparr>cfg_Algorithm := ''HS256''\<rparr> else cfg);
                    cfg = (if cfg_TokenKeyFunc cfg = None
                           then cfg\<lparr>cfg_TokenKeyFunc := Some defaultTokenKeyFunc\<rparr> else cfg);
                    cfg = (if cfg_KeySelector cfg = None
                           then cfg\<lparr>cfg_KeySelector := Some defaultKeySelector\<rparr> else cfg)
                in Inr \<lparr>ts_config = cfg, ts_adapter = NewStorageAdapter storage []\<rparr>)))"

definition TokenStore_getJWKKey :: "('w, 'key) token_store \<Rightarrow> int \<Rightarrow> 'key res" where
  "TokenStore_getJWKKey s idx =
     (case cfg_KeySet (ts_config s) of
        None \<Rightarrow> Inl nil_dereference
      | Some ks \<Rightarrow> (case ks_key ks idx of None \<Rightarrow> Inl errKeyNotFound | Some key \<Rightarrow> Inr key))"

definition calculateTTL :: "instant \<Rightarrow> claims \<Rightarrow> duration" where
  "calculateTTL now claims =
     (let until = (case claim claims ''exp'' of
                   AInt64 v \<Rightarrow> Some (of_unix_sec v)
                 | AFloat64 v \<Rightarrow> Some (of_unix_sec (float_to_int64 v))
                 | ATime v \<Rightarrow> Some v
                 | _ \<Rightarrow> None)
      in case until of
           None \<Rightarrow> 0
         | Some t \<Rightarrow> (let ttl = time_sub t now in if ttl < 0 then 0 else ttl))"

definition isStandardClaim :: "string \<Rightarrow> bool" where
  "isStandardClaim key =
     (key \<in> set [''sub'', ''iss'', ''aud'', ''exp'', ''iat'', ''nbf'', ''jti''])"

text \<open>\<open>if v, ok := ...; ok { m[k] = f(v) }\<close>\<close>

definition put_some :: "string \<Rightarrow> ('a \<Rightarrow> any) \<Rightarrow> 'a option \<Rightarrow> claims \<Rightarrow> claims" where
  "put_some k f x m = (case x of None \<Rightarrow> m | Some v \<Rightarrow> AList.update k (f v) m)"

definition put_private :: "('key, 'tok) jwt_lib \<Rightarrow> 'tok \<Rightarrow> string \<Rightarrow> claims \<Rightarrow> claims" where
  "put_private lib token key m =
     (if isStandardClaim key then m
      else case jx_get lib token key of Inl _ \<Rightarrow> m | Inr v \<Rightarrow> AList.update key v m)"

definition tokenToMap :: "('key, 'tok) jwt_lib \<Rightarrow> 'tok \<Rightarrow> claims" where
  "tokenToMap lib token =
     (let m = [];
          m = put_some ''sub'' AStr (jx_subject lib token) m;
          m = put_some ''iss'' AStr (jx_issuer lib token) m;
          m = put_some ''aud'' AStrs (jx_audience lib token) m;
          m = put_some ''exp'' (\<lambda>t. AInt64 (wrap64 (unix_sec t))) (jx_expiration lib token) m;
          m = put_some ''iat'' (\<lambda>t. AInt64 (wrap64 (unix_sec t))) (jx_issued_at lib token) m;
          m = put_some ''nbf'' (\<lambda>t. AInt64 (wrap64 (unix_sec t))) (jx_not_before lib token) m;
          m = put_some ''jti'' AStr (jx_jwt_id lib token) m
      in fold (put_private lib token) (jx_keys lib token) m)"

definition normalizeClaims :: "jwt_claims \<Rightarrow> claims res" where
  "normalizeClaims claims =
     (case claims of
        NilClaims \<Rightarrow> Inr []
      | MapClaims c \<Rightarrow> Inr c
      | OtherClaims T \<Rightarrow> Inl (NewError (''unsupported claims type: '' @ T)))"

section \<open>Validate and Generate\<close>

definition validate_options :: "('w, 'key) token_store \<Rightarrow> 'key \<Rightarrow> 'key parse_option list" where
  "validate_options s jwkKey =
     (let parseOptions = [WithKey (cfg_Algorithm (ts_config s)) jwkKey]
      in if cfg_ValidateExpiration (ts_config s) then parseOptions @ [WithValidate True]
         else parseOptions)"

definition TokenStore_Validate ::
  "('key, 'tok) jwt_lib \<Rightarrow> ('w, 'key) token_store \<Rightarrow> instant \<Rightarrow> string \<Rightarrow> claims res" where
  "TokenStore_Validate lib s now tokenString =
     (case TokenStore_getJWKKey s 0 of
        Inl err \<Rightarrow> Inl err
      | Inr jwkKey \<Rightarrow>
          (case jx_parse lib now tokenString (validate_options s jwkKey) of
                Inl err \<Rightarrow> Inl (Wrapf ''failed to parse token'' err)
              | Inr token \<Rightarrow>
                  if cfg_ValidateIssuer (ts_config s) \<and> cfg_Issuer (ts_config s) \<noteq> ''''
                     \<and> jx_issuer lib token \<noteq> Some (cfg_Issuer (ts_config s))
                  then Inl errInvalidIssuer
                  else if cfg_ValidateAudience (ts_config s) \<and> cfg_Audience (ts_config s) \<noteq> ''''
                  then (case jx_audience lib token of
                          None \<Rightarrow> Inl errInvalidAudience
                        | Some aud \<Rightarrow>
                            if list_ex (\<lambda>a. a = cfg_Audience (ts_config s)) aud
                            then Inr (tokenToMap lib token)
                            else Inl errInvalidAudience)
                  else Inr (tokenToMap lib token)))"

text \<open>The body of the loop over the claims: the builder calls that one claim makes.\<close>

definition unix_time_of :: "any \<Rightarrow> instant option" where
  "unix_time_of v = (case v of
     AInt64 t \<Rightarrow> Some (of_unix_sec t)
   | AFloat64 t \<Rightarrow> Some (of_unix_sec (float_to_int64 t))
   | ATime t \<Rightarrow> Some t
   | _ \<Rightarrow> None)"

definition claim_calls :: "string \<Rightarrow> any \<Rightarrow> builder_call list" where
  "claim_calls k v =
     (if k = ''sub'' then (case v of AStr s \<Rightarrow> [BSubject s] | _ \<Rightarrow> [])
      else if k = ''iss'' then (case v of AStr s \<Rightarrow> [BIssuer s] | _ \<Rightarrow> [])
      else if k = ''aud'' then
        (case v of
           AStr aud \<Rightarrow> [BAudience [aud]]
         | AStrs aud \<Rightarrow> [BAudience aud]
         | AList aud \<Rightarrow> [BAudience (List.map_filter as_string aud)]
         | _ \<Rightarrow> [])
      else if k = ''iat'' then (case unix_time_of v of Some t \<Rightarrow> [BIssuedAt t] | None \<Rightarrow> [])
      else if k = ''nbf'' then (case unix_time_of v of Some t \<Rightarrow> [BNotBefore t] | None \<Rightarrow> [])
      else if k = ''exp'' then []
      else if k = ''jti'' then (case v of AStr s \<Rightarrow> [BJwtID s] | _ \<Rightarrow> [])
      else [BClaim k v])"

text \<open>\<open>now1\<close> and \<open>now2\<close> are the two readings of the clock, for "exp" and for "iat".\<close>

definition generate_calls ::
  "('key, 'tok) jwt_lib \<Rightarrow> ('w, 'key) token_store \<Rightarrow> instant \<Rightarrow> instant \<Rightarrow> claims \<Rightarrow> token_type \<Rightarrow>
     duration \<Rightarrow> builder_call list" where
  "generate_calls lib s now1 now2 claimMap tokenType ttl =
     concat (map (\<lambda>(k, v). claim_calls k v) claimMap)
     @ (if cfg_Issuer (ts_config s) \<noteq> '''' \<and> \<not> has_claim claimMap ''iss''
        then [BIssuer (cfg_Issuer (ts_config s))] else [])
     @ (if cfg_Audience (ts_config s) \<noteq> '''' \<and> \<not> has_claim claimMap ''aud''
        then [BAudience [cfg_Audience (ts_config s)]] else [])
     @ (if ttl > 0 then [BExpiration (now1 + ttl)] else [])
     @ (if \<not> has_claim claimMap ''iat'' then [BIssuedAt now2] else [])
     @ (if tokenType = RefreshToken then [BClaim ''type'' (jx_type_refresh lib)] else [])"

definition TokenStore_Generate ::
  "('key, 'tok) jwt_lib \<Rightarrow> ('w, 'key) token_store \<Rightarrow> instant \<Rightarrow> instant \<Rightarrow> jwt_claims \<Rightarrow> token_type \<Rightarrow>
     duration \<Rightarrow> string res" where
  "TokenStore_Generate lib s now1 now2 claims tokenType ttl =
     (case normalizeClaims claims of
        Inl err \<Rightarrow> Inl (Wrapf ''failed to normalize claims'' err)
      | Inr claimMap \<Rightarrow>
          (case jx_build lib (generate_calls lib s now1 now2 claimMap tokenType ttl) of
             Inl err \<Rightarrow> Inl (Wrapf ''failed to build token'' err)
           | Inr token \<Rightarrow>
               (case TokenStore_getJWKKey s 0 of
                  Inl err \<Rightarrow> Inl err
                | Inr jwkKey \<Rightarrow>
                    (case jx_sign lib token (cfg_Algorithm (ts_config s)) jwkKey of
                       Inl err \<Rightarrow> Inl (Wrapf ''failed to sign token'' err)
                     | Inr signed \<Rightarrow> Inr signed))))"

section \<open>Revocation\<close>

definition TokenStore_Revoke ::
  "('w \<Rightarrow> instant) \<Rightarrow> ('w, 'key) token_store \<Rightarrow> claims \<Rightarrow> ('w, unit) act" where
  "TokenStore_Revoke clk s claims w =
     (case cfg_TokenKeyFunc (ts_config s) of
        None \<Rightarrow> (Inl nil_dereference, w)
      | Some keyFunc \<Rightarrow>
          (let key = keyFunc claims;
               (r, w) = (if key \<noteq> ''''
                         then StorageAdapter_RevokeToken (ts_adapter s) key
                                (calculateTTL (clk w) claims) w
                         else (Inr (), w))
           in case r of
                Inl err \<Rightarrow> (Inl (Wrapf ''failed to revoke token'' err), w)
              | Inr _ \<Rightarrow>
                  (case nonempty_string (claim claims ''sid'') of
                     Some sid \<Rightarrow>
                       (let (r, w) = StorageAdapter_RevokeSession (ts_adapter s) sid
                                       (calculateTTL (clk w) claims) w
                        in (map_err (Wrapf ''failed to revoke session'') r, w))
                   | None \<Rightarrow> (Inr (), w))))"

definition TokenStore_IsRevoked ::
  "('w, 'key) token_store \<Rightarrow> claims \<Rightarrow> ('w, bool) act" where
  "TokenStore_IsRevoked s claims w =
     (let (r, w) = (case nonempty_string (claim claims ''sid'') of
                      Some sid \<Rightarrow>
                        (let (r, w) = StorageAdapter_IsSessionRevoked (ts_adapter s) sid w
                         in (map_err (Wrapf ''failed to check session revocation'') r, w))
                    | None \<Rightarrow> (Inr False, w))
      in case r of
           Inl err \<Rightarrow> (Inl err, w)
         | Inr True \<Rightarrow> (Inr True, w)
         | Inr False \<Rightarrow>
             (case cfg_TokenKeyFunc (ts_config s) of
                None \<Rightarrow> (Inl nil_dereference, w)
              | Some keyFunc \<Rightarrow>
                  (let key = keyFunc claims
                   in if key \<noteq> ''''
                      then (let (r, w) = StorageAdapter_IsTokenRevoked (ts_adapter s) key w
                            in (map_err (Wrapf ''failed to check token revocation'') r, w))
                      else (Inr False, w))))"

definition TokenStore_Close :: "('w, 'key) token_store \<Rightarrow> ('w, unit) act" where
  "TokenStore_Close s w = StorageAdapter_Close (ts_adapter s) w"

end
