(* ===== verification/Lease.thy ===== *)
theory Lease
  imports Prelude
begin

text \<open>
  Locks with a time to live, as \<open>RedisStorage\<close> and the idempotency store both implement them:
  \<open>Lock\<close> sets a key if it is absent, with an expiration; \<open>Unlock\<close> deletes the key. Here are the
  processes that compete for one key, as a step relation, the contract a lock and unlock pair
  has to keep (the locale \<open>lease\<close>), and mutual exclusion of unexpired leases.
\<close>

section \<open>Processes competing for one lock\<close>

text \<open>
  \<open>ls_until p\<close> is the instant up to which process \<open>p\<close> believes to hold the lock: it read its
  clock when \<open>Lock\<close> returned true and added the lock's time to live. A process that holds an
  unexpired lease may release it; one whose lease has run out gives up without calling
  \<open>Unlock\<close>.
\<close>

record 'w lease_sys =
  ls_world :: 'w
  ls_until :: "nat \<Rightarrow> instant option"

definition holds_lease :: "('w \<Rightarrow> instant) \<Rightarrow> 'w lease_sys \<Rightarrow> nat \<Rightarrow> bool" where
  "holds_lease clk s p = (case ls_until s p of None \<Rightarrow> False | Some t \<Rightarrow> clk (ls_world s) < t)"

inductive lease_step ::
  "('w, bool) act \<Rightarrow> ('w, unit) act \<Rightarrow> (duration \<Rightarrow> 'w \<Rightarrow> 'w) \<Rightarrow> ('w \<Rightarrow> instant) \<Rightarrow> duration \<Rightarrow>
    'w lease_sys \<Rightarrow> 'w lease_sys \<Rightarrow> bool"
  for lock :: "('w, bool) act" and unlock :: "('w, unit) act"
    and elapse :: "duration \<Rightarrow> 'w \<Rightarrow> 'w" and clk :: "'w \<Rightarrow> instant" and ttl :: duration
where
  acquire: "lock (ls_world s) = (Inr True, w') \<Longrightarrow>
     lease_step lock unlock elapse clk ttl s
       \<lparr>ls_world = w', ls_until = (ls_until s)(p \<mapsto> clk (ls_world s) + ttl)\<rparr>"
| refused: "lock (ls_world s) = (r, w') \<Longrightarrow> r \<noteq> Inr True \<Longrightarrow>
     lease_step lock unlock elapse clk ttl s (s\<lparr>ls_world := w'\<rparr>)"
| release: "holds_lease clk s p \<Longrightarrow> unlock (ls_world s) = (r, w') \<Longrightarrow>
     lease_step lock unlock elapse clk ttl s
       \<lparr>ls_world = w', ls_until = (ls_until s)(p := None)\<rparr>"
| abandon: "\<not> holds_lease clk s p \<Longrightarrow>
     lease_step lock unlock elapse clk ttl s (s\<lparr>ls_until := (ls_until s)(p := None)\<rparr>)"
| wait: "0 \<le> d \<Longrightarrow>
     lease_step lock unlock elapse clk ttl s (s\<lparr>ls_world := elapse d (ls_world s)\<rparr>)"

definition lease_start :: "'w \<Rightarrow> 'w lease_sys" where
  "lease_start w = \<lparr>ls_world = w, ls_until = (\<lambda>_. None)\<rparr>"

section \<open>The contract of a lock\<close>

text \<open>
  \<open>held w\<close> is the deadline of the lock while it is taken, \<open>None\<close> while it is free. A lock taken
  at instant \<open>t\<close> is taken at least until \<open>t + ttl\<close>, unless it is unlocked.
\<close>

locale lease =
  fixes ok :: "'w \<Rightarrow> bool"
    and clk :: "'w \<Rightarrow> instant"
    and held :: "'w \<Rightarrow> instant option"
    and elapse :: "duration \<Rightarrow> 'w \<Rightarrow> 'w"
    and lock :: "('w, bool) act"
    and unlock :: "('w, unit) act"
    and ttl :: duration
  assumes ok_lock: "ok w \<Longrightarrow> ok (snd (lock w))"
    and ok_unlock: "ok w \<Longrightarrow> ok (snd (unlock w))"
    and ok_elapse: "ok w \<Longrightarrow> 0 \<le> d \<Longrightarrow> ok (elapse d w)"
    and clk_lock: "ok w \<Longrightarrow> clk (snd (lock w)) = clk w"
    and clk_unlock: "ok w \<Longrightarrow> clk (snd (unlock w)) = clk w"
    and clk_elapse: "ok w \<Longrightarrow> 0 \<le> d \<Longrightarrow> clk (elapse d w) = clk w + d"
    and lock_free: "ok w \<Longrightarrow> held w = None \<Longrightarrow>
      fst (lock w) = Inr True \<and> held (snd (lock w)) = Some (clk w + ttl)"
    and lock_held: "ok w \<Longrightarrow> held w = Some t \<Longrightarrow>
      fst (lock w) = Inr False \<and> held (snd (lock w)) = Some t"
    and unlock_frees: "ok w \<Longrightarrow> fst (unlock w) = Inr () \<and> held (snd (unlock w)) = None"
    and held_elapse: "ok w \<Longrightarrow> 0 \<le> d \<Longrightarrow> held w = Some t \<Longrightarrow> clk w + d < t \<Longrightarrow>
      held (elapse d w) = Some t"
begin

text \<open>
  The invariant: a process that believes to hold an unexpired lease is recorded on the server,
  with that very deadline, and no other process believes so.
\<close>

definition lease_inv :: "'w lease_sys \<Rightarrow> bool" where
  "lease_inv s \<longleftrightarrow> ok (ls_world s) \<and>
     (\<forall>p t. ls_until s p = Some t \<and> clk (ls_world s) < t \<longrightarrow> held (ls_world s) = Some t) \<and>
     (\<forall>p q. holds_lease clk s p \<and> holds_lease clk s q \<longrightarrow> p = q)"

lemma lease_inv_start: "ok w \<Longrightarrow> lease_inv (lease_start w)"
  by (simp add: lease_inv_def lease_start_def holds_lease_def)

lemma free_no_lease:
  assumes "lease_inv s" and "held (ls_world s) = None"
  shows "\<not> holds_lease clk s p"
  using assms by (auto simp: lease_inv_def holds_lease_def split: option.splits)

lemma acquire_was_free:
  assumes "lease_inv s" and "lock (ls_world s) = (Inr True, w')"
  shows "held (ls_world s) = None"
proof (cases "held (ls_world s)")
  case (Some t)
  then show ?thesis using assms lock_held [of "ls_world s" t] by (simp add: lease_inv_def)
qed simp

lemma lock_refused_world:
  assumes "lease_inv s" and "lock (ls_world s) = (r, w')" and "r \<noteq> Inr True"
  shows "held w' = held (ls_world s) \<and> clk w' = clk (ls_world s) \<and> ok w'"
proof -
  have ok: "ok (ls_world s)" using assms(1) by (simp add: lease_inv_def)
  have "held (ls_world s) \<noteq> None" using assms(2,3) lock_free [OF ok] by auto
  then show ?thesis
    using assms(2) lock_held [OF ok] clk_lock [OF ok] ok_lock [OF ok] by auto
qed

lemma lease_inv_step:
  assumes "lease_step lock unlock elapse clk ttl s s'" and inv: "lease_inv s"
  shows "lease_inv s'"
proof -
  have ok: "ok (ls_world s)" using inv by (simp add: lease_inv_def)
  show ?thesis
    using assms(1)
  proof cases
    case (acquire w' p)
    note free = acquire_was_free [OF inv acquire(2)]
    have w': "w' = snd (lock (ls_world s))" using acquire(2) by simp
    have none: "\<not> (ls_until s q = Some t \<and> clk (ls_world s) < t)" for q t
      using free_no_lease [OF inv free, of q] by (auto simp: holds_lease_def)
    then show ?thesis
      using lock_free [OF ok free] ok_lock [OF ok] clk_lock [OF ok]
      by (auto simp: acquire(1) w' lease_inv_def holds_lease_def split: option.splits if_splits)
  next
    case (refused r w')
    note same = lock_refused_world [OF inv refused(2,3)]
    then have "holds_lease clk s' = holds_lease clk s"
      by (simp add: refused(1) holds_lease_def fun_eq_iff split: option.splits)
    then show ?thesis using inv same by (simp add: refused(1) lease_inv_def)
  next
    case (release p r w')
    have w': "w' = snd (unlock (ls_world s))" using release(3) by simp
    have none: "\<not> (ls_until s q = Some t \<and> clk (ls_world s) < t)" if "q \<noteq> p" for q t
    proof -
      have "\<not> holds_lease clk s q" using inv release(2) that by (auto simp: lease_inv_def)
      then show ?thesis by (auto simp: holds_lease_def)
    qed
    then show ?thesis
      using ok_unlock [OF ok] clk_unlock [OF ok]
      by (auto simp: release(1) w' lease_inv_def holds_lease_def split: option.splits if_splits)
  next
    case (abandon p)
    then show ?thesis
      using inv by (auto simp: lease_inv_def holds_lease_def split: option.splits if_splits)
  next
    case (wait d)
    have earlier: "clk (ls_world s) < t" if "clk (elapse d (ls_world s)) < t" for t
      using that wait(2) clk_elapse [OF ok wait(2)] by simp
    then show ?thesis
      using inv ok_elapse [OF ok wait(2)] clk_elapse [OF ok wait(2)] held_elapse [OF ok wait(2)]
      by (fastforce simp: wait(1) lease_inv_def holds_lease_def split: option.splits)
  qed
qed

lemma lease_inv_reachable:
  assumes "(lease_step lock unlock elapse clk ttl)\<^sup>*\<^sup>* (lease_start w) s" and "ok w"
  shows "lease_inv s"
  using assms
proof (induction rule: rtranclp_induct)
  case base
  then show ?case by (rule lease_inv_start)
next
  case (step y z)
  then show ?case by (blast intro: lease_inv_step)
qed

lemma one_lease:
  assumes "(lease_step lock unlock elapse clk ttl)\<^sup>*\<^sup>* (lease_start w) s" and "ok w"
    and "holds_lease clk s p" and "holds_lease clk s q"
  shows "p = q"
  using lease_inv_reachable [OF assms(1,2)] assms(3,4) by (auto simp: lease_inv_def)

end

end
