(* ===== verification/Redis_Lock.thy ===== *)
theory Redis_Lock
  imports Redis Lease
begin

text \<open>
  The lock that \<open>RedisStorage\<close> and the idempotency store share: \<open>SET key 1 NX\<close> with a time to
  live takes it, \<open>DEL key\<close> releases it. Over a client that keeps the laws of \<open>redis_nx\<close> the pair
  is a \<open>lease\<close>. The stores' own \<open>Lock\<close> and \<open>Unlock\<close> are translated from their source in their
  theories and proved equal to these.
\<close>

definition nx_lock ::
  "('w, 'z) idempotency_client_scheme \<Rightarrow> string \<Rightarrow> duration \<Rightarrow> ('w, bool) act" where
  "nx_lock cl lk ttl w =
     (let (r, w') = c_set_args cl lk ''1'' \<lparr>sa_mode = ''NX'', sa_ttl = ttl\<rparr> w
      in (case r of
            Inl err \<Rightarrow> if errors_is err RedisNil then Inr False else Inl err
          | Inr _ \<Rightarrow> Inr True, w'))"

definition nx_unlock :: "('w, 'z) cache_client_scheme \<Rightarrow> string \<Rightarrow> ('w, unit) act" where
  "nx_unlock cl lk w =
     (let (r, w') = c_del cl [lk] w in (case r of Inl err \<Rightarrow> Inl err | Inr _ \<Rightarrow> Inr (), w'))"

definition lock_deadline :: "string \<Rightarrow> redis_view \<Rightarrow> instant option" where
  "lock_deadline lk v = (case rv_keys v lk of None \<Rightarrow> None | Some (_, dl) \<Rightarrow> dl)"

text \<open>The lock key, if present, has a deadline.\<close>

definition lock_ready :: "string \<Rightarrow> redis_view \<Rightarrow> bool" where
  "lock_ready lk v \<longleftrightarrow> rv_up v \<and> (\<forall>x. rv_keys v lk \<noteq> Some (x, None))"

lemma lock_free_key: "lock_ready lk v \<Longrightarrow> lock_deadline lk v = None \<longleftrightarrow> rv_keys v lk = None"
  by (auto simp: lock_ready_def lock_deadline_def split: option.splits)

lemma lock_deadline_Some:
  "lock_deadline lk v = Some t \<Longrightarrow> \<exists>x. rv_keys v lk = Some (x, Some t)"
  by (auto simp: lock_deadline_def split: option.splits)

context redis_nx
begin

lemma nx_lock_free:
  assumes "rv_up (view w)" and "rv_keys (view w) lk = None"
  shows "fst (nx_lock cl lk ttl w) = Inr True"
    and "view (snd (nx_lock cl lk ttl w)) =
      put_key lk (RString ''1'', expiry_at px (view w) ttl) (view w)"
  using nx_free [OF assms] nx_free_view [OF assms]
  by (simp_all add: nx_lock_def Let_def case_prod_unfold)

lemma nx_lock_held:
  assumes "rv_up (view w)" and "rv_keys (view w) lk = Some y"
  shows "fst (nx_lock cl lk ttl w) = Inr False"
    and "view (snd (nx_lock cl lk ttl w)) = view w"
  using nx_held [OF assms] nx_held_view [OF assms]
  by (simp_all add: nx_lock_def Let_def case_prod_unfold)

lemma nx_unlock_frees:
  assumes "rv_up (view w)"
  shows "fst (nx_unlock cl lk w) = Inr ()"
    and "view (snd (nx_unlock cl lk w)) = drop_key lk (view w)"
  using del_reply [OF assms] del_view [OF assms]
  by (simp_all add: nx_unlock_def Let_def case_prod_unfold)

lemma nx_lock_up: "rv_up (view w) \<Longrightarrow> rv_up (view (snd (nx_lock cl lk ttl w)))"
  by (cases "rv_keys (view w) lk") (simp_all add: nx_lock_free nx_lock_held)

lemma nx_lock_clock:
  "rv_up (view w) \<Longrightarrow> rv_clock (view (snd (nx_lock cl lk ttl w))) = rv_clock (view w)"
  by (cases "rv_keys (view w) lk") (simp_all add: nx_lock_free nx_lock_held)

text \<open>Whoever unlocks, the next to lock succeeds.\<close>

lemma unlock_then_lock:
  assumes "rv_up (view w)"
  shows "fst (nx_lock cl lk ttl (snd (nx_unlock cl lk w))) = Inr True"
  using nx_unlock_frees [OF assms] assms by (intro nx_lock_free) simp_all

text \<open>A lock taken with no time to live is never given up by the server.\<close>

lemma lock_without_ttl:
  assumes "rv_up (view w)" and "rv_keys (view w) lk = None" and "ttl \<le> 0" and "0 \<le> d"
  shows "fst (nx_lock cl lk ttl' (elapse d (snd (nx_lock cl lk ttl w)))) = Inr False"
proof -
  let ?w = "snd (nx_lock cl lk ttl w)"
  have k: "rv_keys (view ?w) lk = Some (RString ''1'', None)"
    using assms(3) by (simp add: nx_lock_free(2) [OF assms(1,2)] expiry_at_def)
  have "rv_keys (view (elapse d ?w)) lk = Some (RString ''1'', None)"
    by (rule elapse_keeps [OF assms(4) k]) simp
  then show ?thesis
    using assms(4) nx_lock_up [OF assms(1)] by (intro nx_lock_held) simp_all
qed

text \<open>A lock taken with a time to live is refused before the deadline, and free after it.\<close>

lemma lock_until_deadline:
  assumes "rv_up (view w)" and "rv_keys (view w) lk = None" and "0 < ttl" and "0 \<le> d"
  shows "d < px ttl \<Longrightarrow>
      fst (nx_lock cl lk ttl' (elapse d (snd (nx_lock cl lk ttl w)))) = Inr False"
    and "px ttl < d \<Longrightarrow>
      fst (nx_lock cl lk ttl' (elapse d (snd (nx_lock cl lk ttl w)))) = Inr True"
proof -
  let ?w = "snd (nx_lock cl lk ttl w)"
  have k: "rv_keys (view ?w) lk = Some (RString ''1'', Some (rv_clock (view w) + px ttl))"
    using assms(3) by (simp add: nx_lock_free(2) [OF assms(1,2)] expiry_at_def)
  note clk = nx_lock_clock [OF assms(1), of lk ttl]
  have up: "rv_up (view (elapse d ?w))" using assms(4) nx_lock_up [OF assms(1)] by simp
  show "fst (nx_lock cl lk ttl' (elapse d ?w)) = Inr False" if "d < px ttl"
    using elapse_keeps [OF assms(4) k] that clk by (intro nx_lock_held [OF up]) simp
  show "fst (nx_lock cl lk ttl' (elapse d ?w)) = Inr True" if "px ttl < d"
    using elapse_drops [OF assms(4) k] that clk by (intro nx_lock_free [OF up]) simp
qed

end

text \<open>Attempts to lock, each after a wait: their answers.\<close>

fun lock_polls ::
  "('w, bool) act \<Rightarrow> (duration \<Rightarrow> 'w \<Rightarrow> 'w) \<Rightarrow> duration list \<Rightarrow> 'w \<Rightarrow> bool res list" where
  "lock_polls lock elapse [] w = []"
| "lock_polls lock elapse (d # ds) w =
     (let (r, w) = lock (elapse d w) in r # lock_polls lock elapse ds w)"

context redis_nx
begin

text \<open>Whoever polls for longer than the lock lives gets it; a lock without a deadline is never given up.\<close>

lemma polls_succeed:
  assumes "rv_up (view w)" and "rv_keys (view w) lk = Some (x, Some dl)" and "rv_clock (view w) \<le> dl"
    and "list_all (\<lambda>d. 0 \<le> d) ds" and "dl < rv_clock (view w) + sum_list ds"
  shows "Inr True \<in> set (lock_polls (nx_lock cl lk ttl) elapse ds w)"
  using assms
proof (induction ds arbitrary: w)
  case (Cons d ds)
  have d: "0 \<le> d" using Cons.prems(4) by simp
  let ?w = "elapse d w"
  have up: "rv_up (view ?w)" using Cons.prems(1) d by simp
  show ?case
  proof (cases "rv_keys (view ?w) lk")
    case None
    then show ?thesis using nx_lock_free(1) [OF up] by (simp add: Let_def case_prod_unfold)
  next
    case (Some y)
    have "\<not> late (rv_clock (view w) + d) dl" and k: "rv_keys (view ?w) lk = Some (x, Some dl)"
      using Some Cons.prems(2) by (auto simp: elapse_view [OF d] age_keys survives_def split: if_splits)
    then have c: "rv_clock (view ?w) \<le> dl" using late_past [of dl] d not_le by fastforce
    note held = nx_lock_held [OF up k]
    have "Inr True \<in> set (lock_polls (nx_lock cl lk ttl) elapse ds (snd (nx_lock cl lk ttl ?w)))"
      using Cons.prems(4,5) up k c d by (intro Cons.IH) (simp_all add: held add.assoc)
    then show ?thesis by (simp add: Let_def case_prod_unfold)
  qed
qed simp

lemma polls_refused:
  assumes "rv_up (view w)" and "rv_keys (view w) lk = Some (x, dl)" and "list_all (\<lambda>d. 0 \<le> d) ds"
    and "case dl of None \<Rightarrow> True | Some t \<Rightarrow> rv_clock (view w) + sum_list ds < t"
  shows "set (lock_polls (nx_lock cl lk ttl) elapse ds w) \<subseteq> {Inr False}"
  using assms
proof (induction ds arbitrary: w)
  case (Cons d ds)
  have d: "0 \<le> d" and ds: "list_all (\<lambda>d. 0 \<le> d) ds" using Cons.prems(3) by simp_all
  have "0 \<le> sum_list ds" using ds by (intro sum_list_nonneg) (auto simp: list_all_iff)
  then have k: "rv_keys (view (elapse d w)) lk = Some (x, dl)"
    using Cons.prems(4) by (intro elapse_keeps [OF d Cons.prems(2)]) (auto split: option.splits)
  have up: "rv_up (view (elapse d w))" using Cons.prems(1) d by simp
  note held = nx_lock_held [OF up k]
  have "set (lock_polls (nx_lock cl lk ttl) elapse ds (snd (nx_lock cl lk ttl (elapse d w)))) \<subseteq> {Inr False}"
    using Cons.prems(4) up k ds d by (intro Cons.IH) (simp_all add: held add.assoc split: option.splits)
  then show ?case by (simp add: Let_def case_prod_unfold held)
qed simp

end

locale redis_lock = redis_nx view late elapse cl px
  for view :: "'w \<Rightarrow> redis_view" and late elapse
    and cl :: "('w, 'z) idempotency_client_scheme" and px +
  fixes lk :: string and ttl :: duration
  assumes ttl_pos: "0 < ttl" and ttl_ms: "millisecond dvd ttl"

sublocale redis_lock \<subseteq> lease "\<lambda>w. lock_ready lk (view w)" "\<lambda>w. rv_clock (view w)"
    "\<lambda>w. lock_deadline lk (view w)" elapse "nx_lock cl lk ttl" "nx_unlock cl lk" ttl
proof unfold_locales
  fix w assume r: "lock_ready lk (view w)"
  then have up: "rv_up (view w)" by (simp add: lock_ready_def)
  show "lock_ready lk (view (snd (nx_lock cl lk ttl w)))"
    using r ttl_pos
    by (cases "rv_keys (view w) lk")
      (simp_all add: nx_lock_free nx_lock_held up lock_ready_def expiry_at_def)
  show "lock_ready lk (view (snd (nx_unlock cl lk w)))"
    using up by (simp add: nx_unlock_frees lock_ready_def)
  show "rv_clock (view (snd (nx_lock cl lk ttl w))) = rv_clock (view w)"
    by (rule nx_lock_clock [OF up])
  show "rv_clock (view (snd (nx_unlock cl lk w))) = rv_clock (view w)"
    using up by (simp add: nx_unlock_frees)
  show "fst (nx_unlock cl lk w) = Inr () \<and> lock_deadline lk (view (snd (nx_unlock cl lk w))) = None"
    using up by (simp add: nx_unlock_frees lock_deadline_def)
  show "fst (nx_lock cl lk ttl w) = Inr True \<and>
      lock_deadline lk (view (snd (nx_lock cl lk ttl w))) = Some (rv_clock (view w) + ttl)"
    if "lock_deadline lk (view w) = None"
  proof -
    have "rv_keys (view w) lk = None" using that by (simp add: lock_free_key [OF r])
    then show ?thesis
      using ttl_pos px_exact [OF ttl_ms]
      by (simp add: nx_lock_free [OF up] lock_deadline_def expiry_at_def)
  qed
  show "fst (nx_lock cl lk ttl w) = Inr False \<and>
      lock_deadline lk (view (snd (nx_lock cl lk ttl w))) = Some t"
    if "lock_deadline lk (view w) = Some t" for t
    using that lock_deadline_Some [OF that] up by (auto simp: nx_lock_held)
next
  fix w and d :: duration assume r: "lock_ready lk (view w)" and d: "0 \<le> d"
  show "lock_ready lk (view (elapse d w))"
    using r d by (auto simp: lock_ready_def elapse_view age_keys split: option.splits if_splits)
  show "rv_clock (view (elapse d w)) = rv_clock (view w) + d"
    using d by simp
  show "lock_deadline lk (view (elapse d w)) = Some t"
    if "lock_deadline lk (view w) = Some t" and "rv_clock (view w) + d < t" for t
    using lock_deadline_Some [OF that(1)] elapse_keeps [OF d] that(2)
    by (auto simp: lock_deadline_def)
qed

context redis_lock
begin

lemma one_lock:
  assumes "lock_ready lk (view w)"
    and "(lease_step (nx_lock cl lk ttl) (nx_unlock cl lk) elapse (\<lambda>w. rv_clock (view w)) ttl)\<^sup>*\<^sup>*
      (lease_start w) s"
    and "holds_lease (\<lambda>w. rv_clock (view w)) s p" and "holds_lease (\<lambda>w. rv_clock (view w)) s q"
  shows "p = q"
  by (rule one_lease [OF assms(2,1,3,4)])

end

end
