(* ===== verification/Redis_Server.thy ===== *)
theory Redis_Server
  imports Redis_Lock
begin

text \<open>
  A concrete server: its state is a \<open>redis_view\<close> itself, a command acts on the keyspace when
  the server is up and answers "connection refused" when it is down. It is not code of the
  repository. It interprets the locales of \<open>Redis\<close> and \<open>Redis_Limits\<close>, so the laws that the
  stores rely on can hold together, and the witnesses of the properties run on it.
\<close>

definition late_at :: "instant \<Rightarrow> instant \<Rightarrow> bool" where
  "late_at t dl \<longleftrightarrow> dl \<le> t"

definition wire_ms :: "duration \<Rightarrow> duration" where
  "wire_ms d = (if 0 < d \<and> d < millisecond then millisecond else d div millisecond * millisecond)"

definition wire_sec :: "duration \<Rightarrow> duration" where
  "wire_sec d = (if 0 < d \<and> d < second then second else d div second * second)"

definition ttl_secs :: "duration \<Rightarrow> duration" where
  "ttl_secs d = (d + 500 * millisecond) div second * second"

definition refused :: go_error where
  "refused = NewError ''connection refused''"

definition wrong_type :: go_error where
  "wrong_type = NewError ''WRONGTYPE''"

definition when_up :: "(redis_view \<Rightarrow> 'a res \<times> redis_view) \<Rightarrow> (redis_view, 'a) act" where
  "when_up f v = (if rv_up v then f v else (Inl refused, v))"

definition srv_get :: "string \<Rightarrow> (redis_view, string) act" where
  "srv_get k = when_up (\<lambda>v. (case rv_keys v k of
       None \<Rightarrow> Inl RedisNil
     | Some (RString x, dl) \<Rightarrow> Inr x
     | Some _ \<Rightarrow> Inl wrong_type, v))"

definition srv_set :: "string \<Rightarrow> string \<Rightarrow> duration \<Rightarrow> (redis_view, unit) act" where
  "srv_set k x ttl = when_up (\<lambda>v. (Inr (), put_key k (RString x, expiry_at wire_ms v ttl) v))"

definition srv_del :: "string list \<Rightarrow> (redis_view, int) act" where
  "srv_del ks = when_up (\<lambda>v.
     (Inr (int (length (filter (\<lambda>k. rv_keys v k \<noteq> None) (remdups ks)))), fold drop_key ks v))"

definition srv_set_args :: "string \<Rightarrow> string \<Rightarrow> set_args \<Rightarrow> (redis_view, string) act" where
  "srv_set_args k x a = when_up (\<lambda>v.
     if sa_mode a = ''NX'' \<and> rv_keys v k \<noteq> None then (Inl RedisNil, v)
     else (Inr ''OK'', put_key k (RString x, expiry_at wire_ms v (sa_ttl a)) v))"

definition srv_ttl :: "string \<Rightarrow> (redis_view, duration) act" where
  "srv_ttl k = when_up (\<lambda>v. (Inr (case rv_keys v k of
       None \<Rightarrow> - 2
     | Some (_, None) \<Rightarrow> - 1
     | Some (_, Some dl) \<Rightarrow> ttl_secs (max 0 (dl - rv_clock v))), v))"

definition srv_close :: "(redis_view, unit) act" where
  "srv_close v = (Inr (), v\<lparr>rv_up := False\<rparr>)"

definition srv_client :: "redis_view storage_client" where
  "srv_client = \<lparr>c_get = srv_get, c_set = srv_set, c_del = srv_del, c_close = srv_close,
     c_set_args = srv_set_args, c_ttl = srv_ttl\<rparr>"

definition empty_server :: "instant \<Rightarrow> redis_view" where
  "empty_server t = \<lparr>rv_up = True, rv_clock = t, rv_keys = (\<lambda>_. None)\<rparr>"

lemmas srv_defs = srv_client_def srv_get_def srv_set_def srv_del_def srv_set_args_def srv_ttl_def
  srv_close_def when_up_def

lemma empty_server_sel [simp]:
  "rv_up (empty_server t)" "rv_clock (empty_server t) = t" "rv_keys (empty_server t) k = None"
  by (simp_all add: empty_server_def)

lemma wire_ms_exact: "millisecond dvd d \<Longrightarrow> wire_ms d = d"
  by (auto simp: wire_ms_def millisecond_def)

lemma wire_ms_near: "0 < d \<Longrightarrow> d - millisecond < wire_ms d"
proof -
  have "d = millisecond * (d div millisecond) + d mod millisecond" by simp
  moreover have "d mod millisecond < millisecond" by (simp add: millisecond_def)
  ultimately have "d - millisecond < d div millisecond * millisecond" by (simp only: mult.commute)
  then show "d - millisecond < wire_ms d" if "0 < d" using that by (simp add: wire_ms_def)
qed

lemma wire_ms_pos: "0 < d \<Longrightarrow> 0 < wire_ms d"
  by (simp add: wire_ms_def millisecond_def pos_imp_zdiv_pos_iff)

lemma wire_sec_exact: "second dvd d \<Longrightarrow> wire_sec d = d"
  by (auto simp: wire_sec_def second_def)

lemma wire_sec_pos: "0 < d \<Longrightarrow> 0 < wire_sec d"
  by (simp add: wire_sec_def second_def pos_imp_zdiv_pos_iff)

lemma ttl_secs_near: "0 \<le> d \<Longrightarrow> 0 \<le> ttl_secs d \<and> \<bar>ttl_secs d - d\<bar> \<le> second"
  by (simp add: ttl_secs_def second_def millisecond_def)

interpretation srv_env: redis_env "\<lambda>v. v" late_at "age late_at"
  by unfold_locales (auto simp: late_at_def)

interpretation srv: redis_ttl "\<lambda>v. v" late_at "age late_at" srv_client wire_ms ttl_secs
  by unfold_locales (auto simp: srv_defs wire_ms_pos wire_ms_exact wire_ms_near ttl_secs_near)

text \<open>The same server through the smaller interfaces of the cache and the idempotency store.\<close>

definition srv_cache_client :: "redis_view cache_client" where
  "srv_cache_client = cache_client.truncate srv_client"

definition srv_idempotency_client :: "redis_view idempotency_client" where
  "srv_idempotency_client = idempotency_client.truncate srv_client"

interpretation srv_cache: redis_kv "\<lambda>v. v" late_at "age late_at" srv_cache_client wire_ms
  by unfold_locales
    (auto simp: srv_defs srv_cache_client_def cache_client.truncate_def wire_ms_pos wire_ms_exact wire_ms_near)

interpretation srv_nx: redis_nx "\<lambda>v. v" late_at "age late_at" srv_idempotency_client wire_ms
  by unfold_locales
    (auto simp: srv_defs srv_idempotency_client_def idempotency_client.truncate_def wire_ms_pos wire_ms_exact wire_ms_near)

end
