(* ===== verification/Keyed_Redis.thy ===== *)
theory Keyed_Redis
  imports Redis_Lock Storage_Interface
begin

text \<open>
  The string keys of a Redis server under a key function \<open>mk\<close>, as \<open>RedisStorage\<close>, the cache store
  and the idempotency store all read, write and delete them. Over a client that keeps the laws of
  \<open>redis_kv\<close>, with \<open>mk\<close> one to one, they are a \<open>kv_storage\<close>. The stores' own operations are
  translated from their source in their theories and proved equal to these.
\<close>

definition raw_get :: "('w, 'z) cache_client_scheme \<Rightarrow> string \<Rightarrow> ('w, string option) act" where
  "raw_get cl k w =
     (let (r, w') = c_get cl k w
      in (case r of
            Inl err \<Rightarrow> if errors_is err RedisNil then Inr None else Inl err
          | Inr data \<Rightarrow> Inr (Some data), w'))"

definition raw_ops :: "('w, 'z) cache_client_scheme \<Rightarrow> (string \<Rightarrow> string) \<Rightarrow> 'w storage_ops" where
  "raw_ops cl mk = \<lparr>so_get = \<lambda>k. raw_get cl (mk k), so_set = \<lambda>k. c_set cl (mk k),
     so_delete = \<lambda>k. nx_unlock cl (mk k), so_close = c_close cl\<rparr>"

lemma raw_ops_sel [simp]:
  "so_get (raw_ops cl mk) k = raw_get cl (mk k)"
  "so_set (raw_ops cl mk) k = c_set cl (mk k)"
  "so_delete (raw_ops cl mk) k = nx_unlock cl (mk k)"
  "so_close (raw_ops cl mk) = c_close cl"
  by (simp_all add: raw_ops_def)

text \<open>
  What the key function shows of the server: the string keys in its range. The view is usable while
  the server is up and no key in the range holds another type of value.
\<close>

definition keyed_view :: "(string \<Rightarrow> string) \<Rightarrow> redis_view \<Rightarrow> storage_view" where
  "keyed_view mk v = \<lparr>
     sv_ok = (rv_up v \<and> (\<forall>k obj dl. rv_keys v (mk k) = Some (obj, dl) \<longrightarrow> (\<exists>x. obj = RString x))),
     sv_now = rv_clock v,
     sv_entries = (\<lambda>k. case rv_keys v (mk k) of Some (RString x, dl) \<Rightarrow> Some (x, dl) | _ \<Rightarrow> None)\<rparr>"

lemma keyed_view_put [simp]:
  "inj mk \<Longrightarrow> sv_ok (keyed_view mk v) \<Longrightarrow>
     keyed_view mk (put_key (mk k) (RString x, dl) v) = put_entry k (x, dl) (keyed_view mk v)"
  by (auto simp: keyed_view_def put_entry_def fun_eq_iff inj_eq)

lemma keyed_view_drop [simp]:
  "inj mk \<Longrightarrow> sv_ok (keyed_view mk v) \<Longrightarrow>
     keyed_view mk (drop_key (mk k) v) = drop_entry k (keyed_view mk v)"
  by (auto simp: keyed_view_def drop_entry_def fun_eq_iff inj_eq)

lemma keyed_view_age [simp]:
  "sv_ok (keyed_view mk v) \<Longrightarrow> keyed_view mk (age late d v) = age_entries late d (keyed_view mk v)"
  by (auto simp: keyed_view_def age_entries_def fun_eq_iff age_keys
      split: option.splits redis_obj.splits)

text \<open>A change of one key: it is written or deleted. Other key functions do not see it.\<close>

definition changes_under :: "(string \<Rightarrow> string) \<Rightarrow> redis_view \<Rightarrow> redis_view \<Rightarrow> bool" where
  "changes_under mk v v' \<longleftrightarrow> v' = v \<or> (\<exists>k x. v' = put_key (mk k) x v) \<or> (\<exists>k. v' = drop_key (mk k) v)"

lemma changes_unseen:
  assumes "changes_under mk v v'" and "\<And>j k. mk j \<noteq> mk' k"
  shows "keyed_view mk' v' = keyed_view mk' v"
proof -
  have "rv_keys v' (mk' k) = rv_keys v (mk' k)" "rv_up v' = rv_up v" "rv_clock v' = rv_clock v" for k
    using assms(1) assms(2) [THEN not_sym] by (auto simp: changes_under_def)
  then show ?thesis by (simp add: keyed_view_def)
qed

lemma changes_under_intros [simp, intro]:
  "changes_under mk v v" "changes_under mk v (put_key (mk k) x v)" "changes_under mk v (drop_key (mk k) v)"
  unfolding changes_under_def by blast+

lemma keyed_view_up: "sv_ok (keyed_view mk v) \<Longrightarrow> rv_up v"
  by (simp add: keyed_view_def)

lemma keyed_view_now [simp]: "sv_now (keyed_view mk v) = rv_clock v"
  by (simp add: keyed_view_def)

lemma keyed_view_entry_None:
  "sv_ok (keyed_view mk v) \<Longrightarrow> sv_entries (keyed_view mk v) k = None \<Longrightarrow> rv_keys v (mk k) = None"
  by (fastforce simp: keyed_view_def split: option.splits redis_obj.splits)

lemma keyed_view_entry_Some:
  "sv_entries (keyed_view mk v) k = Some (x, dl) \<Longrightarrow> rv_keys v (mk k) = Some (RString x, dl)"
  by (auto simp: keyed_view_def split: option.splits redis_obj.splits)

lemma expiry_entry [simp]: "expiry_at px v ttl = entry_until px (rv_clock v) ttl"
  by (simp add: expiry_at_def entry_until_def)

locale keyed_redis = redis_kv view late elapse cl px
  for view :: "'w \<Rightarrow> redis_view" and late elapse and cl :: "('w, 'z) cache_client_scheme" and px +
  fixes mk :: "string \<Rightarrow> string"
  assumes mk_inj: "inj mk"
begin

abbreviation usable :: "'w \<Rightarrow> bool" where
  "usable w \<equiv> sv_ok (keyed_view mk (view w))"

lemma raw_get_reply:
  assumes "usable w"
  shows "fst (raw_get cl (mk k) w) = Inr (map_option fst (sv_entries (keyed_view mk (view w)) k))"
proof (cases "sv_entries (keyed_view mk (view w)) k")
  case None
  then show ?thesis
    using get_none [OF keyed_view_up [OF assms] keyed_view_entry_None [OF assms None]]
    by (simp add: raw_get_def Let_def case_prod_unfold)
next
  case (Some xd)
  obtain x dl where "xd = (x, dl)" by (cases xd)
  with Some have e: "sv_entries (keyed_view mk (view w)) k = Some (x, dl)" by simp
  show ?thesis
    using e get_some [OF keyed_view_up [OF assms] keyed_view_entry_Some [OF e]]
    by (simp add: raw_get_def Let_def case_prod_unfold)
qed

lemma raw_get_view: "rv_up (view w) \<Longrightarrow> view (snd (raw_get cl k w)) = view w"
  by (simp add: raw_get_def Let_def case_prod_unfold get_view)

lemma raw_del:
  assumes "rv_up (view w)"
  shows "fst (nx_unlock cl k w) = Inr ()" and "view (snd (nx_unlock cl k w)) = drop_key k (view w)"
  using assms by (simp_all add: nx_unlock_def Let_def case_prod_unfold del_reply del_view)

end

sublocale keyed_redis \<subseteq> storage: kv_storage "\<lambda>w. keyed_view mk (view w)" late elapse
    "raw_ops cl mk" px
proof unfold_locales
  fix w k x ttl d assume ok: "sv_ok (keyed_view mk (view w))"
  note up = keyed_view_up [OF ok]
  show "fst (so_get (raw_ops cl mk) k w) = Inr (map_option fst (sv_entries (keyed_view mk (view w)) k))"
    by (simp add: raw_get_reply [OF ok])
  show "keyed_view mk (view (snd (so_get (raw_ops cl mk) k w))) = keyed_view mk (view w)"
    by (simp add: raw_get_view [OF up])
  show "fst (so_delete (raw_ops cl mk) k w) = Inr ()"
    by (simp add: raw_del [OF up])
  show "keyed_view mk (view (snd (so_delete (raw_ops cl mk) k w))) = drop_entry k (keyed_view mk (view w))"
    by (simp add: raw_del [OF up] ok mk_inj)
next
  fix w k x and ttl :: duration
  assume ok: "sv_ok (keyed_view mk (view w))" and ttl: "0 \<le> ttl"
  note up = keyed_view_up [OF ok]
  show "fst (so_set (raw_ops cl mk) k x ttl w) = Inr ()"
    by (simp add: set_reply [OF up ttl])
  show "keyed_view mk (view (snd (so_set (raw_ops cl mk) k x ttl w))) =
      put_entry k (x, entry_until px (sv_now (keyed_view mk (view w))) ttl) (keyed_view mk (view w))"
    by (simp add: set_view [OF up ttl] ok mk_inj)
next
  fix w and d :: duration assume "sv_ok (keyed_view mk (view w))" and "0 \<le> d"
  then show "keyed_view mk (view (elapse d w)) = age_entries late d (keyed_view mk (view w))"
    by (simp add: elapse_view)
qed (rule late_past late_future px_pos px_exact px_near; assumption)+

context keyed_redis
begin

lemma is_storage: "kv_storage (\<lambda>w. keyed_view mk (view w)) late elapse (raw_ops cl mk) px"
  by (rule storage.kv_storage_axioms)

end

end
