(* ===== verification/Storage.thy ===== *)
theory Storage
  imports Redis_Server Keyed_Redis
begin

text \<open>
  \<open>storage/redis.go\<close>: \<open>RedisStorage\<close>, the key-value storage over a Redis client, with its
  lock (\<open>storage.Locker\<close>) and its TTL query (\<open>storage.Inspector\<close>). The locale
  \<open>redis_backed\<close> is a \<open>RedisStorage\<close> over any Redis client that keeps the laws of
  \<open>redis_ttl\<close>; it is a sublocale of \<open>kv_storage\<close>, the contract of \<open>storage.Storage\<close>.
\<close>

section \<open>RedisStorage\<close>

record 'w redis_storage =
  rs_client :: "'w storage_client"
  rs_keyPrefix :: string
  rs_lockTTL :: duration

record redis_storage_config =
  rsc_KeyPrefix :: string
  rsc_LockTTL :: duration

definition NewRedisStorage ::
  "'w storage_client \<Rightarrow> redis_storage_config list \<Rightarrow> 'w redis_storage" where
  "NewRedisStorage client cfg =
     (let s = \<lparr>rs_client = client, rs_keyPrefix = '''', rs_lockTTL = 30 * second\<rparr>
      in case cfg of
           [] \<Rightarrow> s
         | c # _ \<Rightarrow>
             (let s = s\<lparr>rs_keyPrefix := rsc_KeyPrefix c\<rparr>
              in if rsc_LockTTL c > 0 then s\<lparr>rs_lockTTL := rsc_LockTTL c\<rparr> else s))"

definition RedisStorage_makeKey :: "'w redis_storage \<Rightarrow> string \<Rightarrow> string" where
  "RedisStorage_makeKey s key = (if rs_keyPrefix s \<noteq> '''' then rs_keyPrefix s @ key else key)"

definition RedisStorage_makeLockKey :: "'w redis_storage \<Rightarrow> string \<Rightarrow> string" where
  "RedisStorage_makeLockKey s key = RedisStorage_makeKey s key @ '':lock''"

definition RedisStorage_Get :: "'w redis_storage \<Rightarrow> string \<Rightarrow> ('w, string option) act" where
  "RedisStorage_Get s key w =
     (let (r, w') = c_get (rs_client s) (RedisStorage_makeKey s key) w
      in (case r of
            Inl err \<Rightarrow> if errors_is err RedisNil then Inr None else Inl err
          | Inr data \<Rightarrow> Inr (Some data), w'))"

definition RedisStorage_Set ::
  "'w redis_storage \<Rightarrow> string \<Rightarrow> string \<Rightarrow> duration \<Rightarrow> ('w, unit) act" where
  "RedisStorage_Set s key val ttl w = c_set (rs_client s) (RedisStorage_makeKey s key) val ttl w"

definition RedisStorage_Delete :: "'w redis_storage \<Rightarrow> string \<Rightarrow> ('w, unit) act" where
  "RedisStorage_Delete s key w =
     (let (r, w') = c_del (rs_client s) [RedisStorage_makeKey s key] w
      in (case r of Inl err \<Rightarrow> Inl err | Inr _ \<Rightarrow> Inr (), w'))"

definition RedisStorage_Lock ::
  "'w redis_storage \<Rightarrow> string \<Rightarrow> duration \<Rightarrow> ('w, bool) act" where
  "RedisStorage_Lock s key ttl w =
     (let lockKey = RedisStorage_makeLockKey s key;
          (r, w') = c_set_args (rs_client s) lockKey ''1'' \<lparr>sa_mode = ''NX'', sa_ttl = ttl\<rparr> w
      in (case r of
            Inl err \<Rightarrow> if errors_is err RedisNil then Inr False else Inl err
          | Inr _ \<Rightarrow> Inr True, w'))"

definition RedisStorage_Unlock :: "'w redis_storage \<Rightarrow> string \<Rightarrow> ('w, unit) act" where
  "RedisStorage_Unlock s key w =
     (let lockKey = RedisStorage_makeLockKey s key;
          (r, w') = c_del (rs_client s) [lockKey] w
      in (case r of Inl err \<Rightarrow> Inl err | Inr _ \<Rightarrow> Inr (), w'))"

definition RedisStorage_TTL :: "'w redis_storage \<Rightarrow> string \<Rightarrow> ('w, duration) act" where
  "RedisStorage_TTL s key w =
     (let (r, w') = c_ttl (rs_client s) (RedisStorage_makeKey s key) w
      in (case r of
            Inl err \<Rightarrow> Inl err
          | Inr ttl \<Rightarrow> if ttl < 0 then Inr 0 else Inr ttl, w'))"

definition RedisStorage_Close :: "'w redis_storage \<Rightarrow> ('w, unit) act" where
  "RedisStorage_Close s w = c_close (rs_client s) w"

definition RedisStorage_ops :: "'w redis_storage \<Rightarrow> 'w storage_ops" where
  "RedisStorage_ops s = \<lparr>so_get = RedisStorage_Get s, so_set = RedisStorage_Set s,
     so_delete = RedisStorage_Delete s, so_close = RedisStorage_Close s\<rparr>"

lemmas RedisStorage_defs [code_simps] =
  RedisStorage_Get_def RedisStorage_Set_def RedisStorage_Delete_def RedisStorage_Lock_def
  RedisStorage_Unlock_def RedisStorage_TTL_def RedisStorage_Close_def

section \<open>RedisStorage keeps the contract\<close>

lemma makeKey_inject [simp]: "RedisStorage_makeKey s a = RedisStorage_makeKey s b \<longleftrightarrow> a = b"
  by (simp add: RedisStorage_makeKey_def)

lemma makeKey_append: "RedisStorage_makeKey s a @ t = RedisStorage_makeKey s (a @ t)"
  by (simp add: RedisStorage_makeKey_def)

lemma makeLockKey_eq_makeKey:
  "RedisStorage_makeLockKey s a = RedisStorage_makeKey s b \<longleftrightarrow> b = a @ '':lock''"
  by (simp only: RedisStorage_makeLockKey_def makeKey_append makeKey_inject) auto

text \<open>What a storage shows of the server: the string keys under its prefix.\<close>

abbreviation storage_view :: "'w redis_storage \<Rightarrow> redis_view \<Rightarrow> storage_view" where
  "storage_view s \<equiv> keyed_view (RedisStorage_makeKey s)"

lemmas storage_view_def = keyed_view_def

lemma RedisStorage_ops_raw: "RedisStorage_ops s = raw_ops (rs_client s) (RedisStorage_makeKey s)"
  by (simp add: RedisStorage_ops_def raw_ops_def fun_eq_iff RedisStorage_Get_def raw_get_def
      RedisStorage_Set_def RedisStorage_Delete_def nx_unlock_def RedisStorage_Close_def)

locale redis_backed = redis_ttl view late elapse "rs_client st" px secs
  for view :: "'w \<Rightarrow> redis_view" and late elapse and st :: "'w redis_storage" and px secs

sublocale redis_backed \<subseteq> keyed: keyed_redis view late elapse "rs_client st" px "RedisStorage_makeKey st"
  by unfold_locales (simp add: inj_def)

context redis_backed
begin

lemma is_storage:
  "kv_storage (\<lambda>w. storage_view st (view w)) late elapse (RedisStorage_ops st) px"
  unfolding RedisStorage_ops_raw by (rule keyed.is_storage)

lemma is_nx: "redis_nx view late elapse (rs_client st) px"
  by unfold_locales

lemma lock_at:
  "0 < ttl \<Longrightarrow> millisecond dvd ttl \<Longrightarrow> redis_lock view late elapse (rs_client st) px ttl"
  by unfold_locales

end

lemma RedisStorage_ops_sel [simp]:
  "so_get (RedisStorage_ops s) = RedisStorage_Get s"
  "so_set (RedisStorage_ops s) = RedisStorage_Set s"
  "so_delete (RedisStorage_ops s) = RedisStorage_Delete s"
  "so_close (RedisStorage_ops s) = RedisStorage_Close s"
  by (simp_all add: RedisStorage_ops_def)

section \<open>The lock and the TTL query\<close>

lemma Lock_nx: "RedisStorage_Lock s k ttl = nx_lock (rs_client s) (RedisStorage_makeLockKey s k) ttl"
  by (simp add: fun_eq_iff RedisStorage_Lock_def nx_lock_def)

lemma Unlock_nx: "RedisStorage_Unlock s k = nx_unlock (rs_client s) (RedisStorage_makeLockKey s k)"
  by (simp add: fun_eq_iff RedisStorage_Unlock_def nx_unlock_def)

lemma Delete_nx: "RedisStorage_Delete s k = nx_unlock (rs_client s) (RedisStorage_makeKey s k)"
  by (simp add: fun_eq_iff RedisStorage_Delete_def nx_unlock_def)

context redis_backed
begin

lemma secs_nonneg [simp]: "0 \<le> secs (max 0 d)"
  using secs_near [of "max 0 d"] by simp

lemma TTL_reply:
  assumes "rv_up (view w)"
  shows "fst (RedisStorage_TTL st k w) =
    Inr (case rv_keys (view w) (RedisStorage_makeKey st k) of
           Some (_, Some dl) \<Rightarrow> secs (max 0 (dl - rv_clock (view w))) | _ \<Rightarrow> 0)"
  using ttl_none [OF assms] ttl_persistent [OF assms] ttl_some [OF assms]
    secs_nonneg [THEN leD]
  by (auto simp: RedisStorage_TTL_def Let_def case_prod_unfold split: option.splits)

lemma Set_takes_lock:
  assumes "rv_up (view w)" and "0 \<le> ttl"
  shows "fst (RedisStorage_Lock st k ttl'
    (snd (RedisStorage_Set st (k @ '':lock'') x ttl w))) = Inr False"
  unfolding Lock_nx RedisStorage_Set_def
  by (rule nx_lock_held(1))
    (simp_all add: assms set_view RedisStorage_makeLockKey_def makeKey_append)

end

section \<open>A storage on the concrete server\<close>

text \<open>The storage of \<open>examples/middleware/jwtauth\<close>: prefix "myapp:", default lock TTL.\<close>

definition demo_storage :: "redis_view redis_storage" where
  "demo_storage =
     NewRedisStorage srv_client [\<lparr>rsc_KeyPrefix = ''myapp:'', rsc_LockTTL = 0\<rparr>]"

lemma demo_storage_sel [simp]:
  "rs_client demo_storage = srv_client"
  "rs_keyPrefix demo_storage = ''myapp:''"
  "rs_lockTTL demo_storage = 30 * second"
  by (simp_all add: demo_storage_def NewRedisStorage_def)

interpretation demo: redis_backed "\<lambda>v. v" late_at "age late_at" demo_storage wire_ms ttl_secs
  unfolding redis_backed_def demo_storage_sel by (rule srv.redis_ttl_axioms)

interpretation demo_lock: redis_lock "\<lambda>v. v" late_at "age late_at" srv_client wire_ms
    "RedisStorage_makeLockKey demo_storage ''job''" "30 * second"
  by unfold_locales (simp_all add: duration_defs)

lemma demo_ok [simp]: "sv_ok (storage_view demo_storage (empty_server t))"
  by (simp add: storage_view_def)

section \<open>Properties\<close>

text \<open>
  C11: RedisStorage is a key-value storage. Over any Redis client that keeps the laws of
  \<open>redis_ttl\<close>, Get answers with the live entry under the prefixed key, Set and Delete change
  exactly that entry (Set with the deadline its time to live gives), and the other keys that the
  storage shows stay as they are.
\<close>

theorem RedisStorage_refines_storage:
  assumes "redis_backed view late elapse s px secs"
    and "sv_ok (storage_view s (view w))" and "0 \<le> ttl"
  shows "fst (RedisStorage_Get s k w) =
        Inr (map_option fst (sv_entries (storage_view s (view w)) k)) \<and>
      storage_view s (view (snd (RedisStorage_Get s k w))) = storage_view s (view w) \<and>
      fst (RedisStorage_Set s k x ttl w) = Inr () \<and>
      storage_view s (view (snd (RedisStorage_Set s k x ttl w))) =
        put_entry k (x, entry_until px (rv_clock (view w)) ttl) (storage_view s (view w)) \<and>
      fst (RedisStorage_Delete s k w) = Inr () \<and>
      storage_view s (view (snd (RedisStorage_Delete s k w))) =
        drop_entry k (storage_view s (view w))"
proof -
  note K = redis_backed.is_storage [OF assms(1)]
  show ?thesis
    using kv_storage.get_reply [OF K assms(2)] kv_storage.get_sview [OF K assms(2)]
      kv_storage.set_reply [OF K assms(2,3)] kv_storage.set_sview [OF K assms(2,3)]
      kv_storage.delete_reply [OF K assms(2)] kv_storage.delete_sview [OF K assms(2)]
    by simp
qed

theorem RedisStorage_refines_storage_witness:
  "fst (RedisStorage_Get demo_storage ''k''
      (snd (RedisStorage_Set demo_storage ''k'' ''v'' second (empty_server 0)))) = Inr (Some ''v'')"
proof -
  let ?w = "snd (RedisStorage_Set demo_storage ''k'' ''v'' second (empty_server 0))"
  have "(0 :: duration) \<le> second" by (simp add: second_def)
  note set = RedisStorage_refines_storage [OF demo.redis_backed_axioms demo_ok [of 0] this,
      where k = "''k''" and x = "''v''"]
  have "sv_ok (storage_view demo_storage ?w)" using set by simp
  from RedisStorage_refines_storage [OF demo.redis_backed_axioms this order_refl] set
  show ?thesis by simp
qed

text \<open>
  How long an entry lives. After \<open>Set(k, x, ttl)\<close> and then any sequence of operations of the
  storage on other keys, during which \<open>t\<close> nanoseconds pass, \<open>Get(k)\<close> returns \<open>x\<close> if \<open>ttl = 0\<close> or
  \<open>t\<close> is less than the time to live (rounded as it travels), and "not found" once \<open>t\<close> exceeds it.
\<close>

theorem RedisStorage_entry_lifetime:
  assumes "redis_backed view late elapse s px secs"
    and "sv_ok (storage_view s (view w))" and "0 \<le> ttl"
    and "list_all (spares k) os"
  shows "(ttl = 0 \<or> waited os < px ttl \<longrightarrow>
        fst (RedisStorage_Get s k (storage_run (RedisStorage_ops s) elapse os
          (snd (RedisStorage_Set s k x ttl w)))) = Inr (Some x)) \<and>
      (0 < ttl \<and> px ttl < waited os \<longrightarrow>
        fst (RedisStorage_Get s k (storage_run (RedisStorage_ops s) elapse os
          (snd (RedisStorage_Set s k x ttl w)))) = Inr None)"
proof -
  note K = redis_backed.is_storage [OF assms(1)]
  have "sv_ok (storage_view s (view (snd (so_set (RedisStorage_ops s) k x ttl w))))"
    using kv_storage.set_sview [OF K assms(2,3), of k x] assms(2) by simp
  from kv_storage.set_quiet_get [OF K assms(2,3) kv_storage.quiet_run [OF K assms(4) this]]
  show ?thesis by simp
qed

theorem RedisStorage_entry_lifetime_witness:
  "fst (RedisStorage_Get demo_storage ''a''
     (storage_run (RedisStorage_ops demo_storage) (age late_at)
       [OpWait second, OpSet ''b'' ''2'' 0, OpDelete ''c'', OpWait second]
       (snd (RedisStorage_Set demo_storage ''a'' ''1'' (5 * second) (empty_server 0))))) =
     Inr (Some ''1'')"
  using RedisStorage_entry_lifetime [OF demo.redis_backed_axioms demo_ok,
    of "5 * second" "''a''"
      "[OpWait second, OpSet ''b'' ''2'' 0, OpDelete ''c'', OpWait second]" "''1''" 0]
  by (simp add: wire_ms_exact duration_defs)

text \<open>
  C16: mutual exclusion. Processes that lock and unlock one key through RedisStorage, with a time
  to live of a positive number of whole milliseconds, and that unlock only while their lease
  runs: in every reachable state at most one of them holds an unexpired lease, whatever the
  interleaving of Lock, Unlock and the passing of time.
\<close>

theorem RedisStorage_lock_exclusive:
  assumes "redis_backed view late elapse s px secs" and "0 < ttl" and "millisecond dvd ttl"
    and "lock_ready (RedisStorage_makeLockKey s k) (view w)"
    and "(lease_step (RedisStorage_Lock s k ttl) (RedisStorage_Unlock s k) elapse
           (\<lambda>w. rv_clock (view w)) ttl)\<^sup>*\<^sup>* (lease_start w) c"
    and "holds_lease (\<lambda>w. rv_clock (view w)) c p" and "holds_lease (\<lambda>w. rv_clock (view w)) c q"
  shows "p = q"
  using redis_lock.one_lock [OF redis_backed.lock_at [OF assms(1-3)] assms(4) _ assms(6,7)] assms(5)
  by (simp add: Lock_nx Unlock_nx)

theorem RedisStorage_lock_exclusive_witness:
  "\<exists>c. (lease_step (RedisStorage_Lock demo_storage ''job'' second)
        (RedisStorage_Unlock demo_storage ''job'') (age late_at) rv_clock second)\<^sup>*\<^sup>*
        (lease_start (empty_server 0)) c \<and>
      holds_lease rv_clock c 7 \<and> \<not> holds_lease rv_clock c 8"
proof -
  let ?L = "RedisStorage_Lock demo_storage ''job'' second"
  let ?U = "RedisStorage_Unlock demo_storage ''job''"
  let ?c = "\<lparr>ls_world = snd (?L (empty_server 0)), ls_until = [7 \<mapsto> second]\<rparr>"
  let ?lk = "RedisStorage_makeLockKey demo_storage ''job''"
  have step: "lease_step ?L ?U (age late_at) rv_clock second (lease_start (empty_server 0)) ?c"
    using lease_step.acquire [of ?L "lease_start (empty_server 0)" "snd (?L (empty_server 0))" ?U
        "age late_at" rv_clock second 7]
    by (simp add: lease_start_def Lock_nx srv.nx_lock_free(1) prod_eq_iff)
  have seven: "holds_lease rv_clock ?c 7"
    by (simp add: holds_lease_def Lock_nx srv.nx_lock_clock duration_defs)
  have ready: "lock_ready ?lk (empty_server 0)" by (simp add: lock_ready_def)
  have "\<not> holds_lease rv_clock ?c 8"
    using RedisStorage_lock_exclusive [OF demo.redis_backed_axioms, of second "''job''"
        "empty_server 0" ?c 7 8] step seven ready
    by (auto simp: duration_defs)
  then show ?thesis using step seven by blast
qed

text \<open>
  How long a lock lasts. A lock taken with a positive time to live is refused to everybody
  until that much time has passed and is free again afterwards; a lock taken with a time to
  live of 0 is never given up, whatever \<open>lockTTL\<close> the storage was configured with, although the
  comment on Lock says that it expires after the configured \<open>lockTTL\<close>.
\<close>

theorem RedisStorage_lock_lifetime:
  assumes "redis_backed view late elapse s px secs" and "rv_up (view w)"
    and "rv_keys (view w) (RedisStorage_makeLockKey s k) = None" and "0 \<le> d"
  shows "fst (RedisStorage_Lock s k ttl w) = Inr True \<and>
      (0 < ttl \<and> d < px ttl \<longrightarrow>
        fst (RedisStorage_Lock s k ttl' (elapse d (snd (RedisStorage_Lock s k ttl w)))) = Inr False) \<and>
      (0 < ttl \<and> px ttl < d \<longrightarrow>
        fst (RedisStorage_Lock s k ttl' (elapse d (snd (RedisStorage_Lock s k ttl w)))) = Inr True) \<and>
      (ttl \<le> 0 \<longrightarrow>
        fst (RedisStorage_Lock s k ttl' (elapse d (snd (RedisStorage_Lock s k ttl w)))) = Inr False)"
proof -
  note nx = redis_backed.is_nx [OF assms(1)]
  show ?thesis
    unfolding Lock_nx
    using redis_nx.nx_lock_free(1) [OF nx assms(2,3)] redis_nx.lock_until_deadline [OF nx assms(2,3) _ assms(4)]
      redis_nx.lock_without_ttl [OF nx assms(2,3) _ assms(4)]
    by simp
qed

theorem RedisStorage_lock_lifetime_witness:
  "fst (RedisStorage_Lock demo_storage ''job'' 0
     (age late_at (365 * 24 * 60 * minute) (snd (RedisStorage_Lock demo_storage ''job'' 0 (empty_server 0)))))
     = Inr False"
  using RedisStorage_lock_lifetime [OF demo.redis_backed_axioms, of "empty_server 0" "''job''"
    "365 * 24 * 60 * minute" 0 0]
  by (simp add: duration_defs)

text \<open>
  Unlock does not know who holds the lock. A process that unlocks after its lease has run
  out removes the lock that another process has taken since, and a third one can take it at
  once: all three calls of Lock return true, the last two at the same instant.
\<close>

theorem RedisStorage_late_unlock:
  assumes "redis_backed view late elapse s px secs" and "rv_up (view w)"
    and "rv_keys (view w) (RedisStorage_makeLockKey s k) = None" and "0 < ttl" and "px ttl < d"
    and "(a, w1) = RedisStorage_Lock s k ttl w"
    and "(b, w2) = RedisStorage_Lock s k ttl (elapse d w1)"
    and "(u, w3) = RedisStorage_Unlock s k w2"
    and "(c, w4) = RedisStorage_Lock s k ttl w3"
  shows "a = Inr True \<and> b = Inr True \<and> c = Inr True \<and> rv_clock (view w4) = rv_clock (view w2)"
proof -
  note nx = redis_backed.is_nx [OF assms(1)]
  let ?L = "nx_lock (rs_client s) (RedisStorage_makeLockKey s k)"
  have pos: "0 < px ttl" by (rule redis_kv.px_pos [OF redis_nx.axioms(1) [OF nx] assms(4)])
  with assms(5) have d: "0 \<le> d" by simp
  have w: "w1 = snd (?L ttl w)" "w2 = snd (?L ttl (elapse d w1))" "w4 = snd (?L ttl w3)"
    "w3 = snd (nx_unlock (rs_client s) (RedisStorage_makeLockKey s k) w2)"
    "a = fst (?L ttl w)" "b = fst (?L ttl (elapse d w1))" "c = fst (?L ttl w3)"
    using assms(6-9) by (simp_all add: Lock_nx Unlock_nx prod_eq_iff)
  have up2: "rv_up (view w2)"
    using redis_nx.nx_lock_up [OF nx] assms(2) d
      redis_env.up_elapse [OF redis_kv.axioms(1) [OF redis_nx.axioms(1) [OF nx]] d]
    by (simp add: w)
  have "b = Inr True"
    using redis_nx.lock_until_deadline(2) [OF nx assms(2-4) d assms(5)] by (simp add: w)
  moreover have "c = Inr True"
    using redis_nx.unlock_then_lock [OF nx up2] by (simp add: w)
  moreover have "rv_clock (view w4) = rv_clock (view w2)"
    using redis_nx.nx_unlock_frees(2) [OF nx up2] redis_nx.nx_lock_clock [OF nx] up2
    by (simp add: w)
  ultimately show ?thesis using redis_nx.nx_lock_free(1) [OF nx assms(2,3)] by (simp add: w)
qed

theorem RedisStorage_late_unlock_witness:
  "fst (RedisStorage_Lock demo_storage ''job'' second
     (snd (RedisStorage_Unlock demo_storage ''job''
       (snd (RedisStorage_Lock demo_storage ''job'' second (age late_at (2 * second)
         (snd (RedisStorage_Lock demo_storage ''job'' second (empty_server 0)))))))))
     = Inr True"
  using RedisStorage_late_unlock [OF demo.redis_backed_axioms, of "empty_server 0" "''job''" second
    "2 * second", OF _ _ _ _ surjective_pairing [symmetric] surjective_pairing [symmetric]
    surjective_pairing [symmetric] surjective_pairing [symmetric]]
  by (simp add: wire_ms_exact duration_defs)

text \<open>
  Lock keys live among the data keys. The data key of \<open>j\<close> is the lock key of \<open>k\<close> exactly when
  \<open>j\<close> is \<open>k\<close> followed by ":lock"; then writing \<open>j\<close> as data makes Lock on \<open>k\<close> fail, and deleting
  \<open>j\<close> releases the lock on \<open>k\<close> whoever holds it.
\<close>

theorem RedisStorage_lock_key_is_data_key:
  assumes "redis_backed view late elapse s px secs" and "rv_up (view w)" and "0 \<le> ttl"
  shows "(RedisStorage_makeKey s j = RedisStorage_makeLockKey s k \<longleftrightarrow> j = k @ '':lock'') \<and>
      fst (RedisStorage_Lock s k ttl' (snd (RedisStorage_Set s (k @ '':lock'') x ttl w))) = Inr False \<and>
      fst (RedisStorage_Lock s k ttl' (snd (RedisStorage_Delete s (k @ '':lock'') w))) = Inr True"
proof -
  have key: "RedisStorage_makeKey s (k @ '':lock'') = RedisStorage_makeLockKey s k"
    by (simp add: RedisStorage_makeLockKey_def makeKey_append)
  have "RedisStorage_makeKey s j = RedisStorage_makeLockKey s k \<longleftrightarrow> j = k @ '':lock''"
    using makeLockKey_eq_makeKey [of s k j] by metis
  then show ?thesis
    using redis_backed.Set_takes_lock [OF assms]
      redis_nx.unlock_then_lock [OF redis_backed.is_nx [OF assms(1)] assms(2)]
    by (simp only: Lock_nx Delete_nx key simp_thms)
qed

theorem RedisStorage_lock_key_is_data_key_witness:
  "fst (RedisStorage_Lock demo_storage ''job'' second (snd (RedisStorage_Delete demo_storage ''job:lock''
     (snd (RedisStorage_Lock demo_storage ''job'' second (empty_server 0)))))) = Inr True"
  using RedisStorage_lock_key_is_data_key [OF demo.redis_backed_axioms, of
    "snd (RedisStorage_Lock demo_storage ''job'' second (empty_server 0))" 0 _ "''job''"]
  by (simp add: Lock_nx srv.nx_lock_up)

text \<open>
  The TTL query. TTL returns 0 for a key that does not exist or never expires (the server's
  -2 and -1), and otherwise the remaining time within a second, never negative.
\<close>

theorem RedisStorage_TTL_reply:
  assumes "redis_backed view late elapse s px secs" and "sv_ok (storage_view s (view w))"
  shows "\<exists>t \<ge> 0. fst (RedisStorage_TTL s k w) = Inr t \<and>
    (case sv_entries (storage_view s (view w)) k of
       Some (x, Some dl) \<Rightarrow> \<bar>t - max 0 (dl - rv_clock (view w))\<bar> \<le> second
     | _ \<Rightarrow> t = 0)"
proof -
  note reply = redis_backed.TTL_reply [OF assms(1) keyed_view_up [OF assms(2)], of k]
  show ?thesis
  proof (cases "sv_entries (storage_view s (view w)) k")
    case None
    then show ?thesis using reply keyed_view_entry_None [OF assms(2)] by simp
  next
    case (Some e)
    obtain x dl where e: "e = (x, dl)" by (cases e)
    with Some have "sv_entries (storage_view s (view w)) k = Some (x, dl)" by simp
    note key = keyed_view_entry_Some [OF this]
    show ?thesis
      using reply key Some e redis_ttl.secs_near [OF redis_backed.axioms [OF assms(1)]]
      by (cases dl) auto
  qed
qed

theorem RedisStorage_TTL_reply_witness:
  "fst (RedisStorage_TTL demo_storage ''k'' (empty_server 0)) = Inr 0"
  using RedisStorage_TTL_reply [OF demo.redis_backed_axioms demo_ok, of "''k''" 0]
  by (auto simp: storage_view_def)

text \<open>
  Outages are reported. For any client whatever, an error that Get or Lock returns is one the
  client gave and is not (and does not wrap) \<open>redis.Nil\<close>; so "not found" and "not acquired" are
  only said when the client said so, never because a command failed.
\<close>

theorem RedisStorage_errors:
  "(fst (RedisStorage_Get s k w) = Inr None \<longleftrightarrow>
      (\<exists>e. fst (c_get (rs_client s) (RedisStorage_makeKey s k) w) = Inl e \<and> errors_is e RedisNil)) \<and>
   (fst (RedisStorage_Lock s k ttl w) = Inr False \<longleftrightarrow>
      (\<exists>e. fst (c_set_args (rs_client s) (RedisStorage_makeLockKey s k) ''1''
        \<lparr>sa_mode = ''NX'', sa_ttl = ttl\<rparr> w) = Inl e \<and> errors_is e RedisNil)) \<and>
   (\<forall>e. fst (RedisStorage_Get s k w) = Inl e \<longrightarrow>
      fst (c_get (rs_client s) (RedisStorage_makeKey s k) w) = Inl e \<and> \<not> errors_is e RedisNil)"
  by (auto simp: RedisStorage_Get_def RedisStorage_Lock_def Let_def case_prod_unfold
      split: sum.splits if_splits)

theorem RedisStorage_errors_witness:
  "fst (RedisStorage_Get demo_storage ''k'' ((empty_server 0)\<lparr>rv_up := False\<rparr>)) \<noteq> Inr None"
  using RedisStorage_errors [of demo_storage "''k''" "(empty_server 0)\<lparr>rv_up := False\<rparr>" 0]
  by (auto simp: srv_defs refused_def)

end
