(* ===== verification/Jwt_Revocation.thy ===== *)
theory Jwt_Revocation
  imports Jwt_TokenStore Storage
begin

text \<open>
  What revoking a token means: the entries that \<open>Revoke\<close> writes, the answer of \<open>IsRevoked\<close> as a
  predicate on the entries of the storage, how long a revocation holds, and which tokens share
  one. The lemmas are proved for a token store over any backend that keeps the contract of
  \<open>storage.Storage\<close> (the locale \<open>jwt_store\<close>); the store of \<open>examples/middleware/jwtauth\<close>, on a
  RedisStorage, is an interpretation.
\<close>

abbreviation sid_of :: "claims \<Rightarrow> string option" where
  "sid_of c \<equiv> nonempty_string (claim c ''sid'')"

lemma calculateTTL_nonneg [simp]: "0 \<le> calculateTTL now c"
  by (simp add: calculateTTL_def Let_def split: option.splits)

text \<open>The entries that revoking \<open>c\<close> writes, and whether a view of the storage revokes \<open>c\<close>.\<close>

definition put_revoked ::
  "'w storage_adapter \<Rightarrow> (claims \<Rightarrow> string) \<Rightarrow> (duration \<Rightarrow> duration) \<Rightarrow> claims \<Rightarrow> storage_view \<Rightarrow>
     storage_view" where
  "put_revoked a f px c v =
     (let e = (''1'', entry_until px (sv_now v) (calculateTTL (sv_now v) c));
          v = (if f c \<noteq> '''' then put_entry (StorageAdapter_tokenKey a (f c)) e v else v)
      in case sid_of c of
           Some sid \<Rightarrow> put_entry (StorageAdapter_sessionKey a sid) e v | None \<Rightarrow> v)"

definition revoked_in ::
  "'w storage_adapter \<Rightarrow> (claims \<Rightarrow> string) \<Rightarrow> storage_view \<Rightarrow> claims \<Rightarrow> bool" where
  "revoked_in a f v c \<longleftrightarrow>
     (\<exists>sid. sid_of c = Some sid \<and> session_revoked a v sid) \<or> f c \<noteq> '''' \<and> token_revoked a v (f c)"

lemma put_revoked_sel [simp]:
  "sv_ok (put_revoked a f px c v) = sv_ok v"
  "sv_now (put_revoked a f px c v) = sv_now v"
  by (simp_all add: put_revoked_def Let_def split: option.splits)

lemma put_revoked_token:
  "f c \<noteq> '''' \<Longrightarrow> sv_entries (put_revoked a f px c v) (StorageAdapter_tokenKey a (f c)) =
     Some (''1'', entry_until px (sv_now v) (calculateTTL (sv_now v) c))"
  by (simp add: put_revoked_def Let_def split: option.splits)

lemma put_revoked_session:
  "sid_of c = Some sid \<Longrightarrow> sv_entries (put_revoked a f px c v) (StorageAdapter_sessionKey a sid) =
     Some (''1'', entry_until px (sv_now v) (calculateTTL (sv_now v) c))"
  by (simp add: put_revoked_def Let_def)

lemma revoked_in_put_revoked:
  "revoked_in a f (put_revoked a f px c v) c' \<longleftrightarrow>
     revoked_in a f v c' \<or> f c \<noteq> '''' \<and> f c' = f c \<or> sid_of c \<noteq> None \<and> sid_of c' = sid_of c"
  by (cases "sid_of c"; cases "sid_of c'")
    (auto simp: revoked_in_def revoked_defs put_revoked_def Let_def)

locale jwt_store = jwt_backend sview late elapse "ts_adapter s" px
  for sview :: "'w \<Rightarrow> storage_view" and late elapse and s :: "('w, 'key) token_store" and px +
  fixes keyFunc :: "claims \<Rightarrow> string" and clk :: "'w \<Rightarrow> instant"
  assumes key_func: "cfg_TokenKeyFunc (ts_config s) = Some keyFunc"
    and clk_now: "sv_ok (sview w) \<Longrightarrow> clk w = sv_now (sview w)"
begin

lemma Revoke_eq:
  assumes "sv_ok (sview w)"
  shows "fst (TokenStore_Revoke clk s c w) = Inr ()"
    and "sview (snd (TokenStore_Revoke clk s c w)) =
      put_revoked (ts_adapter s) keyFunc px c (sview w)"
  using assms
  by (auto simp: TokenStore_Revoke_def key_func Let_def case_prod_unfold put_revoked_def
      RevokeToken_eq RevokeSession_eq clk_now split: option.splits)

lemma IsRevoked_eq:
  assumes "sv_ok (sview w)"
  shows "fst (TokenStore_IsRevoked s c w) =
      Inr (revoked_in (ts_adapter s) keyFunc (sview w) c)"
    and "sview (snd (TokenStore_IsRevoked s c w)) = sview w"
  using assms
  by (auto simp: TokenStore_IsRevoked_def key_func Let_def case_prod_unfold
      revoked_in_def IsTokenRevoked_eq IsSessionRevoked_eq split: option.splits bool.splits)

text \<open>A claims map that shares a non-empty token key or session with the revoked one.\<close>

lemma revoked_until_expiry:
  assumes "sv_ok (sview w)"
    and "keyFunc c \<noteq> '''' \<and> keyFunc c' = keyFunc c \<or> sid_of c \<noteq> None \<and> sid_of c' = sid_of c"
    and "list_all (spares (StorageAdapter_tokenKey (ts_adapter s) (keyFunc c))) os"
    and "\<And>sid. sid_of c = Some sid \<Longrightarrow>
      list_all (spares (StorageAdapter_sessionKey (ts_adapter s) sid)) os"
    and "calculateTTL (clk w) c = 0 \<or> waited os + millisecond \<le> calculateTTL (clk w) c"
  shows "fst (TokenStore_IsRevoked s c' (storage_run (ad_storage (ts_adapter s)) elapse os
      (snd (TokenStore_Revoke clk s c w)))) = Inr True"
proof -
  let ?a = "ts_adapter s"
  let ?w = "snd (TokenStore_Revoke clk s c w)"
  let ?dl = "entry_until px (sv_now (sview w)) (calculateTTL (sv_now (sview w)) c)"
  note view = Revoke_eq(2) [OF assms(1), of c]
  have ok: "sv_ok (sview ?w)" by (simp add: view assms(1))
  have dl: "case ?dl of None \<Rightarrow> True | Some t \<Rightarrow> sv_now (sview ?w) + waited os < t"
    using assms(5) px_near [of "calculateTTL (sv_now (sview w)) c"]
      calculateTTL_nonneg [of "sv_now (sview w)" c]
    by (auto simp: view entry_until_def clk_now [OF assms(1)])
  have "sv_entries (sview (storage_run (ad_storage ?a) elapse os ?w))
      (StorageAdapter_tokenKey ?a (keyFunc c)) = Some (''1'', ?dl)" if "keyFunc c \<noteq> ''''"
    using put_revoked_token [of keyFunc c ?a px "sview w"] that
    by (intro run_keeps [OF ok assms(3) _ dl]) (simp add: view)
  moreover have "sv_entries (sview (storage_run (ad_storage ?a) elapse os ?w))
      (StorageAdapter_sessionKey ?a sid) = Some (''1'', ?dl)" if "sid_of c = Some sid" for sid
    using put_revoked_session [OF that, of ?a keyFunc px "sview w"]
    by (intro run_keeps [OF ok assms(4) [OF that] _ dl]) (simp add: view)
  ultimately show ?thesis
    using IsRevoked_eq(1) [OF run_ok [OF assms(3) ok ok], of c'] assms(2)
    by (auto simp: revoked_in_def revoked_defs)
qed

text \<open>A later revocation of the same key overwrites the deadline of the earlier one.\<close>

lemma revoke_shortens:
  assumes "sv_ok (sview w)"
    and "keyFunc c' = keyFunc c" and "sid_of c' = sid_of c"
    and "0 < calculateTTL (clk w) c'" and "px (calculateTTL (clk w) c') < d"
  shows "fst (TokenStore_IsRevoked s c (elapse d
    (snd (TokenStore_Revoke clk s c' (snd (TokenStore_Revoke clk s c w)))))) = Inr False"
proof -
  let ?a = "ts_adapter s"
  let ?w1 = "snd (TokenStore_Revoke clk s c w)"
  let ?w2 = "snd (TokenStore_Revoke clk s c' ?w1)"
  let ?dl = "sv_now (sview w) + px (calculateTTL (clk w) c')"
  have ok1: "sv_ok (sview ?w1)" by (simp add: Revoke_eq assms(1))
  have view: "sview ?w2 = put_revoked ?a keyFunc px c'
      (put_revoked ?a keyFunc px c (sview w))"
    by (simp add: Revoke_eq(2) [OF ok1] Revoke_eq(2) [OF assms(1)])
  have ok: "sv_ok (sview ?w2)" by (simp add: view assms(1))
  have d: "0 \<le> d" using assms(4,5) px_pos [OF assms(4)] by simp
  have gone: "sv_entries (sview (elapse d ?w2)) k = None"
    if "sv_entries (sview ?w2) k = Some (''1'', Some ?dl)" for k
    using that assms(5) d
    by (simp add: elapse_sview [OF ok d] age_entries_entries view survives_def late_past)
  have dl: "entry_until px (sv_now (sview w)) (calculateTTL (sv_now (sview w)) c') = Some ?dl"
    using assms(4) by (simp add: entry_until_def clk_now [OF assms(1)])
  have "\<not> revoked_in ?a keyFunc (sview (elapse d ?w2)) c"
    using gone put_revoked_token [of keyFunc c' ?a px] put_revoked_session [of c' _ ?a keyFunc px]
    by (auto simp: revoked_in_def revoked_defs view dl assms(2,3))
  then show ?thesis
    using ok d by (simp add: IsRevoked_eq elapse_sview)
qed

text \<open>What IsRevoked answers after a Revoke, from what it answered before.\<close>

lemma IsRevoked_Revoke:
  assumes "sv_ok (sview w)"
  shows "fst (TokenStore_IsRevoked s c' (snd (TokenStore_Revoke clk s c w))) =
    (if keyFunc c \<noteq> '''' \<and> keyFunc c' = keyFunc c \<or> sid_of c \<noteq> None \<and> sid_of c' = sid_of c then Inr True
     else fst (TokenStore_IsRevoked s c' w))"
proof -
  note rev = Revoke_eq [OF assms, of c]
  have "sv_ok (sview (snd (TokenStore_Revoke clk s c w)))" by (simp add: rev assms)
  then show ?thesis by (auto simp: IsRevoked_eq(1) assms rev revoked_in_put_revoked)
qed

end

section \<open>The store of the example\<close>

definition demo_keys :: "string key_set" where
  "demo_keys = \<lparr>ks_len = 1,
     ks_key = (\<lambda>i. if i = 0 then Some ''your-secret-key-at-least-32-bytes-long!'' else None)\<rparr>"

definition demo_config :: "(redis_view, string) jwt_config" where
  "demo_config =
     \<lparr>cfg_KeySet = Some demo_keys, cfg_Storage = Some (RedisStorage_ops demo_storage),
      cfg_Algorithm = ''HS256'', cfg_Issuer = '''', cfg_Audience = '''', cfg_RequiredClaims = [],
      cfg_ValidateIssuer = False, cfg_ValidateAudience = False, cfg_ValidateExpiration = False,
      cfg_ValidateNotBefore = False, cfg_TokenKeyFunc = None, cfg_KeySelector = None\<rparr>"

definition demo_jwt :: "(redis_view, string) token_store" where
  "demo_jwt = (case NewTokenStore demo_config of Inr s \<Rightarrow> s
     | Inl _ \<Rightarrow> \<lparr>ts_config = demo_config, ts_adapter = NewStorageAdapter (RedisStorage_ops demo_storage) []\<rparr>)"

lemma demo_jwt_sel [simp]:
  "cfg_TokenKeyFunc (ts_config demo_jwt) = Some defaultTokenKeyFunc"
  "cfg_KeySet (ts_config demo_jwt) = Some demo_keys"
  "cfg_Algorithm (ts_config demo_jwt) = ''HS256''"
  "ts_adapter demo_jwt = NewStorageAdapter (RedisStorage_ops demo_storage) []"
  by (simp_all add: demo_jwt_def NewTokenStore_def demo_config_def demo_keys_def Let_def)

interpretation demo_jwt: jwt_store "storage_view demo_storage" late_at "age late_at" demo_jwt
    wire_ms defaultTokenKeyFunc rv_clock
proof (intro jwt_store.intro jwt_backend.intro jwt_store_axioms.intro)
  show "kv_storage (storage_view demo_storage) late_at (age late_at)
      (ad_storage (ts_adapter demo_jwt)) wire_ms"
    using demo.is_storage by simp
qed simp_all

section \<open>Properties\<close>

text \<open>
  C7: what revoking does. Over any storage that keeps its contract, Revoke succeeds, and
  afterwards IsRevoked answers true for exactly those claims it answered true for before, those
  with the same non-empty token key and those of the same session.
\<close>

theorem jwt_revoke_exact:
  assumes "jwt_store sview late elapse s px keyFunc clk" and "sv_ok (sview w)"
  shows "fst (TokenStore_Revoke clk s c w) = Inr () \<and>
    fst (TokenStore_IsRevoked s c' (snd (TokenStore_Revoke clk s c w))) =
      Inr (fst (TokenStore_IsRevoked s c' w) = Inr True \<or>
        keyFunc c \<noteq> '''' \<and> keyFunc c' = keyFunc c \<or>
        nonempty_string (claim c ''sid'') \<noteq> None \<and>
          nonempty_string (claim c' ''sid'') = nonempty_string (claim c ''sid''))"
  by (auto simp: jwt_store.Revoke_eq(1) [OF assms] jwt_store.IsRevoked_Revoke [OF assms]
      jwt_store.IsRevoked_eq(1) [OF assms])

definition refresh_claims :: claims where
  "refresh_claims = [(''sub'', AStr ''alice''), (''sid'', AStr ''alice_1''),
     (''exp'', AInt64 604800), (''type'', AStr ''refresh'')]"

definition access_claims :: claims where
  "access_claims = [(''sub'', AStr ''alice''), (''sid'', AStr ''alice_1''), (''exp'', AInt64 900)]"

definition other_claims :: claims where
  "other_claims = [(''sub'', AStr ''bob''), (''sid'', AStr ''bob_1''), (''exp'', AInt64 900)]"

lemmas demo_claims = refresh_claims_def access_claims_def other_claims_def

lemma demo_claims_ttl:
  "calculateTTL 0 refresh_claims = 604800 * second"
  "calculateTTL 0 access_claims = 900 * second"
  "calculateTTL 1 refresh_claims = 604800 * second - 1"
  by (simp_all add: calculateTTL_def demo_claims claim_def of_unix_sec_def wrap64_def time_sub_def second_def)

lemma demo_claims_key:
  "defaultTokenKeyFunc refresh_claims = ''alice:alice_1''"
  "defaultTokenKeyFunc access_claims = ''alice:alice_1''"
  "defaultTokenKeyFunc other_claims = ''bob:bob_1''"
  by (simp_all add: defaultTokenKeyFunc_def demo_claims claim_def)

lemma demo_claims_sid:
  "sid_of refresh_claims = Some ''alice_1''"
  "sid_of access_claims = Some ''alice_1''"
  "sid_of other_claims = Some ''bob_1''"
  by (simp_all add: demo_claims claim_def)

theorem jwt_revoke_exact_witness:
  "fst (TokenStore_IsRevoked demo_jwt access_claims
     (snd (TokenStore_Revoke rv_clock demo_jwt refresh_claims (empty_server 0)))) = Inr True"
  using jwt_revoke_exact [OF demo_jwt.jwt_store_axioms demo_ok [of 0],
    where c = refresh_claims and c' = access_claims]
  by (simp add: demo_claims_key)

text \<open>
  C18: a revocation that is left alone holds until the last millisecond of the token. After Revoke,
  through any operations on the storage that neither write nor delete the entries of the revoked token
  key and session, and as long as no more time passes than the remaining lifetime of the token less one
  millisecond (for ever, if that lifetime was 0), IsRevoked answers true for every claims map with the
  same token key or session. The millisecond is what the client may cut off a lifetime; a second
  revocation of the same key or session is not left alone, and may end the first one earlier.
\<close>

theorem jwt_revoked_until_expiry:
  assumes "jwt_store sview late elapse s px keyFunc clk" and "sv_ok (sview w)"
    and "keyFunc c \<noteq> '''' \<and> keyFunc c' = keyFunc c \<or>
      nonempty_string (claim c ''sid'') \<noteq> None \<and>
        nonempty_string (claim c' ''sid'') = nonempty_string (claim c ''sid'')"
    and "list_all (spares (StorageAdapter_tokenKey (ts_adapter s) (keyFunc c))) os"
    and "\<And>sid. nonempty_string (claim c ''sid'') = Some sid \<Longrightarrow>
      list_all (spares (StorageAdapter_sessionKey (ts_adapter s) sid)) os"
    and "calculateTTL (clk w) c = 0 \<or> waited os + millisecond \<le> calculateTTL (clk w) c"
  shows "fst (TokenStore_IsRevoked s c' (storage_run (ad_storage (ts_adapter s)) elapse os
    (snd (TokenStore_Revoke clk s c w)))) = Inr True"
  by (rule jwt_store.revoked_until_expiry [OF assms])

theorem jwt_revoked_until_expiry_witness:
  "fst (TokenStore_IsRevoked demo_jwt access_claims
     (storage_run (RedisStorage_ops demo_storage) (age late_at)
       [OpWait (604799 * second), OpSet ''app'' ''1'' 0]
       (snd (TokenStore_Revoke rv_clock demo_jwt refresh_claims (empty_server 1))))) = Inr True"
  using jwt_revoked_until_expiry [OF demo_jwt.jwt_store_axioms demo_ok [of 1],
    of refresh_claims access_claims "[OpWait (604799 * second), OpSet ''app'' ''1'' 0]"]
  by (simp add: demo_claims_key demo_claims_sid demo_claims_ttl empty_server_def duration_defs
      StorageAdapter_tokenKey_def StorageAdapter_sessionKey_def)

text \<open>
  C36: revoking again can shorten a revocation. If a token with the same key and session but an
  earlier expiry is revoked after \<open>c\<close> (an access token after the refresh token of its session,
  which share the key \<open>sub:sid\<close> when they carry no \<open>jti\<close>), then \<open>c\<close> is reported as not revoked as
  soon as the second token's lifetime is over, however long \<open>c\<close> itself is still valid.
\<close>

theorem jwt_revoke_shortens:
  assumes "jwt_store sview late elapse s px keyFunc clk" and "sv_ok (sview w)"
    and "keyFunc c' = keyFunc c"
    and "nonempty_string (claim c' ''sid'') = nonempty_string (claim c ''sid'')"
    and "0 < calculateTTL (clk w) c'" and "px (calculateTTL (clk w) c') < d"
  shows "fst (TokenStore_IsRevoked s c (elapse d
    (snd (TokenStore_Revoke clk s c' (snd (TokenStore_Revoke clk s c w)))))) = Inr False"
  by (rule jwt_store.revoke_shortens [OF assms])

theorem jwt_revoke_shortens_witness:
  "fst (TokenStore_IsRevoked demo_jwt refresh_claims (age late_at (901 * second)
     (snd (TokenStore_Revoke rv_clock demo_jwt access_claims
       (snd (TokenStore_Revoke rv_clock demo_jwt refresh_claims (empty_server 0))))))) = Inr False"
  using jwt_revoke_shortens [OF demo_jwt.jwt_store_axioms demo_ok [of 0],
    of access_claims refresh_claims "901 * second"]
  by (simp add: demo_claims_key demo_claims_sid demo_claims_ttl wire_ms_exact duration_defs)

text \<open>
  The default token key. For subjects without a colon, two claims maps have the same key
  exactly when they have the same subject and the same identifier: the non-empty \<open>jti\<close>, else the
  non-empty \<open>sid\<close>, else the decimal digits of an \<open>int64\<close> or \<open>float64\<close> \<open>exp\<close> (0 without one).
\<close>

theorem jwt_token_key_injective:
  assumes "CHR '':'' \<notin> set (string_or_zero (claim c ''sub''))"
    and "CHR '':'' \<notin> set (string_or_zero (claim d ''sub''))"
  shows "defaultTokenKeyFunc c = defaultTokenKeyFunc d \<longleftrightarrow>
    string_or_zero (claim c ''sub'') = string_or_zero (claim d ''sub'') \<and>
    token_ident c = token_ident d"
  by (rule defaultTokenKeyFunc_eq [OF assms])

theorem jwt_token_key_injective_witness:
  "defaultTokenKeyFunc refresh_claims \<noteq> defaultTokenKeyFunc other_claims"
  using jwt_token_key_injective [of refresh_claims other_claims]
  by (simp add: demo_claims)

text \<open>
  A colon in the subject or the identifier makes keys collide. Under the default key,
  revoking the token of subject \<open>u\<close> with \<open>jti\<close> "v:x" revokes the token of subject "u:v" with
  \<open>jti\<close> "x".
\<close>

theorem jwt_colon_collision:
  assumes "jwt_store sview late elapse s px defaultTokenKeyFunc clk" and "sv_ok (sview w)"
    and "x \<noteq> ''''"
  shows "fst (TokenStore_IsRevoked s [(''sub'', AStr (u @ '':'' @ v)), (''jti'', AStr x)]
    (snd (TokenStore_Revoke clk s [(''sub'', AStr u), (''jti'', AStr (v @ '':'' @ x))] w))) = Inr True"
proof -
  have "defaultTokenKeyFunc [(''sub'', AStr (u @ '':'' @ v)), (''jti'', AStr x)] =
      defaultTokenKeyFunc [(''sub'', AStr u), (''jti'', AStr (v @ '':'' @ x))]"
    using assms(3) by (simp add: defaultTokenKeyFunc_def Let_def)
  then show ?thesis
    using jwt_store.Revoke_eq [OF assms(1,2)] jwt_store.IsRevoked_eq(1) [OF assms(1)]
    by (simp add: assms(2) revoked_in_put_revoked)
qed

theorem jwt_colon_collision_witness:
  "fst (TokenStore_IsRevoked demo_jwt [(''sub'', AStr ''org:alice''), (''jti'', AStr ''7'')]
    (snd (TokenStore_Revoke rv_clock demo_jwt
      [(''sub'', AStr ''org''), (''jti'', AStr ''alice:7'')] (empty_server 0)))) = Inr True"
  using jwt_colon_collision [OF demo_jwt.jwt_store_axioms demo_ok [of 0], of "''7''" "''org''" "''alice''"]
  by simp

text \<open>
  An expiry given as a \<open>time.Time\<close>. The lifetime of a revocation honours it, the default key
  does not: without \<open>jti\<close> and \<open>sid\<close>, all tokens of a subject whose \<open>exp\<close> is a \<open>time.Time\<close> have the
  key "sub:0", and revoking one of them revokes every other one.
\<close>

theorem jwt_time_exp_collision:
  assumes "jwt_store sview late elapse s px defaultTokenKeyFunc clk" and "sv_ok (sview w)"
    and "claim c ''exp'' = ATime t" and "claim c' ''exp'' = ATime t'"
    and "nonempty_string (claim c ''jti'') = None" and "nonempty_string (claim c ''sid'') = None"
    and "nonempty_string (claim c' ''jti'') = None" and "nonempty_string (claim c' ''sid'') = None"
    and "claim c ''sub'' = claim c' ''sub''"
  shows "calculateTTL (clk w) c = max 0 (time_sub t (clk w)) \<and>
    defaultTokenKeyFunc c = string_or_zero (claim c ''sub'') @ '':0'' \<and>
    fst (TokenStore_IsRevoked s c' (snd (TokenStore_Revoke clk s c w))) = Inr True"
proof -
  have key: "defaultTokenKeyFunc c = string_or_zero (claim c ''sub'') @ '':0''"
    "defaultTokenKeyFunc c' = defaultTokenKeyFunc c"
    using assms(3-9)
    by (simp_all add: defaultTokenKeyFunc_def int64_or_zero_def)
  have "calculateTTL (clk w) c = max 0 (time_sub t (clk w))"
    using assms(3) by (simp add: calculateTTL_def Let_def)
  then show ?thesis
    using key jwt_store.Revoke_eq [OF assms(1,2)] jwt_store.IsRevoked_eq(1) [OF assms(1)]
    by (simp add: assms(2) revoked_in_put_revoked)
qed

theorem jwt_time_exp_collision_witness:
  "fst (TokenStore_IsRevoked demo_jwt [(''sub'', AStr ''bob''), (''exp'', ATime (7 * second))]
    (snd (TokenStore_Revoke rv_clock demo_jwt
      [(''sub'', AStr ''bob''), (''exp'', ATime (5 * second))] (empty_server 0)))) = Inr True"
  using jwt_time_exp_collision [OF demo_jwt.jwt_store_axioms demo_ok [of 0],
    of "[(''sub'', AStr ''bob''), (''exp'', ATime (5 * second))]" "5 * second"
      "[(''sub'', AStr ''bob''), (''exp'', ATime (7 * second))]" "7 * second"]
  by simp

text \<open>
  C32: a failing storage never lets a revoked token pass. For any storage whatever: IsRevoked
  answers "not revoked" only if every lookup it had to make was answered "not found"; an error
  of a lookup is an error of IsRevoked.
\<close>

theorem jwt_IsRevoked_fails_closed:
  assumes "cfg_TokenKeyFunc (ts_config s) = Some f"
    and "TokenStore_IsRevoked s c w = (Inr False, w')"
  shows "(\<forall>sid. nonempty_string (claim c ''sid'') = Some sid \<longrightarrow>
      fst (so_get (ad_storage (ts_adapter s)) (StorageAdapter_sessionKey (ts_adapter s) sid) w) = Inr None) \<and>
    (f c \<noteq> '''' \<longrightarrow>
      fst (so_get (ad_storage (ts_adapter s)) (StorageAdapter_tokenKey (ts_adapter s) (f c))
        (case nonempty_string (claim c ''sid'') of
           None \<Rightarrow> w
         | Some sid \<Rightarrow>
             snd (so_get (ad_storage (ts_adapter s)) (StorageAdapter_sessionKey (ts_adapter s) sid) w)))
      = Inr None)"
  using assms
  by (auto simp: TokenStore_IsRevoked_def StorageAdapter_IsSessionRevoked_def
      StorageAdapter_IsTokenRevoked_def Let_def case_prod_unfold map_err_def
      split: option.splits sum.splits bool.splits if_splits)

theorem jwt_IsRevoked_fails_closed_witness:
  "fst (so_get (RedisStorage_ops demo_storage) ''jwt:session:bob_1'' (empty_server 0)) = Inr None"
proof -
  let ?r = "TokenStore_IsRevoked demo_jwt other_claims (empty_server 0)"
  have "?r = (Inr False, snd ?r)"
    by (simp add: prod_eq_iff demo_jwt.IsRevoked_eq revoked_in_def revoked_defs storage_view_def)
  from jwt_IsRevoked_fails_closed [OF demo_jwt_sel(1) this] show ?thesis
    by (simp add: demo_claims_sid StorageAdapter_sessionKey_def)
qed

end
