(* ===== verification/Utf8.thy ===== *)
theory Utf8
  imports Prelude
begin

text \<open>
  UTF-8 as Go's \<open>unicode/utf8\<close> reads it. A Go string is a sequence of bytes (a \<open>char list\<close>); where
  \<open>encoding/json\<close> finds bytes that are not the shortest encoding of a rune outside the surrogates,
  it writes the replacement character U+FFFD for each of them (\<open>to_valid\<close>).
\<close>

abbreviation code :: "char \<Rightarrow> nat" where
  "code c \<equiv> of_char c"

definition continuation :: "char \<Rightarrow> bool" where
  "continuation c \<longleftrightarrow> 0x80 \<le> code c \<and> code c \<le> 0xBF"

text \<open>The bounds of the second byte of a rune of three or four bytes, by its first byte.\<close>

definition second_ok :: "char \<Rightarrow> char \<Rightarrow> bool" where
  "second_ok a b \<longleftrightarrow>
     (if code a = 0xE0 then 0xA0 else if code a = 0xF0 then 0x90 else 0x80) \<le> code b \<and>
     code b \<le> (if code a = 0xED then 0x9F else if code a = 0xF4 then 0x8F else 0xBF)"

text \<open>The length of the rune at the head of a string, 0 if there is none.\<close>

definition rune_len :: "string \<Rightarrow> nat" where
  "rune_len s = (case s of
     [] \<Rightarrow> 0
   | a # s1 \<Rightarrow>
       if code a < 0x80 then 1
       else (case s1 of
         [] \<Rightarrow> 0
       | b # s2 \<Rightarrow>
           if 0xC2 \<le> code a \<and> code a \<le> 0xDF then if continuation b then 2 else 0
           else (case s2 of
             [] \<Rightarrow> 0
           | c # s3 \<Rightarrow>
               if 0xE0 \<le> code a \<and> code a \<le> 0xEF
               then if second_ok a b \<and> continuation c then 3 else 0
               else (case s3 of
                 [] \<Rightarrow> 0
               | d # s4 \<Rightarrow>
                   if 0xF0 \<le> code a \<and> code a \<le> 0xF4 \<and> second_ok a b \<and> continuation c \<and> continuation d
                   then 4 else 0))))"

definition rune_error :: string where
  "rune_error = [CHR 0xEF, CHR 0xBF, CHR 0xBD]"

function to_valid :: "string \<Rightarrow> string" where
  "to_valid [] = []"
| "to_valid (c # cs) =
     (if rune_len (c # cs) = 0 then rune_error @ to_valid cs
      else take (rune_len (c # cs)) (c # cs) @ to_valid (drop (rune_len (c # cs)) (c # cs)))"
  by pat_completeness auto

termination by (relation "measure length") auto

declare to_valid.simps(2) [simp del]

definition valid_utf8 :: "string \<Rightarrow> bool" where
  "valid_utf8 s \<longleftrightarrow> to_valid s = s"

lemma rune_len_1: "code a < 0x80 \<Longrightarrow> rune_len (a # s) = 1"
  by (simp add: rune_len_def)

lemma rune_len_2:
  assumes "\<not> code a < 0x80" and "0xC2 \<le> code a \<and> code a \<le> 0xDF"
  shows "rune_len (a # s) = (case s of [] \<Rightarrow> 0 | b # _ \<Rightarrow> if continuation b then 2 else 0)"
  using assms by (simp add: rune_len_def split: list.split)

lemma rune_len_3:
  assumes "0xE0 \<le> code a \<and> code a \<le> 0xEF"
  shows "rune_len (a # s) = (case s of b # c # _ \<Rightarrow> if second_ok a b \<and> continuation c then 3 else 0 | _ \<Rightarrow> 0)"
  using assms by (simp add: rune_len_def split: list.split)

lemma rune_len_4:
  assumes "\<not> code a < 0x80" and "\<not> (0xC2 \<le> code a \<and> code a \<le> 0xDF)"
    and "\<not> (0xE0 \<le> code a \<and> code a \<le> 0xEF)"
  shows "rune_len (a # s) = (case s of b # c # d # _ \<Rightarrow>
    if 0xF0 \<le> code a \<and> code a \<le> 0xF4 \<and> second_ok a b \<and> continuation c \<and> continuation d then 4 else 0
    | _ \<Rightarrow> 0)"
  using assms unfolding rune_len_def by (simp only: list.case if_False)

lemma rune_len_prefix:
  assumes "0 < rune_len s"
  shows "rune_len (take (rune_len s) s @ t) = rune_len s" and "rune_len s \<le> length s"
proof -
  obtain a u where s: "s = a # u" using assms by (cases s) (auto simp: rune_len_def)
  consider "code a < 0x80" | "\<not> code a < 0x80" "0xC2 \<le> code a \<and> code a \<le> 0xDF"
    | "0xE0 \<le> code a \<and> code a \<le> 0xEF"
    | "\<not> code a < 0x80" "\<not> (0xC2 \<le> code a \<and> code a \<le> 0xDF)" "\<not> (0xE0 \<le> code a \<and> code a \<le> 0xEF)"
    by blast
  then have "rune_len (take (rune_len s) s @ t) = rune_len s \<and> rune_len s \<le> length s"
  proof cases
    case 1
    then show ?thesis by (simp add: s rune_len_1)
  next
    case 2
    then show ?thesis using assms unfolding s rune_len_2 [OF 2]
      by (auto simp: rune_len_2 [OF 2] split: list.splits if_splits)
  next
    case 3
    then show ?thesis using assms unfolding s rune_len_3 [OF 3]
      by (auto simp: rune_len_3 [OF 3] split: list.splits if_splits)
  next
    case 4
    then show ?thesis using assms unfolding s rune_len_4 [OF 4]
      by (auto simp: rune_len_4 [OF 4] split: list.splits if_splits)
  qed
  then show "rune_len (take (rune_len s) s @ t) = rune_len s" and "rune_len s \<le> length s" by auto
qed

lemma rune_len_error [simp]: "rune_len (rune_error @ t) = 3"
  by (simp add: rune_len_def rune_error_def second_ok_def continuation_def)

lemma to_valid_rune:
  assumes "rune_len (take n s @ t) = n" and "0 < n" and "n \<le> length s"
  shows "to_valid (take n s @ t) = take n s @ to_valid t"
proof -
  obtain c cs where s: "take n s @ t = c # cs" using assms by (cases "take n s @ t") auto
  have "to_valid (c # cs) = take n (c # cs) @ to_valid (drop n (c # cs))"
    using assms(1,2) by (simp add: to_valid.simps s)
  then show ?thesis using assms(3) by (simp flip: s)
qed

lemma to_valid_error: "to_valid (rune_error @ t) = rune_error @ to_valid t"
  using to_valid_rune [of 3 rune_error t] by (simp add: rune_error_def) (simp add: rune_error_def rune_len_def second_ok_def continuation_def)

lemma to_valid_idem [simp]: "to_valid (to_valid s) = to_valid s"
proof (induction s rule: to_valid.induct)
  case (2 c cs)
  show ?case
  proof (cases "rune_len (c # cs) = 0")
    case True
    then show ?thesis using 2(1) by (simp add: to_valid.simps(2) [of c cs] to_valid_error)
  next
    case False
    let ?n = "rune_len (c # cs)"
    have "to_valid (take ?n (c # cs) @ to_valid (drop ?n (c # cs))) =
        take ?n (c # cs) @ to_valid (to_valid (drop ?n (c # cs)))"
      using rune_len_prefix [of "c # cs"] False by (intro to_valid_rune) auto
    then show ?thesis using 2(2) [OF False] False by (simp only: to_valid.simps(2) [of c cs] if_False)
  qed
qed simp

lemma valid_to_valid [simp]: "valid_utf8 (to_valid s)"
  by (simp add: valid_utf8_def)

lemma valid_Nil [simp]: "valid_utf8 []"
  by (simp add: valid_utf8_def)

text \<open>A name in ASCII is the text of no other name.\<close>

lemma to_valid_ascii: "list_all (\<lambda>c. code c < 0x80) (to_valid s) \<Longrightarrow> to_valid s = s"
proof (induction s rule: to_valid.induct)
  case (2 c cs)
  show ?case
  proof (cases "rune_len (c # cs) = 0")
    case True
    then show ?thesis using 2(3) by (simp add: to_valid.simps(2) [of c cs] rune_error_def)
  next
    case False
    then have "list_all (\<lambda>c. code c < 0x80) (to_valid (drop (rune_len (c # cs)) (c # cs)))"
      using 2(3) by (simp add: to_valid.simps(2) [of c cs])
    from 2(2) [OF False this] False show ?thesis
      by (simp only: to_valid.simps(2) [of c cs] if_False append_take_drop_id)
  qed
qed simp

lemma to_valid_eq_Nil [simp]: "to_valid s = [] \<longleftrightarrow> s = []"
  by (cases s) (auto simp: to_valid.simps(2) rune_error_def)

lemma ascii_valid: "list_all (\<lambda>c. code c < 0x80) s \<Longrightarrow> valid_utf8 s"
  unfolding valid_utf8_def
  by (induction s rule: to_valid.induct) (auto simp: to_valid.simps(2) rune_len_def)

end
