(* ===== verification/Jwt_Tokens.thy ===== *)
theory Jwt_Tokens
  imports Jwt_Revocation Utf8 "HOL-Library.Countable"
begin

text \<open>
  What \<open>Generate\<close> puts into a token and what \<open>Validate\<close> accepts and returns. The locale \<open>jwx\<close>
  holds what is relied on of the JWT library: a builder keeps the last value set for each claim
  name, the accessors read it back, and parsing a signed token with the same key, while the
  token is current, gives a token with the same claims, up to what JSON keeps of a string: it
  puts the replacement character for bytes that are not UTF-8.
\<close>

section \<open>The claims that builder calls set\<close>

fun call_field :: "builder_call \<Rightarrow> string" where
  "call_field (BSubject _) = ''sub''"
| "call_field (BIssuer _) = ''iss''"
| "call_field (BAudience _) = ''aud''"
| "call_field (BIssuedAt _) = ''iat''"
| "call_field (BNotBefore _) = ''nbf''"
| "call_field (BExpiration _) = ''exp''"
| "call_field (BJwtID _) = ''jti''"
| "call_field (BClaim k _) = k"

definition last_call :: "string \<Rightarrow> builder_call list \<Rightarrow> builder_call option" where
  "last_call k cs = (case filter (\<lambda>c. call_field c = k) (rev cs) of [] \<Rightarrow> None | c # _ \<Rightarrow> Some c)"

lemma last_call_Nil [simp]: "last_call k [] = None"
  by (simp add: last_call_def)

lemma last_call_append:
  "last_call k (cs @ ds) = (case last_call k ds of None \<Rightarrow> last_call k cs | Some c \<Rightarrow> Some c)"
  by (auto simp: last_call_def split: list.splits)

lemma last_call_single [simp]: "last_call k [c] = (if call_field c = k then Some c else None)"
  by (simp add: last_call_def)

lemma last_call_Cons:
  "last_call k (c # cs) = (case last_call k cs of
     None \<Rightarrow> if call_field c = k then Some c else None | Some d \<Rightarrow> Some d)"
  using last_call_append [of k "[c]" cs] by (simp split: option.splits)

lemma last_call_field: "last_call k cs = Some c \<Longrightarrow> call_field c = k \<and> c \<in> set cs"
  by (auto simp: last_call_def split: list.splits dest!: filter_eq_ConsD)
    (metis in_set_conv_decomp set_rev)

text \<open>A claim makes at most one call, and that call sets the claim of its own name.\<close>

lemma claim_calls_shape: "claim_calls k v = [] \<or> (\<exists>c. claim_calls k v = [c] \<and> call_field c = k)"
  by (auto simp: claim_calls_def split: any.splits option.splits)

definition claim_call :: "string \<Rightarrow> any \<Rightarrow> builder_call option" where
  "claim_call k v = (case claim_calls k v of [] \<Rightarrow> None | c # _ \<Rightarrow> Some c)"

lemma last_call_claim_calls: "last_call k (claim_calls j v) = (if j = k then claim_call k v else None)"
  using claim_calls_shape [of j v] by (auto simp: claim_call_def)

definition map_calls :: "claims \<Rightarrow> builder_call list" where
  "map_calls m = concat (map (\<lambda>(k, v). claim_calls k v) m)"

lemma map_calls_simps [simp]:
  "map_calls [] = []"
  "map_calls ((k, v) # m) = claim_calls k v @ map_calls m"
  by (simp_all add: map_calls_def)

lemma last_call_absent: "map_of m k = None \<Longrightarrow> last_call k (map_calls m) = None"
  by (induction m) (auto simp: last_call_append last_call_claim_calls split: if_splits)

lemma last_call_map_calls:
  "is_map m \<Longrightarrow> last_call k (map_calls m) = Option.bind (map_of m k) (claim_call k)"
proof (induction m)
  case (Cons e m)
  obtain j v where e: "e = (j, v)" by (cases e)
  have "is_map m" and "j \<notin> fst ` set m" using Cons.prems by (auto simp: is_map_def e)
  then show ?case
    using Cons.IH last_call_absent [of m j]
    by (auto simp: e last_call_append last_call_claim_calls map_of_eq_None_iff split: option.splits)
qed simp

section \<open>What Generate sets\<close>

lemma generate_calls_eq:
  "generate_calls lib s now1 now2 m tt ttl =
     map_calls m
     @ (if cfg_Issuer (ts_config s) \<noteq> '''' \<and> \<not> has_claim m ''iss''
        then [BIssuer (cfg_Issuer (ts_config s))] else [])
     @ (if cfg_Audience (ts_config s) \<noteq> '''' \<and> \<not> has_claim m ''aud''
        then [BAudience [cfg_Audience (ts_config s)]] else [])
     @ (if ttl > 0 then [BExpiration (now1 + ttl)] else [])
     @ (if \<not> has_claim m ''iat'' then [BIssuedAt now2] else [])
     @ (if tt = RefreshToken then [BClaim ''type'' (jx_type_refresh lib)] else [])"
  by (simp add: generate_calls_def map_calls_def)

lemma last_generate:
  assumes "is_map m"
  shows "last_call k (generate_calls lib s now1 now2 m tt ttl) =
    (if k = ''type'' \<and> tt = RefreshToken then Some (BClaim ''type'' (jx_type_refresh lib))
     else if k = ''iat'' \<and> \<not> has_claim m ''iat'' then Some (BIssuedAt now2)
     else if k = ''exp'' \<and> 0 < ttl then Some (BExpiration (now1 + ttl))
     else if k = ''aud'' \<and> \<not> has_claim m ''aud'' \<and> cfg_Audience (ts_config s) \<noteq> ''''
       then Some (BAudience [cfg_Audience (ts_config s)])
     else if k = ''iss'' \<and> \<not> has_claim m ''iss'' \<and> cfg_Issuer (ts_config s) \<noteq> ''''
       then Some (BIssuer (cfg_Issuer (ts_config s)))
     else Option.bind (map_of m k) (claim_call k))"
  using last_call_map_calls [OF assms, of k]
  by (auto simp: generate_calls_eq last_call_append last_call_Cons)

lemma claim_call_exp [simp]: "claim_call ''exp'' v = None"
  by (simp add: claim_call_def claim_calls_def)

lemma claim_call_simps:
  "claim_call ''sub'' (AStr x) = Some (BSubject x)"
  "claim_call ''iss'' (AStr x) = Some (BIssuer x)"
  "claim_call ''aud'' (AStr x) = Some (BAudience [x])"
  "claim_call ''jti'' (AStr x) = Some (BJwtID x)"
  "\<not> isStandardClaim k \<Longrightarrow> claim_call k v = Some (BClaim k v)"
  by (auto simp: claim_call_def claim_calls_def isStandardClaim_def)

text \<open>The builder calls of two iteration orders of the same map set the same claims.\<close>

lemma generate_order:
  assumes "is_map m" and "is_map m'" and "set m = set m'"
  shows "last_call k (generate_calls lib s now1 now2 m tt ttl) =
    last_call k (generate_calls lib s now1 now2 m' tt ttl)"
proof -
  have "map_of m = map_of m'" using assms by (simp add: is_map_def map_of_inject_set)
  then show ?thesis
    using claim_perm(2) [OF assms] by (simp add: last_generate assms(1,2))
qed

section \<open>What Validate returns\<close>

lemma isStandardClaim_iff:
  "isStandardClaim k \<longleftrightarrow> k = ''sub'' \<or> k = ''iss'' \<or> k = ''aud'' \<or> k = ''exp'' \<or> k = ''iat'' \<or>
     k = ''nbf'' \<or> k = ''jti''"
  by (simp add: isStandardClaim_def)

lemma isStandardClaim_cases [consumes 1]:
  assumes "isStandardClaim k"
  obtains "k = ''sub''" | "k = ''iss''" | "k = ''aud''" | "k = ''exp''" | "k = ''iat''"
    | "k = ''nbf''" | "k = ''jti''"
  using assms unfolding isStandardClaim_iff by iprover

lemma map_of_put_some:
  "map_of (put_some j f x m) k =
     (if j = k then (case x of None \<Rightarrow> map_of m k | Some v \<Rightarrow> Some (f v)) else map_of m k)"
  by (simp add: put_some_def update_conv split: option.splits)

lemma map_of_put_private:
  "map_of (put_private lib t j m) k =
     (if j = k \<and> \<not> isStandardClaim k
      then (case jx_get lib t k of Inl _ \<Rightarrow> map_of m k | Inr v \<Rightarrow> Some v) else map_of m k)"
  by (simp add: put_private_def update_conv split: sum.splits)

lemma map_of_fold_private:
  "map_of (fold (put_private lib t) ks m) k =
     (if k \<in> set ks \<and> \<not> isStandardClaim k
      then (case jx_get lib t k of Inl _ \<Rightarrow> map_of m k | Inr v \<Rightarrow> Some v) else map_of m k)"
  by (induction ks arbitrary: m) (auto simp: map_of_put_private split: sum.splits)

lemma put_some_is_map: "is_map m \<Longrightarrow> is_map (put_some k f x m)"
  by (simp add: is_map_def put_some_def distinct_update split: option.splits)

lemma fold_private_is_map: "is_map m \<Longrightarrow> is_map (fold (put_private lib t) ks m)"
  by (induction ks arbitrary: m)
    (auto simp: is_map_def put_private_def distinct_update split: sum.splits)

lemma tokenToMap_is_map: "is_map (tokenToMap lib t)"
  unfolding tokenToMap_def Let_def
  by (intro fold_private_is_map put_some_is_map) (simp add: is_map_def)

lemma map_of_tokenToMap:
  "map_of (tokenToMap lib t) k =
     (if k = ''sub'' then map_option AStr (jx_subject lib t)
      else if k = ''iss'' then map_option AStr (jx_issuer lib t)
      else if k = ''aud'' then map_option AStrs (jx_audience lib t)
      else if k = ''exp'' then map_option (\<lambda>x. AInt64 (wrap64 (unix_sec x))) (jx_expiration lib t)
      else if k = ''iat'' then map_option (\<lambda>x. AInt64 (wrap64 (unix_sec x))) (jx_issued_at lib t)
      else if k = ''nbf'' then map_option (\<lambda>x. AInt64 (wrap64 (unix_sec x))) (jx_not_before lib t)
      else if k = ''jti'' then map_option AStr (jx_jwt_id lib t)
      else if k \<in> set (jx_keys lib t)
        then (case jx_get lib t k of Inl _ \<Rightarrow> None | Inr v \<Rightarrow> Some v)
      else None)"
proof (cases "isStandardClaim k")
  case True
  then show ?thesis
    by (cases rule: isStandardClaim_cases) (simp_all add: isStandardClaim_iff tokenToMap_def Let_def map_of_fold_private
        map_of_put_some split: option.split)
next
  case False
  then have "k \<noteq> ''sub''" "k \<noteq> ''iss''" "k \<noteq> ''aud''" "k \<noteq> ''exp''" "k \<noteq> ''iat''"
    "k \<noteq> ''nbf''" "k \<noteq> ''jti''"
    by (simp_all add: isStandardClaim_iff)
  with False show ?thesis
    by (simp add: tokenToMap_def Let_def map_of_fold_private map_of_put_some split: sum.split)
qed

lemma Validate_Inr:
  "TokenStore_Validate lib s now str = Inr c \<longleftrightarrow>
     (\<exists>key t. TokenStore_getJWKKey s 0 = Inr key \<and>
       jx_parse lib now str (validate_options s key) = Inr t \<and>
       (cfg_ValidateIssuer (ts_config s) \<and> cfg_Issuer (ts_config s) \<noteq> '''' \<longrightarrow>
         jx_issuer lib t = Some (cfg_Issuer (ts_config s))) \<and>
       (cfg_ValidateAudience (ts_config s) \<and> cfg_Audience (ts_config s) \<noteq> '''' \<longrightarrow>
         (\<exists>aud. jx_audience lib t = Some aud \<and> cfg_Audience (ts_config s) \<in> set aud)) \<and>
       c = tokenToMap lib t)"
proof (cases "TokenStore_getJWKKey s 0")
  case key: (Inr key)
  show ?thesis
  proof (cases "jx_parse lib now str (validate_options s key)")
    case (Inr t)
    then show ?thesis
      by (auto simp: TokenStore_Validate_def key list_ex_iff errInvalidIssuer_def
          split: option.splits)
  qed (simp add: TokenStore_Validate_def key)
qed (simp add: TokenStore_Validate_def)

section \<open>The library\<close>

text \<open>A token that the library's own checks of "exp", "nbf" and "iat" let pass.\<close>

definition token_current :: "('key, 'tok) jwt_lib \<Rightarrow> instant \<Rightarrow> 'tok \<Rightarrow> bool" where
  "token_current lib now t \<longleftrightarrow>
     (case jx_expiration lib t of None \<Rightarrow> True | Some e \<Rightarrow> unix_sec now < unix_sec e) \<and>
     (case jx_not_before lib t of None \<Rightarrow> True | Some n \<Rightarrow> unix_sec n \<le> unix_sec now) \<and>
     (case jx_issued_at lib t of None \<Rightarrow> True | Some i \<Rightarrow> unix_sec i \<le> unix_sec now)"

text \<open>
  What survives the JSON text of a token: the registered claims, times to the second, and private
  claims that are strings (numbers and nested values may come back with another Go type). Strings
  come back with the replacement character for every byte that is not UTF-8 (\<open>to_valid\<close>); so may
  the names of private claims, and nothing is said of a name that is not UTF-8 or that another name
  of the token is turned into.
\<close>

definition clean_name :: "string set \<Rightarrow> string \<Rightarrow> bool" where
  "clean_name ks k \<longleftrightarrow> valid_utf8 k \<and> (\<forall>j\<in>ks. to_valid j = k \<longrightarrow> j = k)"

definition json_string :: "any \<Rightarrow> any" where
  "json_string v = (case v of AStr x \<Rightarrow> AStr (to_valid x) | _ \<Rightarrow> v)"

lemma json_string_AStr [simp]: "json_string (AStr x) = AStr (to_valid x)"
  by (simp add: json_string_def)

lemma ascii_clean_name: "list_all (\<lambda>c. code c < 0x80) k \<Longrightarrow> clean_name ks k"
  by (auto simp: clean_name_def ascii_valid dest: to_valid_ascii)

definition same_claims :: "('key, 'tok) jwt_lib \<Rightarrow> 'tok \<Rightarrow> 'tok \<Rightarrow> bool" where
  "same_claims lib t u \<longleftrightarrow>
     jx_subject lib u = map_option to_valid (jx_subject lib t) \<and>
     jx_issuer lib u = map_option to_valid (jx_issuer lib t) \<and>
     jx_audience lib u = map_option (map to_valid) (jx_audience lib t) \<and>
     jx_jwt_id lib u = map_option to_valid (jx_jwt_id lib t) \<and>
     map_option unix_sec (jx_expiration lib u) = map_option unix_sec (jx_expiration lib t) \<and>
     map_option unix_sec (jx_issued_at lib u) = map_option unix_sec (jx_issued_at lib t) \<and>
     map_option unix_sec (jx_not_before lib u) = map_option unix_sec (jx_not_before lib t) \<and>
     (\<forall>k x. \<not> isStandardClaim k \<and> clean_name (set (jx_keys lib t)) k \<and>
        k \<in> set (jx_keys lib t) \<and> jx_get lib t k = Inr (AStr x) \<longrightarrow>
        k \<in> set (jx_keys lib u) \<and> jx_get lib u k = Inr (AStr (to_valid x)))"

definition plain_calls :: "builder_call list \<Rightarrow> bool" where
  "plain_calls cs \<longleftrightarrow> (\<forall>k v. BClaim k v \<in> set cs \<longrightarrow> \<not> isStandardClaim k)"

locale jwx =
  fixes lib :: "('key, 'tok) jwt_lib"
  assumes build_fields: "(\<And>k. last_call k cs = last_call k cs') \<Longrightarrow> jx_build lib cs = jx_build lib cs'"
    and build_subject: "jx_build lib cs = Inr t \<Longrightarrow> plain_calls cs \<Longrightarrow>
      jx_subject lib t = (case last_call ''sub'' cs of Some (BSubject x) \<Rightarrow> Some x | _ \<Rightarrow> None)"
    and build_issuer: "jx_build lib cs = Inr t \<Longrightarrow> plain_calls cs \<Longrightarrow>
      jx_issuer lib t = (case last_call ''iss'' cs of Some (BIssuer x) \<Rightarrow> Some x | _ \<Rightarrow> None)"
    and build_jwt_id: "jx_build lib cs = Inr t \<Longrightarrow> plain_calls cs \<Longrightarrow>
      jx_jwt_id lib t = (case last_call ''jti'' cs of Some (BJwtID x) \<Rightarrow> Some x | _ \<Rightarrow> None)"
    and build_audience: "jx_build lib cs = Inr t \<Longrightarrow> plain_calls cs \<Longrightarrow>
      last_call ''aud'' cs \<noteq> Some (BAudience []) \<Longrightarrow>
      jx_audience lib t = (case last_call ''aud'' cs of Some (BAudience x) \<Rightarrow> Some x | _ \<Rightarrow> None)"
    and build_expiration: "jx_build lib cs = Inr t \<Longrightarrow> plain_calls cs \<Longrightarrow>
      map_option unix_sec (jx_expiration lib t) =
        (case last_call ''exp'' cs of Some (BExpiration x) \<Rightarrow> Some (unix_sec x) | _ \<Rightarrow> None)"
    and build_issued_at: "jx_build lib cs = Inr t \<Longrightarrow> plain_calls cs \<Longrightarrow>
      map_option unix_sec (jx_issued_at lib t) =
        (case last_call ''iat'' cs of Some (BIssuedAt x) \<Rightarrow> Some (unix_sec x) | _ \<Rightarrow> None)"
    and build_not_before: "jx_build lib cs = Inr t \<Longrightarrow> plain_calls cs \<Longrightarrow>
      map_option unix_sec (jx_not_before lib t) =
        (case last_call ''nbf'' cs of Some (BNotBefore x) \<Rightarrow> Some (unix_sec x) | _ \<Rightarrow> None)"
    and build_private: "jx_build lib cs = Inr t \<Longrightarrow> plain_calls cs \<Longrightarrow> \<not> isStandardClaim k \<Longrightarrow>
      last_call k cs = Some (BClaim k v) \<Longrightarrow> k \<in> set (jx_keys lib t) \<and> jx_get lib t k = Inr v"
    and build_keys: "jx_build lib cs = Inr t \<Longrightarrow> plain_calls cs \<Longrightarrow> k \<in> set (jx_keys lib t) \<Longrightarrow>
      k \<in> call_field ` set cs"
    and parse_sign: "jx_sign lib t alg key = Inr str \<Longrightarrow> token_current lib now t \<Longrightarrow>
      os \<in> {[], [WithValidate True]} \<Longrightarrow>
      \<exists>u. jx_parse lib now str (WithKey alg key # os) = Inr u \<and> same_claims lib t u"

lemma claim_calls_private:
  assumes "BClaim j x \<in> set (claim_calls k v)"
  shows "\<not> isStandardClaim j"
proof -
  have "j = k" using assms claim_calls_shape [of k v] by auto
  moreover have "\<not> isStandardClaim k"
  proof
    assume "isStandardClaim k"
    then show False
      using assms by (cases rule: isStandardClaim_cases) (simp_all add: claim_calls_def split: any.splits option.splits)
  qed
  ultimately show ?thesis by simp
qed

lemma map_calls_plain: "plain_calls (map_calls m)"
  using claim_calls_private by (auto simp: plain_calls_def map_calls_def)

lemma not_standard_type: "\<not> isStandardClaim ''type''"
  by (simp add: isStandardClaim_def)

lemma generate_plain: "plain_calls (generate_calls lib s now1 now2 m tt ttl)"
  using map_calls_plain [of m] not_standard_type by (auto simp: generate_calls_eq plain_calls_def)

text \<open>The names of a token's claims: those of the map, and names in ASCII.\<close>

lemma map_calls_field: "j \<in> call_field ` set (map_calls m) \<Longrightarrow> j \<in> fst ` set m"
proof -
  assume "j \<in> call_field ` set (map_calls m)"
  then obtain c where c: "c \<in> set (map_calls m)" "j = call_field c" by blast
  then obtain k v where "(k, v) \<in> set m" "c \<in> set (claim_calls k v)" by (auto simp: map_calls_def)
  then show ?thesis using claim_calls_shape [of k v] c(2) by (auto intro: rev_image_eqI)
qed

lemma generate_field:
  assumes "j \<in> call_field ` set (generate_calls lib s now1 now2 m tt ttl)"
  shows "j \<in> fst ` set m \<or> to_valid j = j"
proof -
  have "valid_utf8 k" if "k \<in> set [''iss'', ''aud'', ''exp'', ''iat'', ''type'']" for k
    using that by (intro ascii_valid) auto
  moreover have "j \<in> fst ` set m \<or> j \<in> set [''iss'', ''aud'', ''exp'', ''iat'', ''type'']"
    using assms map_calls_field [of j m] by (auto simp: generate_calls_eq split: if_splits)
  ultimately show ?thesis by (auto simp: valid_utf8_def)
qed

text \<open>
  A login: string claims only, none of the registered claims but "sub" and "jti". That is what a
  login handler hands to Generate, which adds the issuer, the audience and the times.
\<close>

definition login_claims :: "claims \<Rightarrow> bool" where
  "login_claims m \<longleftrightarrow> is_map m \<and> (\<forall>(k, v) \<in> set m.
     k \<notin> set [''iss'', ''aud'', ''iat'', ''nbf'', ''exp'', ''type''] \<and> (\<exists>x. v = AStr x))"

definition utf8_checks :: "('w, 'key) token_store \<Rightarrow> bool" where
  "utf8_checks s \<longleftrightarrow>
     (cfg_ValidateIssuer (ts_config s) \<longrightarrow> valid_utf8 (cfg_Issuer (ts_config s))) \<and>
     (cfg_ValidateAudience (ts_config s) \<longrightarrow> valid_utf8 (cfg_Audience (ts_config s)))"

lemma login_claims_is_map: "login_claims m \<Longrightarrow> is_map m"
  by (simp add: login_claims_def)

lemma login_claims_absent:
  assumes "login_claims m" and "k \<in> set [''iss'', ''aud'', ''iat'', ''nbf'', ''exp'', ''type'']"
  shows "map_of m k = None"
  using assms by (auto simp: login_claims_def map_of_eq_None_iff)

lemma login_claims_string:
  assumes "login_claims m" and "map_of m k = Some v"
  shows "\<exists>x. v = AStr x"
  using assms map_of_SomeD [OF assms(2)] by (auto simp: login_claims_def)

context jwx
begin

text \<open>The claims of the token that Generate builds for a login.\<close>

lemma login_token:
  assumes "login_claims m"
    and "jx_build lib (generate_calls lib s now1 now2 m tt ttl) = Inr t"
  shows "map_option AStr (jx_subject lib t) = map_of m ''sub''"
    and "map_option AStr (jx_jwt_id lib t) = map_of m ''jti''"
    and "jx_issuer lib t = (if cfg_Issuer (ts_config s) = '''' then None else Some (cfg_Issuer (ts_config s)))"
    and "jx_audience lib t =
      (if cfg_Audience (ts_config s) = '''' then None else Some [cfg_Audience (ts_config s)])"
    and "map_option unix_sec (jx_expiration lib t) = (if 0 < ttl then Some (unix_sec (now1 + ttl)) else None)"
    and "map_option unix_sec (jx_issued_at lib t) = Some (unix_sec now2)"
    and "jx_not_before lib t = None"
    and "\<not> isStandardClaim k \<Longrightarrow> map_of m k = Some (AStr x) \<Longrightarrow>
      k \<in> set (jx_keys lib t) \<and> jx_get lib t k = Inr (AStr x)"
    and "clean_name (fst ` set m) k \<Longrightarrow> clean_name (set (jx_keys lib t)) k"
proof -
  note last = last_generate [OF login_claims_is_map [OF assms(1)]]
  note absent = login_claims_absent [OF assms(1)]
  note b = generate_plain [of lib s now1 now2 m tt ttl]
  show "map_option AStr (jx_subject lib t) = map_of m ''sub''"
    using login_claims_string [OF assms(1), of "''sub''"]
    by (cases "map_of m ''sub''")
      (auto simp: build_subject [OF assms(2) b] last claim_call_simps)
  show "map_option AStr (jx_jwt_id lib t) = map_of m ''jti''"
    using login_claims_string [OF assms(1), of "''jti''"]
    by (cases "map_of m ''jti''")
      (auto simp: build_jwt_id [OF assms(2) b] last claim_call_simps)
  show "jx_issuer lib t = (if cfg_Issuer (ts_config s) = '''' then None else Some (cfg_Issuer (ts_config s)))"
    by (simp add: build_issuer [OF assms(2) b] last absent has_claim_def)
  show "jx_audience lib t =
      (if cfg_Audience (ts_config s) = '''' then None else Some [cfg_Audience (ts_config s)])"
    by (simp add: build_audience [OF assms(2) b] last absent has_claim_def)
  show "map_option unix_sec (jx_expiration lib t) = (if 0 < ttl then Some (unix_sec (now1 + ttl)) else None)"
    by (simp add: build_expiration [OF assms(2) b] last absent)
  show "map_option unix_sec (jx_issued_at lib t) = Some (unix_sec now2)"
    by (simp add: build_issued_at [OF assms(2) b] last absent has_claim_def)
  have "map_option unix_sec (jx_not_before lib t) = None"
    by (simp add: build_not_before [OF assms(2) b] last absent)
  then show "jx_not_before lib t = None" by simp
  assume k: "\<not> isStandardClaim k" "map_of m k = Some (AStr x)"
  then have "k \<noteq> ''type''" using absent [of "''type''"] by auto
  then show "k \<in> set (jx_keys lib t) \<and> jx_get lib t k = Inr (AStr x)"
    using k by (intro build_private [OF assms(2) b]) (auto simp: last claim_call_simps isStandardClaim_iff)
next
  assume k: "clean_name (fst ` set m) k"
  have "to_valid j = k \<longrightarrow> j = k" if "j \<in> set (jx_keys lib t)" for j
    using k generate_field [OF build_keys [OF assms(2) generate_plain that]]
    by (auto simp: clean_name_def)
  then show "clean_name (set (jx_keys lib t)) k" using k by (simp add: clean_name_def)
qed

lemma login_token_current:
  assumes "login_claims m" and "jx_build lib (generate_calls lib s now1 now2 m tt ttl) = Inr t"
    and "unix_sec now2 \<le> unix_sec now" and "0 < ttl \<longrightarrow> unix_sec now < unix_sec (now1 + ttl)"
  shows "token_current lib now t"
  using login_token(5-7) [OF assms(1,2)] assms(3,4)
  by (auto simp: token_current_def split: option.splits if_splits)

text \<open>
  Generate, then Validate while the token is current. An issuer or an audience that the store checks
  has to be UTF-8, or the token comes back with another one.
\<close>

lemma generate_validate:
  assumes "login_claims m"
    and "TokenStore_Generate lib s now1 now2 (MapClaims m) tt ttl = Inr str"
    and "unix_sec now2 \<le> unix_sec now" and "0 < ttl \<longrightarrow> unix_sec now < unix_sec (now1 + ttl)"
    and "utf8_checks s"
  shows "\<exists>c. TokenStore_Validate lib s now str = Inr c \<and> is_map c \<and>
    (\<forall>k v. map_of m k = Some v \<and> clean_name (fst ` set m) k \<longrightarrow> map_of c k = Some (json_string v)) \<and>
    map_of c ''jti'' = map_option json_string (map_of m ''jti'') \<and>
    map_of c ''sub'' = map_option json_string (map_of m ''sub'') \<and>
    map_of c ''exp'' = (if 0 < ttl then Some (AInt64 (wrap64 (unix_sec (now1 + ttl)))) else None)"
proof -
  obtain t key where t: "jx_build lib (generate_calls lib s now1 now2 m tt ttl) = Inr t"
    and key: "TokenStore_getJWKKey s 0 = Inr key"
    and str: "jx_sign lib t (cfg_Algorithm (ts_config s)) key = Inr str"
    using assms(2) by (auto simp: TokenStore_Generate_def normalizeClaims_def split: sum.splits)
  obtain os where os: "validate_options s key = WithKey (cfg_Algorithm (ts_config s)) key # os"
    "os \<in> {[], [WithValidate True]}"
    by (cases "cfg_ValidateExpiration (ts_config s)") (simp_all add: validate_options_def)
  obtain u where u: "jx_parse lib now str (validate_options s key) = Inr u" "same_claims lib t u"
    using parse_sign [OF str login_token_current [OF assms(1) t assms(3,4)] os(2)] os(1) by auto
  note login = login_token [OF assms(1) t] and same = u(2) [unfolded same_claims_def]
  let ?c = "tokenToMap lib u"
  have "TokenStore_Validate lib s now str = Inr ?c"
    unfolding Validate_Inr using key u(1) same login(3,4) assms(5)
    by (intro exI [of _ key] exI [of _ u]) (simp add: utf8_checks_def valid_utf8_def)
  moreover have sub: "map_of ?c ''sub'' = map_option json_string (map_of m ''sub'')"
    "map_of ?c ''jti'' = map_option json_string (map_of m ''jti'')"
    unfolding login(1,2) [symmetric] using same by (simp_all add: map_of_tokenToMap option.map_comp comp_def)
  moreover have "map_of ?c ''exp'' =
      (if 0 < ttl then Some (AInt64 (wrap64 (unix_sec (now1 + ttl)))) else None)"
  proof -
    have "map_of ?c ''exp'' = map_option (\<lambda>x. AInt64 (wrap64 x)) (map_option unix_sec (jx_expiration lib u))"
      by (simp add: map_of_tokenToMap option.map_comp comp_def)
    then show ?thesis using same login(5) by simp
  qed
  moreover have "map_of ?c k = Some (json_string v)"
    if v: "map_of m k = Some v" and clean: "clean_name (fst ` set m) k" for k v
  proof (cases "isStandardClaim k")
    case True
    note absent = login_claims_absent [OF assms(1)]
    from True show ?thesis
      by (cases rule: isStandardClaim_cases) (use v sub absent in simp_all)
  next
    case False
    obtain x where x: "v = AStr x" using login_claims_string [OF assms(1) v] by blast
    with login(8) [OF False] login(9) [OF clean] v same False
    have "k \<in> set (jx_keys lib u) \<and> jx_get lib u k = Inr (AStr (to_valid x))" by blast
    then show ?thesis using False x by (simp add: map_of_tokenToMap isStandardClaim_iff)
  qed
  ultimately show ?thesis using tokenToMap_is_map [of lib u] by blast
qed

end

section \<open>Tokens that are refused\<close>

text \<open>
  What the library promises of a token that it accepts: its claims are those that were signed, and
  with \<open>WithValidate(true)\<close> its times are current.
\<close>

locale jwx_checked = jwx lib for lib :: "('key, 'tok) jwt_lib" +
  assumes parse_signed: "jx_sign lib t alg key = Inr str \<Longrightarrow>
      jx_parse lib now str (WithKey alg key # os) = Inr u \<Longrightarrow> same_claims lib t u"
    and parse_current: "jx_parse lib now str [WithKey alg key, WithValidate True] = Inr u \<Longrightarrow>
      token_current lib now u"
begin

lemma token_current_same: "same_claims lib t u \<Longrightarrow> token_current lib now u \<longleftrightarrow> token_current lib now t"
  unfolding same_claims_def token_current_def
  by (cases "jx_expiration lib t"; cases "jx_not_before lib t"; cases "jx_issued_at lib t") auto

lemma login_token_current_iff:
  assumes "login_claims m" and "jx_build lib (generate_calls lib s now1 now2 m tt ttl) = Inr t"
  shows "token_current lib now t \<longleftrightarrow>
    unix_sec now2 \<le> unix_sec now \<and> (0 < ttl \<longrightarrow> unix_sec now < unix_sec (now1 + ttl))"
  using login_token(5-7) [OF assms] by (auto simp: token_current_def split: option.splits if_splits)

lemma validate_foreign:
  assumes "login_claims m"
    and "TokenStore_Generate lib s now1 now2 (MapClaims m) tt ttl = Inr str"
    and "TokenStore_getJWKKey s' 0 = TokenStore_getJWKKey s 0"
    and "cfg_Algorithm (ts_config s') = cfg_Algorithm (ts_config s)"
    and "cfg_ValidateExpiration (ts_config s')"
  shows "(\<exists>c. TokenStore_Validate lib s' now str = Inr c) \<longleftrightarrow>
    unix_sec now2 \<le> unix_sec now \<and> (0 < ttl \<longrightarrow> unix_sec now < unix_sec (now1 + ttl)) \<and>
    (cfg_ValidateIssuer (ts_config s') \<and> cfg_Issuer (ts_config s') \<noteq> '''' \<longrightarrow>
       to_valid (cfg_Issuer (ts_config s)) = cfg_Issuer (ts_config s')) \<and>
    (cfg_ValidateAudience (ts_config s') \<and> cfg_Audience (ts_config s') \<noteq> '''' \<longrightarrow>
       to_valid (cfg_Audience (ts_config s)) = cfg_Audience (ts_config s'))"
proof -
  obtain t key where t: "jx_build lib (generate_calls lib s now1 now2 m tt ttl) = Inr t"
    and key: "TokenStore_getJWKKey s 0 = Inr key"
    and str: "jx_sign lib t (cfg_Algorithm (ts_config s)) key = Inr str"
    using assms(2) by (auto simp: TokenStore_Generate_def normalizeClaims_def split: sum.splits)
  have os: "validate_options s' key = [WithKey (cfg_Algorithm (ts_config s)) key, WithValidate True]"
    using assms(4,5) by (simp add: validate_options_def)
  have parse: "(\<exists>u. jx_parse lib now str (validate_options s' key) = Inr u) \<longleftrightarrow> token_current lib now t"
    using parse_sign [OF str, of now "[WithValidate True]"] parse_current [of now str] parse_signed [OF str]
      token_current_same unfolding os by blast
  have same: "jx_issuer lib u = map_option to_valid (jx_issuer lib t)"
    "jx_audience lib u = map_option (map to_valid) (jx_audience lib t)"
    if "jx_parse lib now str (validate_options s' key) = Inr u" for u
    using parse_signed [OF str] that unfolding os same_claims_def by blast+
  show ?thesis
    unfolding Validate_Inr login_token_current_iff [OF assms(1) t, symmetric] conj_assoc [symmetric]
    using parse same key assms(3) login_token(3,4) [OF assms(1) t] by (auto split: if_splits)
qed

end

end
