(* ===== verification/Jwx_Library.thy ===== *)
theory Jwx_Library
  imports Jwt_Tokens
begin

text \<open>
  A concrete JWT library, not code of the repository: a token is the list of the last builder
  call for each claim, in the order of the claim names, and signing prints a number that encodes
  the algorithm, the key and the token, and parsing turns its strings into UTF-8. It interprets the locale \<open>jwx\<close>, so the laws relied on can
  hold together, and the witnesses run on it.
\<close>

instance any :: countable
  by countable_datatype

instance builder_call :: countable
  by countable_datatype

definition canonical :: "builder_call list \<Rightarrow> builder_call list" where
  "canonical cs = List.map_filter (\<lambda>k. last_call k cs) (sorted_list_of_set (call_field ` set cs))"

definition lib_subject :: "builder_call list \<Rightarrow> string option" where
  "lib_subject t = (case last_call ''sub'' t of Some (BSubject x) \<Rightarrow> Some x | _ \<Rightarrow> None)"

definition lib_issuer :: "builder_call list \<Rightarrow> string option" where
  "lib_issuer t = (case last_call ''iss'' t of Some (BIssuer x) \<Rightarrow> Some x | _ \<Rightarrow> None)"

definition lib_audience :: "builder_call list \<Rightarrow> string list option" where
  "lib_audience t = (case last_call ''aud'' t of Some (BAudience x) \<Rightarrow> Some x | _ \<Rightarrow> None)"

definition lib_expiration :: "builder_call list \<Rightarrow> instant option" where
  "lib_expiration t = (case last_call ''exp'' t of Some (BExpiration x) \<Rightarrow> Some x | _ \<Rightarrow> None)"

definition lib_issued_at :: "builder_call list \<Rightarrow> instant option" where
  "lib_issued_at t = (case last_call ''iat'' t of Some (BIssuedAt x) \<Rightarrow> Some x | _ \<Rightarrow> None)"

definition lib_not_before :: "builder_call list \<Rightarrow> instant option" where
  "lib_not_before t = (case last_call ''nbf'' t of Some (BNotBefore x) \<Rightarrow> Some x | _ \<Rightarrow> None)"

definition lib_jwt_id :: "builder_call list \<Rightarrow> string option" where
  "lib_jwt_id t = (case last_call ''jti'' t of Some (BJwtID x) \<Rightarrow> Some x | _ \<Rightarrow> None)"

definition lib_get :: "builder_call list \<Rightarrow> string \<Rightarrow> any res" where
  "lib_get t k = (case last_call k t of
     Some (BClaim _ v) \<Rightarrow> Inr v | _ \<Rightarrow> Inl (NewError ''field not found''))"

definition lib_current :: "instant \<Rightarrow> builder_call list \<Rightarrow> bool" where
  "lib_current now t \<longleftrightarrow>
     (case lib_expiration t of None \<Rightarrow> True | Some e \<Rightarrow> unix_sec now < unix_sec e) \<and>
     (case lib_not_before t of None \<Rightarrow> True | Some n \<Rightarrow> unix_sec n \<le> unix_sec now) \<and>
     (case lib_issued_at t of None \<Rightarrow> True | Some i \<Rightarrow> unix_sec i \<le> unix_sec now)"

definition lib_sign :: "builder_call list \<Rightarrow> string \<Rightarrow> string \<Rightarrow> string res" where
  "lib_sign t alg key = Inr (dec (to_nat (alg, key, t)))"

text \<open>The JSON text of a token keeps what \<open>to_valid\<close> gives of its strings.\<close>

fun json_call :: "builder_call \<Rightarrow> builder_call" where
  "json_call (BSubject x) = BSubject (to_valid x)"
| "json_call (BIssuer x) = BIssuer (to_valid x)"
| "json_call (BAudience xs) = BAudience (map to_valid xs)"
| "json_call (BJwtID x) = BJwtID (to_valid x)"
| "json_call (BClaim k v) = BClaim k (json_string v)"
| "json_call (BIssuedAt t) = BIssuedAt t"
| "json_call (BNotBefore t) = BNotBefore t"
| "json_call (BExpiration t) = BExpiration t"

lemma call_field_json [simp]: "call_field (json_call c) = call_field c"
  by (cases c) simp_all

lemma last_call_json [simp]: "last_call k (map json_call t) = map_option json_call (last_call k t)"
  by (induction t) (simp_all add: last_call_Cons split: option.split)

definition lib_parse :: "instant \<Rightarrow> string \<Rightarrow> string parse_option list \<Rightarrow> builder_call list res" where
  "lib_parse now str os =
     (case from_nat (undec str) of (alg, key, t) \<Rightarrow>
        (case os of
           WithKey alg' key' # _ \<Rightarrow>
             if alg' = alg \<and> key' = key \<and> lib_current now t then Inr (map json_call t)
             else Inl (NewError ''invalid token'')
         | _ \<Rightarrow> Inl (NewError ''no key'')))"

definition lib_jwx :: "(string, builder_call list) jwt_lib" where
  "lib_jwx = \<lparr>jx_parse = lib_parse, jx_build = (\<lambda>cs. Inr (canonical cs)), jx_sign = lib_sign,
     jx_subject = lib_subject, jx_issuer = lib_issuer, jx_audience = lib_audience,
     jx_expiration = lib_expiration, jx_issued_at = lib_issued_at, jx_not_before = lib_not_before,
     jx_jwt_id = lib_jwt_id, jx_keys = (\<lambda>t. map call_field t), jx_get = lib_get,
     jx_type_refresh = AStr ''refresh''\<rparr>"

lemma lib_jwx_sel [simp]:
  "jx_parse lib_jwx = lib_parse" "jx_build lib_jwx cs = Inr (canonical cs)"
  "jx_sign lib_jwx = lib_sign" "jx_subject lib_jwx = lib_subject"
  "jx_issuer lib_jwx = lib_issuer" "jx_audience lib_jwx = lib_audience"
  "jx_expiration lib_jwx = lib_expiration" "jx_issued_at lib_jwx = lib_issued_at"
  "jx_not_before lib_jwx = lib_not_before" "jx_jwt_id lib_jwx = lib_jwt_id"
  "jx_keys lib_jwx t = map call_field t" "jx_get lib_jwx = lib_get"
  "jx_type_refresh lib_jwx = AStr ''refresh''"
  by (simp_all add: lib_jwx_def)

lemma last_call_None: "last_call k cs = None \<longleftrightarrow> k \<notin> call_field ` set cs"
proof -
  have "last_call k cs = None \<longleftrightarrow> filter (\<lambda>c. call_field c = k) (rev cs) = []"
    by (simp add: last_call_def split: list.split)
  then show ?thesis by (auto simp: filter_empty_conv)
qed

lemma last_call_selected:
  "distinct ks \<Longrightarrow> last_call k (List.map_filter (\<lambda>k. last_call k cs) ks) =
     (if k \<in> set ks then last_call k cs else None)"
proof (induction ks)
  case (Cons j ks)
  then show ?case
    using last_call_field [of j cs]
    by (cases "last_call j cs") (auto simp: map_filter_simps last_call_Cons split: option.splits)
qed (simp add: map_filter_simps)

lemma last_call_canonical [simp]: "last_call k (canonical cs) = last_call k cs"
  using last_call_None [of k cs] by (auto simp: canonical_def last_call_selected)

lemma canonical_cong:
  assumes "\<And>k. last_call k cs = last_call k cs'"
  shows "canonical cs = canonical cs'"
proof -
  have "call_field ` set cs = call_field ` set cs'"
    using last_call_None [of _ cs] last_call_None [of _ cs'] assms by auto
  then show ?thesis using assms by (simp add: canonical_def)
qed

lemma lib_fields_json [simp]:
  "lib_subject (map json_call t) = map_option to_valid (lib_subject t)"
  "lib_issuer (map json_call t) = map_option to_valid (lib_issuer t)"
  "lib_audience (map json_call t) = map_option (map to_valid) (lib_audience t)"
  "lib_jwt_id (map json_call t) = map_option to_valid (lib_jwt_id t)"
  "lib_expiration (map json_call t) = lib_expiration t"
  "lib_issued_at (map json_call t) = lib_issued_at t"
  "lib_not_before (map json_call t) = lib_not_before t"
  by (simp_all add: lib_subject_def lib_issuer_def lib_audience_def lib_jwt_id_def lib_expiration_def
      lib_issued_at_def lib_not_before_def split: option.split builder_call.split)

lemma lib_get_json: "lib_get t k = Inr v \<Longrightarrow> lib_get (map json_call t) k = Inr (json_string v)"
  by (auto simp: lib_get_def split: option.splits builder_call.splits)

lemma same_claims_json: "same_claims lib_jwx t (map json_call t)"
proof -
  have "map call_field (map json_call t) = map call_field t" by simp
  then show ?thesis by (auto simp: same_claims_def dest: lib_get_json)
qed

interpretation lib: jwx lib_jwx
proof unfold_locales
  fix t :: "builder_call list" and alg key str :: string and now and os :: "string parse_option list"
  assume "jx_sign lib_jwx t alg key = Inr str" and "token_current lib_jwx now t"
  then have "jx_parse lib_jwx now str (WithKey alg key # os) = Inr (map json_call t)"
    by (auto simp: lib_sign_def lib_parse_def lib_current_def token_current_def)
  then show "\<exists>u. jx_parse lib_jwx now str (WithKey alg key # os) = Inr u \<and> same_claims lib_jwx t u"
    using same_claims_json by blast
next
  fix cs t k assume "jx_build lib_jwx cs = Inr t" and "k \<in> set (jx_keys lib_jwx t)"
  then have "last_call k (canonical cs) \<noteq> None" by (auto simp: last_call_None)
  then show "k \<in> call_field ` set cs" by (simp add: last_call_None)
next
  fix cs t k v
  assume "jx_build lib_jwx cs = Inr t" and "last_call k cs = Some (BClaim k v)"
  then have t: "t = canonical cs" and l: "last_call k t = Some (BClaim k v)" by auto
  then show "k \<in> set (jx_keys lib_jwx t) \<and> jx_get lib_jwx t k = Inr v"
    using last_call_field [OF l] by (auto simp: lib_get_def intro: rev_image_eqI)
next
  fix cs cs' :: "builder_call list" assume "\<And>k. last_call k cs = last_call k cs'"
  then have "canonical cs = canonical cs'" by (rule canonical_cong)
  then show "jx_build lib_jwx cs = jx_build lib_jwx cs'" by simp
qed (simp_all add: lib_subject_def lib_issuer_def lib_jwt_id_def lib_audience_def
    lib_expiration_def lib_issued_at_def lib_not_before_def split: option.split builder_call.split)

text \<open>It accepts nothing but what was signed, and nothing that is not current.\<close>

interpretation lib: jwx_checked lib_jwx
proof unfold_locales
  fix t u :: "builder_call list" and alg key str :: string and now and os :: "string parse_option list"
  assume "jx_sign lib_jwx t alg key = Inr str" and "jx_parse lib_jwx now str (WithKey alg key # os) = Inr u"
  then have "u = map json_call t" by (auto simp: lib_sign_def lib_parse_def split: if_splits)
  then show "same_claims lib_jwx t u" by (simp add: same_claims_json)
next
  fix u :: "builder_call list" and alg key str :: string and now
  assume "jx_parse lib_jwx now str [WithKey alg key, WithValidate True] = Inr u"
  then show "token_current lib_jwx now u"
    by (auto simp: lib_parse_def lib_current_def token_current_def split: prod.splits if_splits)
qed

end
