(* ===== verification/Jwt_Properties.thy ===== *)
theory Jwt_Properties
  imports Jwx_Library
begin

text \<open>
  The properties of \<open>NewTokenStore\<close>, \<open>Validate\<close> and \<open>Generate\<close>, for any JWT library; those that
  follow a token from Generate to Validate and to its revocation assume the laws of \<open>jwx\<close>.
\<close>

text \<open>
  The constructor. NewTokenStore succeeds exactly for a configuration with a non-empty key set
  and a storage, and panics otherwise; the store it returns has an algorithm, a token key
  function and a key selector, keeps revocations under the prefix "jwt" in the given storage, and
  leaves the four Validate switches, the issuer and the audience as the caller gave them (so
  ValidateExpiration is false unless it was set).
\<close>

theorem NewTokenStore_total:
  "((\<exists>s. NewTokenStore cfg = Inr s) \<longleftrightarrow>
      (\<exists>ks. cfg_KeySet cfg = Some ks \<and> ks_len ks \<noteq> 0) \<and> cfg_Storage cfg \<noteq> None) \<and>
   (\<forall>e. NewTokenStore cfg = Inl e \<longrightarrow>
      e \<in> {Panicked errMissingKeySet, Panicked errNoKeys, Panicked errMissingStorage}) \<and>
   (\<forall>s. NewTokenStore cfg = Inr s \<longrightarrow>
      cfg_Algorithm (ts_config s) \<noteq> '''' \<and> cfg_TokenKeyFunc (ts_config s) \<noteq> None \<and>
      cfg_KeySelector (ts_config s) \<noteq> None \<and> ad_prefix (ts_adapter s) = ''jwt'' \<and>
      Some (ad_storage (ts_adapter s)) = cfg_Storage cfg \<and>
      cfg_KeySet (ts_config s) = cfg_KeySet cfg \<and>
      cfg_Issuer (ts_config s) = cfg_Issuer cfg \<and> cfg_Audience (ts_config s) = cfg_Audience cfg \<and>
      cfg_ValidateIssuer (ts_config s) = cfg_ValidateIssuer cfg \<and>
      cfg_ValidateAudience (ts_config s) = cfg_ValidateAudience cfg \<and>
      cfg_ValidateExpiration (ts_config s) = cfg_ValidateExpiration cfg \<and>
      cfg_ValidateNotBefore (ts_config s) = cfg_ValidateNotBefore cfg)"
  by (auto simp: NewTokenStore_def Let_def split: option.splits)

theorem NewTokenStore_total_witness:
  "\<exists>s. NewTokenStore demo_config = Inr s \<and> cfg_ValidateExpiration (ts_config s) = False \<and>
     cfg_TokenKeyFunc (ts_config s) \<noteq> None"
  using NewTokenStore_total [of demo_config] by (auto simp: demo_config_def demo_keys_def)

text \<open>A store that checks the issuer and the times of tokens.\<close>

definition strict_jwt :: "(redis_view, string) token_store" where
  "strict_jwt = demo_jwt\<lparr>ts_config := (ts_config demo_jwt)
     \<lparr>cfg_Issuer := ''https://auth'', cfg_ValidateIssuer := True, cfg_ValidateExpiration := True\<rparr>\<rparr>"

lemma strict_jwt_sel [simp]:
  "cfg_Issuer (ts_config strict_jwt) = ''https://auth''" "cfg_ValidateIssuer (ts_config strict_jwt)"
  "cfg_ValidateExpiration (ts_config strict_jwt)" "cfg_KeySet (ts_config strict_jwt) = Some demo_keys"
  "ts_adapter strict_jwt = ts_adapter demo_jwt"
  "cfg_TokenKeyFunc (ts_config strict_jwt) = Some defaultTokenKeyFunc"
  by (simp_all add: strict_jwt_def)

lemma demo_jwt_checks: "utf8_checks demo_jwt"
  by (simp add: utf8_checks_def demo_jwt_def demo_config_def NewTokenStore_def Let_def demo_keys_def)

lemma strict_jwt_checks: "utf8_checks strict_jwt"
  using demo_jwt_checks by (simp add: utf8_checks_def strict_jwt_def ascii_valid)

definition with_unread ::
  "string list \<Rightarrow> bool \<Rightarrow> ('key key_set \<Rightarrow> any \<Rightarrow> 'key res) option \<Rightarrow> (claims \<Rightarrow> string) option \<Rightarrow>
     'w storage_ops option \<Rightarrow> ('w, 'key) token_store \<Rightarrow> ('w, 'key) token_store" where
  "with_unread r b sel f st s = s\<lparr>ts_config := (ts_config s)\<lparr>cfg_RequiredClaims := r,
     cfg_ValidateNotBefore := b, cfg_KeySelector := sel, cfg_TokenKeyFunc := f, cfg_Storage := st\<rparr>\<rparr>"

lemma with_unread_sel:
  "cfg_Algorithm (ts_config (with_unread r b sel f st s)) = cfg_Algorithm (ts_config s)"
  "cfg_ValidateIssuer (ts_config (with_unread r b sel f st s)) = cfg_ValidateIssuer (ts_config s)"
  "cfg_ValidateAudience (ts_config (with_unread r b sel f st s)) = cfg_ValidateAudience (ts_config s)"
  "cfg_Issuer (ts_config (with_unread r b sel f st s)) = cfg_Issuer (ts_config s)"
  "cfg_Audience (ts_config (with_unread r b sel f st s)) = cfg_Audience (ts_config s)"
  "TokenStore_getJWKKey (with_unread r b sel f st s) = TokenStore_getJWKKey s"
  "validate_options (with_unread r b sel f st s) = validate_options s"
  "generate_calls lib (with_unread r b sel f st s) = generate_calls lib s"
  by (simp_all add: with_unread_def fun_eq_iff TokenStore_getJWKKey_def validate_options_def
      generate_calls_def)

text \<open>
  Configuration that nothing reads. Validate and Generate give the same results whatever
  RequiredClaims, ValidateNotBefore, KeySelector, TokenKeyFunc and Storage are set to; so a token
  without a required claim is accepted, and the selector does not select the key.
\<close>

theorem Validate_ignores_required_claims:
  "TokenStore_Validate lib (with_unread r b sel f st s) now str = TokenStore_Validate lib s now str \<and>
   TokenStore_Generate lib (with_unread r b sel f st s) now1 now2 c tt ttl =
     TokenStore_Generate lib s now1 now2 c tt ttl"
  unfolding TokenStore_Validate_def TokenStore_Generate_def with_unread_sel by (rule conjI refl)+

text \<open>
  The claims map of a token. \<open>tokenToMap\<close> returns a map (no key twice) in which the registered
  claims are exactly those the token has, with times as Unix seconds in an \<open>int64\<close>, and every
  other key is exactly one of the token's keys whose value can be read.
\<close>

theorem tokenToMap_lookup:
  "is_map (tokenToMap lib t) \<and>
   map_of (tokenToMap lib t) k =
     (if k = ''sub'' then map_option AStr (jx_subject lib t)
      else if k = ''iss'' then map_option AStr (jx_issuer lib t)
      else if k = ''aud'' then map_option AStrs (jx_audience lib t)
      else if k = ''exp'' then map_option (\<lambda>x. AInt64 (wrap64 (unix_sec x))) (jx_expiration lib t)
      else if k = ''iat'' then map_option (\<lambda>x. AInt64 (wrap64 (unix_sec x))) (jx_issued_at lib t)
      else if k = ''nbf'' then map_option (\<lambda>x. AInt64 (wrap64 (unix_sec x))) (jx_not_before lib t)
      else if k = ''jti'' then map_option AStr (jx_jwt_id lib t)
      else if k \<in> set (jx_keys lib t)
        then (case jx_get lib t k of Inl _ \<Rightarrow> None | Inr v \<Rightarrow> Some v)
      else None)"
  by (rule conjI [OF tokenToMap_is_map map_of_tokenToMap])

text \<open>
  C27: what Generate puts into a token. For a claims map, the last builder call for each claim
  name is: for "type", the refresh marker if a refresh token is asked for; for "exp", the time to
  live after now if it is positive and nothing otherwise, whatever "exp" the map holds; for "iat",
  "aud" and "iss", the clock, the configured audience and the configured issuer when the map has
  no such key; and for every other name the call its own value makes.
\<close>

theorem Generate_claims:
  assumes "is_map m"
  shows "last_call k (generate_calls lib s now1 now2 m tt ttl) =
    (if k = ''type'' \<and> tt = RefreshToken then Some (BClaim ''type'' (jx_type_refresh lib))
     else if k = ''exp'' then if 0 < ttl then Some (BExpiration (now1 + ttl)) else None
     else if k = ''iat'' \<and> \<not> has_claim m ''iat'' then Some (BIssuedAt now2)
     else if k = ''aud'' \<and> \<not> has_claim m ''aud'' \<and> cfg_Audience (ts_config s) \<noteq> ''''
       then Some (BAudience [cfg_Audience (ts_config s)])
     else if k = ''iss'' \<and> \<not> has_claim m ''iss'' \<and> cfg_Issuer (ts_config s) \<noteq> ''''
       then Some (BIssuer (cfg_Issuer (ts_config s)))
     else Option.bind (map_of m k) (claim_call k))"
  by (cases "map_of m ''exp''") (simp_all add: last_generate [OF assms])

theorem Generate_claims_witness:
  "last_call ''exp'' (generate_calls lib_jwx demo_jwt 5 6
     [(''sub'', AStr ''alice''), (''exp'', AInt64 4102444800)] AccessToken 0) = None"
  using Generate_claims [of "[(''sub'', AStr ''alice''), (''exp'', AInt64 4102444800)]" "''exp''"
    lib_jwx demo_jwt 5 6 AccessToken 0]
  by (simp add: is_map_def)

text \<open>
  C28: Go's random map order does not show. With a library whose builder keeps the last value set
  for each claim, Generate returns the same token (or the same error) whatever the order in which
  the loop visits the claims.
\<close>

theorem Generate_order_independent:
  assumes "jwx lib" and "is_map m" and "is_map m'" and "set m = set m'"
  shows "TokenStore_Generate lib s now1 now2 (MapClaims m) tt ttl =
    TokenStore_Generate lib s now1 now2 (MapClaims m') tt ttl"
proof -
  have "jx_build lib (generate_calls lib s now1 now2 m tt ttl) =
      jx_build lib (generate_calls lib s now1 now2 m' tt ttl)"
    by (rule jwx.build_fields [OF assms(1)]) (rule generate_order [OF assms(2-4)])
  then show ?thesis by (simp add: TokenStore_Generate_def normalizeClaims_def)
qed

theorem Generate_order_independent_witness:
  "TokenStore_Generate lib_jwx demo_jwt 5 6 (MapClaims access_claims) AccessToken second =
   TokenStore_Generate lib_jwx demo_jwt 5 6 (MapClaims (rev access_claims)) AccessToken second"
  by (rule Generate_order_independent [OF lib.jwx_axioms])
    (auto simp: is_map_def access_claims_def)

text \<open>
  C12: round trip. A token that Generate returned for a login (string claims, none of those that
  Generate sets) is accepted by Validate of the same store, with issuer and audience checks on or
  off, from the second it was issued until the second it expires; the map that Validate returns
  holds every claim of the login, "jti" and "sub" exactly if the login has them, and the expiry "exp"
  as Unix seconds in an \<open>int64\<close> when a positive time to live was given. Strings come back as they were
  if they are UTF-8, and otherwise with the replacement character U+FFFD for the bytes that are not;
  an issuer or audience that is checked has to be UTF-8, and of a private claim whose name is not
  UTF-8, or is what the name of another claim is turned into, nothing is claimed.
\<close>

theorem Generate_Validate_roundtrip:
  assumes "jwx lib" and "login_claims m"
    and "TokenStore_Generate lib s now1 now2 (MapClaims m) tt ttl = Inr str"
    and "unix_sec now2 \<le> unix_sec now" and "0 < ttl \<longrightarrow> unix_sec now < unix_sec (now1 + ttl)"
    and "utf8_checks s"
  shows "\<exists>c. TokenStore_Validate lib s now str = Inr c \<and> is_map c \<and>
    (\<forall>k x. map_of m k = Some (AStr x) \<and> clean_name (fst ` set m) k \<longrightarrow>
       map_of c k = Some (AStr (to_valid x)) \<and> (valid_utf8 x \<longrightarrow> map_of c k = Some (AStr x))) \<and>
    map_of c ''jti'' = map_option json_string (map_of m ''jti'') \<and>
    map_of c ''sub'' = map_option json_string (map_of m ''sub'') \<and>
    map_of c ''exp'' = (if 0 < ttl then Some (AInt64 (wrap64 (unix_sec (now1 + ttl)))) else None)"
  using jwx.generate_validate [OF assms] by (fastforce simp: valid_utf8_def)

definition demo_login :: claims where
  "demo_login = [(''sub'', AStr ''alice''), (''scope'', AStr ''read write''), (''sid'', AStr ''alice_1'')]"

lemma demo_login_ok: "login_claims demo_login"
  by (simp add: login_claims_def demo_login_def is_map_def)

lemma strict_generate:
  "\<exists>str. TokenStore_Generate lib_jwx strict_jwt 0 0 (MapClaims demo_login) tt ttl = Inr str"
  by (simp add: TokenStore_Generate_def normalizeClaims_def TokenStore_getJWKKey_def demo_keys_def
      lib_sign_def)

theorem Generate_Validate_roundtrip_witness:
  "\<exists>str c. TokenStore_Generate lib_jwx strict_jwt 0 0 (MapClaims demo_login) AccessToken (15 * minute) = Inr str \<and>
     TokenStore_Validate lib_jwx strict_jwt (5 * minute) str = Inr c \<and>
     map_of c ''scope'' = Some (AStr ''read write'') \<and> map_of c ''exp'' = Some (AInt64 900)"
proof -
  obtain str where str: "TokenStore_Generate lib_jwx strict_jwt 0 0 (MapClaims demo_login)
      AccessToken (15 * minute) = Inr str"
    using strict_generate by blast
  have "map_of demo_login ''scope'' = Some (AStr ''read write'')" "clean_name ks ''scope''"
    "valid_utf8 ''read write''" for ks
    by (simp_all add: demo_login_def ascii_clean_name ascii_valid)
  with Generate_Validate_roundtrip [OF lib.jwx_axioms demo_login_ok str, of "5 * minute"] str strict_jwt_checks
  show ?thesis by (fastforce simp: unix_sec_def wrap64_def duration_defs)
qed

text \<open>
  C13: which tokens of one store another accepts. Take two stores with the same key and algorithm, of
  which the second has ValidateExpiration set. A token that the first one generated for a login is
  accepted by the second exactly from the second it was issued until the second it expires (without
  a positive time to live, for ever), if the issuers agree where the second checks the issuer and the
  audiences agree where it checks the audience. Both are checked only if the second has one and its
  ValidateIssuer or ValidateAudience is set: an Issuer or an Audience alone refuses no token, although
  the comments on these fields in config.go say that tokens without them will be rejected. What has to
  agree is the issuer as the token brings it back, with U+FFFD for bytes that are not UTF-8.
\<close>

theorem Validate_foreign_token:
  assumes "jwx_checked lib" and "login_claims m"
    and "TokenStore_Generate lib s now1 now2 (MapClaims m) tt ttl = Inr str"
    and "TokenStore_getJWKKey s' 0 = TokenStore_getJWKKey s 0"
    and "cfg_Algorithm (ts_config s') = cfg_Algorithm (ts_config s)"
    and "cfg_ValidateExpiration (ts_config s')"
  shows "(\<exists>c. TokenStore_Validate lib s' now str = Inr c) \<longleftrightarrow>
    unix_sec now2 \<le> unix_sec now \<and> (0 < ttl \<longrightarrow> unix_sec now < unix_sec (now1 + ttl)) \<and>
    (cfg_ValidateIssuer (ts_config s') \<and> cfg_Issuer (ts_config s') \<noteq> '''' \<longrightarrow>
       to_valid (cfg_Issuer (ts_config s)) = cfg_Issuer (ts_config s')) \<and>
    (cfg_ValidateAudience (ts_config s') \<and> cfg_Audience (ts_config s') \<noteq> '''' \<longrightarrow>
       to_valid (cfg_Audience (ts_config s)) = cfg_Audience (ts_config s'))"
  by (rule jwx_checked.validate_foreign [OF assms])

theorem Validate_foreign_token_witness:
  "\<exists>str c. TokenStore_Generate lib_jwx strict_jwt 0 0 (MapClaims demo_login) AccessToken (15 * minute) = Inr str \<and>
     TokenStore_Validate lib_jwx strict_jwt (899 * second) str = Inr c \<and>
     \<not> (\<exists>c. TokenStore_Validate lib_jwx strict_jwt (900 * second) str = Inr c)"
proof -
  obtain str where str: "TokenStore_Generate lib_jwx strict_jwt 0 0 (MapClaims demo_login)
      AccessToken (15 * minute) = Inr str"
    using strict_generate by blast
  have "(\<exists>c. TokenStore_Validate lib_jwx strict_jwt now str = Inr c) \<longleftrightarrow>
      0 \<le> unix_sec now \<and> unix_sec now < 900" for now
    using Validate_foreign_token [OF lib.jwx_checked_axioms demo_login_ok str, of strict_jwt now]
    using strict_jwt_checks by (simp add: unix_sec_def duration_defs utf8_checks_def valid_utf8_def)
  from this [of "899 * second"] this [of "900 * second"] str show ?thesis
    by (auto simp: unix_sec_def second_def)
qed

end
