(* ===== verification/Redis_Limits.thy ===== *)
theory Redis_Limits
  imports Redis Float64
begin

text \<open>
  The Redis commands of the rate limiter: the \<open>RedisClient\<close> of \<open>middleware/ratelimit\<close>, the
  commands that its Lua script calls inside the server, and their documented effects, one locale
  per group: counters, sorted sets and scripts.
\<close>

section \<open>The client interface\<close>

text \<open>
  A reply to \<open>EVAL\<close> is whatever the script returned: go-redis hands integers over as \<open>int64\<close>,
  arrays as \<open>[]interface{}\<close> and strings as \<open>string\<close>. A script gets its keys and its numeric
  arguments and returns a table of numbers, or stops with an error.
\<close>

datatype reply = RNil | RInt int | RBulk string | RArr "reply list"

record 'w redis_call =
  rc_hmget :: "string \<Rightarrow> string list \<Rightarrow> ('w, rat option list) act"
  rc_hmset :: "string \<Rightarrow> (string \<times> rat) list \<Rightarrow> ('w, unit) act"
  rc_hset :: "string \<Rightarrow> (string \<times> rat) list \<Rightarrow> ('w, unit) act"
  rc_expire :: "string \<Rightarrow> int \<Rightarrow> ('w, int) act"

type_synonym 'w script = "'w redis_call \<Rightarrow> string list \<Rightarrow> rat list \<Rightarrow> ('w, rat list) act"

record 'w ratelimit_client =
  rl_zrem_range_by_score :: "string \<Rightarrow> string \<Rightarrow> string \<Rightarrow> ('w, int) act"
  rl_zcard :: "string \<Rightarrow> ('w, int) act"
  rl_zrange_with_scores :: "string \<Rightarrow> int \<Rightarrow> int \<Rightarrow> ('w, zmember list) act"
  rl_zadd :: "string \<Rightarrow> (rat \<times> int) list \<Rightarrow> ('w, int) act"
  rl_expire :: "string \<Rightarrow> duration \<Rightarrow> ('w, bool) act"
  rl_incr :: "string \<Rightarrow> ('w, int) act"
  rl_expire_nx :: "string \<Rightarrow> duration \<Rightarrow> ('w, bool) act"
  rl_eval :: "'w script \<Rightarrow> string list \<Rightarrow> rat list \<Rightarrow> ('w, reply) act"
  rl_close :: "('w, unit) act"

section \<open>Counters\<close>

text \<open>
  \<open>INCR\<close> counts from 0 and keeps the deadline of the key; \<open>EXPIRE key s NX\<close> gives a deadline to
  a key that has none. The client turns a duration into whole seconds (\<open>ex\<close>).
\<close>

locale redis_counter = redis_env view late elapse
  for view :: "'w \<Rightarrow> redis_view" and late elapse +
  fixes cl :: "'w ratelimit_client" and ex :: "duration \<Rightarrow> duration"
  assumes ex_pos: "0 < d \<Longrightarrow> 0 < ex d"
    and ex_exact: "second dvd d \<Longrightarrow> ex d = d"
    and incr_absent: "rv_up (view w) \<Longrightarrow> rv_keys (view w) k = None \<Longrightarrow>
      fst (rl_incr cl k w) = Inr 1 \<and>
      view (snd (rl_incr cl k w)) = put_key k (RString (format_int 1), None) (view w)"
    and incr_present: "rv_up (view w) \<Longrightarrow> rv_keys (view w) k = Some (RString (format_int n), dl) \<Longrightarrow>
      in_i64 n \<Longrightarrow> in_i64 (n + 1) \<Longrightarrow>
      fst (rl_incr cl k w) = Inr (n + 1) \<and>
      view (snd (rl_incr cl k w)) = put_key k (RString (format_int (n + 1)), dl) (view w)"
    and expire_nx_sets: "rv_up (view w) \<Longrightarrow> rv_keys (view w) k = Some (x, None) \<Longrightarrow> 0 < d \<Longrightarrow>
      view (snd (rl_expire_nx cl k d w)) = put_key k (x, Some (rv_clock (view w) + ex d)) (view w)"
    and expire_nx_keeps: "rv_up (view w) \<Longrightarrow> rv_keys (view w) k = Some (x, Some t) \<Longrightarrow> 0 < d \<Longrightarrow>
      view (snd (rl_expire_nx cl k d w)) = view w"

section \<open>Sorted sets\<close>

text \<open>
  A sorted set is a finite set of members with a score, at most one score per member. Removing
  the last member removes the key. The limits of a score range and the members travel as decimal
  strings; the server reads a score as a double.
\<close>

definition is_zset :: "zmember set \<Rightarrow> bool" where
  "is_zset Z \<longleftrightarrow> finite Z \<and> inj_on z_member Z"

definition put_zset :: "string \<Rightarrow> zmember set \<Rightarrow> instant option \<Rightarrow> redis_view \<Rightarrow> redis_view" where
  "put_zset k Z dl v = (if Z = {} then drop_key k v else put_key k (RZset Z, dl) v)"

locale redis_zset = redis_env view late elapse
  for view :: "'w \<Rightarrow> redis_view" and late elapse +
  fixes cl :: "'w ratelimit_client" and ex :: "duration \<Rightarrow> duration"
  assumes ex_pos: "0 < d \<Longrightarrow> 0 < ex d"
    and ex_exact: "second dvd d \<Longrightarrow> ex d = d"
    and zrem_absent: "rv_up (view w) \<Longrightarrow> rv_keys (view w) k = None \<Longrightarrow>
      view (snd (rl_zrem_range_by_score cl k lo hi w)) = view w"
    and zrem_present: "rv_up (view w) \<Longrightarrow> rv_keys (view w) k = Some (RZset Z, dl) \<Longrightarrow> is_zset Z \<Longrightarrow>
      view (snd (rl_zrem_range_by_score cl k (format_int m) (format_int n) w)) =
        put_zset k {z \<in> Z. \<not> (fl64 (of_int m) \<le> z_score z \<and> z_score z \<le> fl64 (of_int n))} dl (view w)"
    and zcard_absent: "rv_up (view w) \<Longrightarrow> rv_keys (view w) k = None \<Longrightarrow> fst (rl_zcard cl k w) = Inr 0"
    and zcard_present: "rv_up (view w) \<Longrightarrow> rv_keys (view w) k = Some (RZset Z, dl) \<Longrightarrow> is_zset Z \<Longrightarrow>
      fst (rl_zcard cl k w) = Inr (int (card Z))"
    and zcard_view: "rv_up (view w) \<Longrightarrow> view (snd (rl_zcard cl k w)) = view w"
    and zrange_present: "rv_up (view w) \<Longrightarrow> rv_keys (view w) k = Some (RZset Z, dl) \<Longrightarrow> is_zset Z \<Longrightarrow>
      fst (rl_zrange_with_scores cl k 0 0 w) = Inr (take 1 (sorted_list_of_set Z))"
    and zrange_view: "rv_up (view w) \<Longrightarrow> view (snd (rl_zrange_with_scores cl k 0 0 w)) = view w"
    and zadd_absent: "rv_up (view w) \<Longrightarrow> rv_keys (view w) k = None \<Longrightarrow>
      fst (rl_zadd cl k [(x, m)] w) = Inr 1 \<and>
      view (snd (rl_zadd cl k [(x, m)] w)) = put_key k (RZset {Zm x (format_int m)}, None) (view w)"
    and zadd_present: "rv_up (view w) \<Longrightarrow> rv_keys (view w) k = Some (RZset Z, dl) \<Longrightarrow> is_zset Z \<Longrightarrow>
      (\<exists>n. fst (rl_zadd cl k [(x, m)] w) = Inr n) \<and>
      view (snd (rl_zadd cl k [(x, m)] w)) =
        put_key k (RZset (insert (Zm x (format_int m)) {z \<in> Z. z_member z \<noteq> format_int m}), dl) (view w)"
    and expire_sets: "rv_up (view w) \<Longrightarrow> rv_keys (view w) k = Some (y, dl) \<Longrightarrow> 0 < d \<Longrightarrow>
      view (snd (rl_expire cl k d w)) = put_key k (y, Some (rv_clock (view w) + ex d)) (view w)"

section \<open>Scripts\<close>

text \<open>
  \<open>EVAL\<close> runs a script as one step of the server, on the commands \<open>rc\<close>; a table of numbers
  becomes an array of integers, which drops the fractions. The commands work on hashes whose
  fields hold numbers (printed with enough digits to read the same double back).
\<close>

definition table_reply :: "rat list res \<Rightarrow> reply res" where
  "table_reply r = (case r of Inl e \<Rightarrow> Inl e | Inr xs \<Rightarrow> Inr (RArr (map (\<lambda>x. RInt (trunc x)) xs)))"

locale redis_scripts = redis_env view late elapse
  for view :: "'w \<Rightarrow> redis_view" and late elapse +
  fixes cl :: "'w ratelimit_client" and rc :: "'w redis_call"
  assumes eval_reply: "rv_up (view w) \<Longrightarrow>
      fst (rl_eval cl f ks as w) = table_reply (fst (f rc ks as w))"
    and eval_view: "rv_up (view w) \<Longrightarrow> view (snd (rl_eval cl f ks as w)) = view (snd (f rc ks as w))"
    and hmget_absent: "rv_up (view w) \<Longrightarrow> rv_keys (view w) k = None \<Longrightarrow>
      fst (rc_hmget rc k fs w) = Inr (map (\<lambda>_. None) fs)"
    and hmget_present: "rv_up (view w) \<Longrightarrow> rv_keys (view w) k = Some (RHash h, dl) \<Longrightarrow>
      fst (rc_hmget rc k fs w) = Inr (map h fs)"
    and hmget_view: "rv_up (view w) \<Longrightarrow> view (snd (rc_hmget rc k fs w)) = view w"
    and hmset_absent: "rv_up (view w) \<Longrightarrow> rv_keys (view w) k = None \<Longrightarrow>
      fst (rc_hmset rc k fvs w) = Inr () \<and>
      view (snd (rc_hmset rc k fvs w)) = put_key k (RHash (map_of (rev fvs)), None) (view w)"
    and hmset_present: "rv_up (view w) \<Longrightarrow> rv_keys (view w) k = Some (RHash h, dl) \<Longrightarrow>
      fst (rc_hmset rc k fvs w) = Inr () \<and>
      view (snd (rc_hmset rc k fvs w)) = put_key k (RHash (h ++ map_of (rev fvs)), dl) (view w)"
    and hset_present: "rv_up (view w) \<Longrightarrow> rv_keys (view w) k = Some (RHash h, dl) \<Longrightarrow>
      fst (rc_hset rc k fvs w) = Inr () \<and>
      view (snd (rc_hset rc k fvs w)) = put_key k (RHash (h ++ map_of (rev fvs)), dl) (view w)"
    and expire_call: "rv_up (view w) \<Longrightarrow> rv_keys (view w) k = Some (x, dl) \<Longrightarrow> 0 < n \<Longrightarrow>
      fst (rc_expire rc k n w) = Inr 1 \<and>
      view (snd (rc_expire rc k n w)) = put_key k (x, Some (rv_clock (view w) + n * second)) (view w)"

end
