(* ===== verification/RateLimit.thy ===== *)
theory RateLimit
  imports Redis_Limits
begin

text \<open>
  \<open>middleware/ratelimit/store.go\<close>: the rate limit store and its three algorithms. The Lua script
  of the token bucket is translated statement by statement as \<open>token_bucket_script\<close>, with the
  commands it calls as the parameter \<open>rc\<close>. The commands whose result the code drops
  (\<open>ZREMRANGEBYSCORE\<close>, \<open>EXPIRE\<close>, \<open>EXPIRE NX\<close>) are run for their effect only. Every check
  answers: allowed or not, how many requests remain, when the limit resets.
\<close>

type_synonym decision = "bool \<times> int \<times> instant"

text \<open>The algorithm is a string; the constants of zerohttp are distinct and not empty.\<close>

datatype algorithm =
    NoAlgorithm
  | TokenBucket
  | FixedWindow
  | SlidingWindow
  | OtherAlgorithm string

record rate_store_config =
  rc_Algorithm :: algorithm
  rc_Window :: duration
  rc_Rate :: int
  rc_KeyPrefix :: string

record 'w rate_store =
  rl_client :: "'w ratelimit_client"
  rl_window :: duration
  rl_rate :: int
  rl_algorithm :: algorithm
  rl_keyPrefix :: string

definition DefaultRedisStoreConfig :: rate_store_config where
  "DefaultRedisStoreConfig =
     \<lparr>rc_Algorithm = TokenBucket, rc_Window = minute, rc_Rate = 100, rc_KeyPrefix = ''ratelimit:''\<rparr>"

definition NewRateLimitStore ::
  "'w ratelimit_client \<Rightarrow> rate_store_config list \<Rightarrow> 'w rate_store" where
  "NewRateLimitStore client cfg =
     (let c = DefaultRedisStoreConfig;
          c = (case cfg of
                 [] \<Rightarrow> c
               | u # _ \<Rightarrow>
                   (let c = (if rc_Algorithm u \<noteq> NoAlgorithm then c\<lparr>rc_Algorithm := rc_Algorithm u\<rparr> else c);
                        c = (if rc_Window u \<noteq> 0 then c\<lparr>rc_Window := rc_Window u\<rparr> else c);
                        c = (if rc_Rate u \<noteq> 0 then c\<lparr>rc_Rate := rc_Rate u\<rparr> else c);
                        c = (if rc_KeyPrefix u \<noteq> '''' then c\<lparr>rc_KeyPrefix := rc_KeyPrefix u\<rparr> else c)
                    in c))
      in \<lparr>rl_client = client, rl_window = rc_Window c, rl_rate = rc_Rate c,
          rl_algorithm = rc_Algorithm c, rl_keyPrefix = rc_KeyPrefix c\<rparr>)"

section \<open>Token bucket\<close>

definition lua_error :: go_error where
  "lua_error = NewError ''ERR attempt to perform arithmetic on a nil value''"

definition token_bucket_script :: "'w script" where
  "token_bucket_script rc KEYS ARGV =
     (case (KEYS, ARGV) of
        ([key], [arg1, arg2, arg3]) \<Rightarrow>
          (let capacity = fl64 arg1; refill_rate = fl64 arg2; now = fl64 arg3
           in and_then (rc_hmget rc key [''tokens'', ''last_refill'']) (\<lambda>bucket.
             (case bucket of
                [None, _] \<Rightarrow>
                  (let tokens = fl64 (capacity - 1)
                   in and_then (rc_hmset rc key [(''tokens'', tokens), (''last_refill'', now)]) (\<lambda>_.
                      and_then (rc_expire rc key \<lceil>fl64 (capacity / refill_rate)\<rceil>) (\<lambda>_.
                      give [1, tokens,
                        of_int \<lfloor>fl64 (now + fl64 (fl64 (1 / refill_rate) * 1000))\<rfloor>])))
              | [Some tokens, Some last_refill] \<Rightarrow>
                  (let elapsed = fl64 (fl64 (now - last_refill) / 1000);
                       refill = fl64 (elapsed * refill_rate);
                       tokens = min capacity (fl64 (tokens + refill))
                   in if 1 \<le> tokens
                      then (let tokens = fl64 (tokens - 1)
                            in and_then (rc_hmset rc key [(''tokens'', tokens), (''last_refill'', now)]) (\<lambda>_.
                               let reset_time = fl64 (now +
                                     of_int \<lceil>fl64 (fl64 (fl64 (1 - tokens) / refill_rate) * 1000)\<rceil>)
                               in give [1, of_int \<lfloor>tokens\<rfloor>, reset_time]))
                      else and_then (rc_hset rc key [(''last_refill'', now)]) (\<lambda>_.
                           let reset_time = fl64 (now +
                                 of_int \<lceil>fl64 (fl64 (fl64 (1 - tokens) / refill_rate) * 1000)\<rceil>)
                           in give [0, 0, reset_time]))
              | _ \<Rightarrow> raise lua_error)))
      | _ \<Rightarrow> raise lua_error)"

definition not_int64 :: go_error where
  "not_int64 = Panicked (NewError ''interface conversion: not int64'')"

definition fail_open :: "'w rate_store \<Rightarrow> instant \<Rightarrow> decision" where
  "fail_open s now = (True, rl_rate s - 1, now + rl_window s)"

definition tb_key :: "'w rate_store \<Rightarrow> string \<Rightarrow> string" where
  "tb_key s key = rl_keyPrefix s @ ''tb:'' @ key"

definition checkTokenBucket :: "'w rate_store \<Rightarrow> string \<Rightarrow> instant \<Rightarrow> ('w, decision) act" where
  "checkTokenBucket s key now w =
     (let redisKey = tb_key s key;
          capacity = fl64 (of_int (rl_rate s));
          refillRate = fl64 (capacity / duration_seconds (rl_window s));
          (r, w) = rl_eval (rl_client s) token_bucket_script [redisKey]
                     [capacity, refillRate, of_int (unix_milli now)] w
      in (case r of
            Inl err \<Rightarrow> Inr (fail_open s now)
          | Inr result \<Rightarrow>
              (case result of
                 RArr [v0, v1, v2] \<Rightarrow>
                   (case (v0, v1, v2) of
                      (RInt a, RInt b, RInt c) \<Rightarrow> Inr (a = 1, b, of_unix_milli c)
                    | _ \<Rightarrow> Inl not_int64)
               | _ \<Rightarrow> Inr (fail_open s now)), w))"

section \<open>Fixed window\<close>

definition fw_key :: "'w rate_store \<Rightarrow> string \<Rightarrow> string" where
  "fw_key s key = rl_keyPrefix s @ ''fw:'' @ key"

definition checkFixedWindow :: "'w rate_store \<Rightarrow> string \<Rightarrow> instant \<Rightarrow> 'w \<Rightarrow> decision \<times> 'w" where
  "checkFixedWindow s key now w =
     (let redisKey = fw_key s key;
          (r, w) = rl_incr (rl_client s) redisKey w
      in case r of
           Inl err \<Rightarrow> (fail_open s now, w)
         | Inr count \<Rightarrow>
             (let w = (if count = 1 then snd (rl_expire_nx (rl_client s) redisKey (rl_window s) w) else w);
                  resetTime = now + rl_window s
              in if count > rl_rate s then ((False, 0, resetTime), w)
                 else ((True, rl_rate s - count, resetTime), w)))"

section \<open>Sliding window\<close>

definition sw_key :: "'w rate_store \<Rightarrow> string \<Rightarrow> string" where
  "sw_key s key = rl_keyPrefix s @ ''sw:'' @ key"

definition checkSlidingWindow :: "'w rate_store \<Rightarrow> string \<Rightarrow> instant \<Rightarrow> 'w \<Rightarrow> decision \<times> 'w" where
  "checkSlidingWindow s key now w =
     (let windowStart = now + wrap64 (- rl_window s);
          redisKey = sw_key s key;
          w = snd (rl_zrem_range_by_score (rl_client s) redisKey ''0''
                     (format_int (unix_milli windowStart)) w);
          (r, w) = rl_zcard (rl_client s) redisKey w
      in case r of
           Inl err \<Rightarrow> (fail_open s now, w)
         | Inr count \<Rightarrow>
             if count \<ge> rl_rate s
             then (let (oldest, w) = rl_zrange_with_scores (rl_client s) redisKey 0 0 w;
                       resetTime = (case oldest of
                           Inr (z # _) \<Rightarrow> of_unix_milli (float_to_int64 (z_score z)) + rl_window s
                         | _ \<Rightarrow> now + rl_window s)
                   in ((False, 0, resetTime), w))
             else (let (r, w) = rl_zadd (rl_client s) redisKey
                                  [(fl64 (of_int (unix_milli now)), unix_nano now)] w
                   in case r of
                        Inl err \<Rightarrow> (fail_open s now, w)
                      | Inr _ \<Rightarrow>
                          (let w = snd (rl_expire (rl_client s) redisKey (rl_window s) w);
                               remaining = rl_rate s - count - 1;
                               resetTime = now + rl_window s
                           in ((True, remaining, resetTime), w))))"

section \<open>The store\<close>

definition CheckAndRecord :: "'w rate_store \<Rightarrow> string \<Rightarrow> instant \<Rightarrow> ('w, decision) act" where
  "CheckAndRecord s key now w =
     (case rl_algorithm s of
        TokenBucket \<Rightarrow> checkTokenBucket s key now w
      | FixedWindow \<Rightarrow> (let (d, w) = checkFixedWindow s key now w in (Inr d, w))
      | SlidingWindow \<Rightarrow> (let (d, w) = checkSlidingWindow s key now w in (Inr d, w))
      | _ \<Rightarrow> checkTokenBucket s key now w)"

definition RateLimitStore_Close :: "'w rate_store \<Rightarrow> ('w, unit) act" where
  "RateLimitStore_Close s w = rl_close (rl_client s) w"

end
