(* ===== verification/Redis_Limits_Server.thy ===== *)
theory Redis_Limits_Server
  imports Redis_Limits Redis_Server
begin

text \<open>
  The commands of \<open>Redis_Limits\<close> on the concrete server of \<open>Redis_Server\<close>. Not code of the
  repository: it interprets the locales, and the witnesses of the rate limiter run on it.
\<close>

definition srv_incr :: "string \<Rightarrow> (redis_view, int) act" where
  "srv_incr k = when_up (\<lambda>v. case rv_keys v k of
       None \<Rightarrow> (Inr 1, put_key k (RString (format_int 1), None) v)
     | Some (RString x, dl) \<Rightarrow>
         (let n = parse_int x
          in if format_int n = x \<and> in_i64 n \<and> in_i64 (n + 1)
             then (Inr (n + 1), put_key k (RString (format_int (n + 1)), dl) v)
             else (Inl (NewError ''ERR value is not an integer or out of range''), v))
     | _ \<Rightarrow> (Inl wrong_type, v))"

definition srv_expire_nx :: "string \<Rightarrow> duration \<Rightarrow> (redis_view, bool) act" where
  "srv_expire_nx k d = when_up (\<lambda>v. case rv_keys v k of
       Some (x, None) \<Rightarrow>
         (Inr True, if 0 < d then put_key k (x, Some (rv_clock v + wire_sec d)) v else drop_key k v)
     | _ \<Rightarrow> (Inr False, v))"

definition srv_expire :: "string \<Rightarrow> duration \<Rightarrow> (redis_view, bool) act" where
  "srv_expire k d = when_up (\<lambda>v. case rv_keys v k of
       Some (x, dl) \<Rightarrow>
         (Inr True, if 0 < d then put_key k (x, Some (rv_clock v + wire_sec d)) v else drop_key k v)
     | None \<Rightarrow> (Inr False, v))"

definition on_zset ::
  "string \<Rightarrow> (redis_view \<Rightarrow> zmember set \<times> instant option \<Rightarrow> 'a res \<times> redis_view) \<Rightarrow> (redis_view, 'a) act" where
  "on_zset k f = when_up (\<lambda>v. case rv_keys v k of
       None \<Rightarrow> f v ({}, None)
     | Some (RZset Z, dl) \<Rightarrow> f v (Z, dl)
     | _ \<Rightarrow> (Inl wrong_type, v))"

definition srv_zrem :: "string \<Rightarrow> string \<Rightarrow> string \<Rightarrow> (redis_view, int) act" where
  "srv_zrem k lo hi = on_zset k (\<lambda>v (Z, dl).
     (let old = {z \<in> Z. fl64 (of_int (parse_int lo)) \<le> z_score z \<and> z_score z \<le> fl64 (of_int (parse_int hi))}
      in (Inr (int (card old)), put_zset k (Z - old) dl v)))"

definition srv_zcard :: "string \<Rightarrow> (redis_view, int) act" where
  "srv_zcard k = on_zset k (\<lambda>v (Z, dl). (Inr (int (card Z)), v))"

definition srv_zrange :: "string \<Rightarrow> int \<Rightarrow> int \<Rightarrow> (redis_view, zmember list) act" where
  "srv_zrange k i j = on_zset k (\<lambda>v (Z, dl).
     (Inr (take (nat (j - i + 1)) (drop (nat i) (sorted_list_of_set Z))), v))"

definition srv_zadd :: "string \<Rightarrow> (rat \<times> int) list \<Rightarrow> (redis_view, int) act" where
  "srv_zadd k ms = on_zset k (\<lambda>v (Z, dl).
     (let Z' = fold (\<lambda>(x, m) Z. insert (Zm x (format_int m)) {z \<in> Z. z_member z \<noteq> format_int m}) ms Z
      in (Inr (int (card Z') - int (card Z)), put_key k (RZset Z', dl) v)))"

definition on_hash ::
  "string \<Rightarrow> (redis_view \<Rightarrow> (string \<Rightarrow> rat option) \<times> instant option \<Rightarrow> 'a res \<times> redis_view) \<Rightarrow>
     (redis_view, 'a) act" where
  "on_hash k f = when_up (\<lambda>v. case rv_keys v k of
       None \<Rightarrow> f v ((\<lambda>_. None), None)
     | Some (RHash h, dl) \<Rightarrow> f v (h, dl)
     | _ \<Rightarrow> (Inl wrong_type, v))"

definition srv_hmget :: "string \<Rightarrow> string list \<Rightarrow> (redis_view, rat option list) act" where
  "srv_hmget k fs = on_hash k (\<lambda>v (h, dl). (Inr (map h fs), v))"

definition srv_hset :: "string \<Rightarrow> (string \<times> rat) list \<Rightarrow> (redis_view, unit) act" where
  "srv_hset k fvs = on_hash k (\<lambda>v (h, dl). (Inr (), put_key k (RHash (h ++ map_of (rev fvs)), dl) v))"

definition srv_call_expire :: "string \<Rightarrow> int \<Rightarrow> (redis_view, int) act" where
  "srv_call_expire k n = when_up (\<lambda>v. case rv_keys v k of
       Some (x, dl) \<Rightarrow>
         (Inr 1, if 0 < n then put_key k (x, Some (rv_clock v + n * second)) v else drop_key k v)
     | None \<Rightarrow> (Inr 0, v))"

definition srv_calls :: "redis_view redis_call" where
  "srv_calls = \<lparr>rc_hmget = srv_hmget, rc_hmset = srv_hset, rc_hset = srv_hset,
     rc_expire = srv_call_expire\<rparr>"

definition srv_eval :: "redis_view script \<Rightarrow> string list \<Rightarrow> rat list \<Rightarrow> (redis_view, reply) act" where
  "srv_eval f ks as = when_up (\<lambda>v. let (r, v') = f srv_calls ks as v in (table_reply r, v'))"

definition lim_client :: "redis_view ratelimit_client" where
  "lim_client = \<lparr>rl_zrem_range_by_score = srv_zrem, rl_zcard = srv_zcard,
     rl_zrange_with_scores = srv_zrange, rl_zadd = srv_zadd, rl_expire = srv_expire,
     rl_incr = srv_incr, rl_expire_nx = srv_expire_nx, rl_eval = srv_eval, rl_close = srv_close\<rparr>"

lemma lim_client_sel [simp]:
  "rl_zrem_range_by_score lim_client = srv_zrem" "rl_zcard lim_client = srv_zcard"
  "rl_zrange_with_scores lim_client = srv_zrange" "rl_zadd lim_client = srv_zadd"
  "rl_expire lim_client = srv_expire" "rl_incr lim_client = srv_incr"
  "rl_expire_nx lim_client = srv_expire_nx" "rl_eval lim_client = srv_eval"
  "rl_close lim_client = srv_close"
  by (simp_all add: lim_client_def)

lemma srv_calls_sel [simp]:
  "rc_hmget srv_calls = srv_hmget" "rc_hmset srv_calls = srv_hset" "rc_hset srv_calls = srv_hset"
  "rc_expire srv_calls = srv_call_expire"
  by (simp_all add: srv_calls_def)

lemma put_zset_same: "rv_keys v k = None \<Longrightarrow> put_zset k {} dl v = v"
  by (simp add: put_zset_def drop_key_def fun_upd_idem)

interpretation lim_counter: redis_counter "\<lambda>v. v" late_at "age late_at" lim_client wire_sec
  by unfold_locales
    (auto simp: srv_incr_def srv_expire_nx_def when_up_def wire_sec_pos wire_sec_exact)

interpretation lim_zset: redis_zset "\<lambda>v. v" late_at "age late_at" lim_client wire_sec
  by unfold_locales
    (auto simp: srv_zrem_def srv_zcard_def srv_zrange_def srv_zadd_def srv_expire_def on_zset_def
      when_up_def wire_sec_pos wire_sec_exact put_zset_same Let_def split: option.split redis_obj.split
      intro!: arg_cong [where f = "\<lambda>Z. put_zset _ Z _ _"])

interpretation lim_scripts: redis_scripts "\<lambda>v. v" late_at "age late_at" lim_client srv_calls
  by unfold_locales
    (auto simp: srv_eval_def srv_hmget_def srv_hset_def srv_call_expire_def on_hash_def
      when_up_def case_prod_unfold Let_def split: option.split redis_obj.split)

end
