(* ===== verification/Rate_Fixed.thy ===== *)
theory Rate_Fixed
  imports RateLimit Redis_Limits_Server
begin

text \<open>
  The fixed window: what a request sees and leaves behind, runs of requests, the exact answers
  within one life of the counter and the bound on the requests admitted in any run. The time that
  passes before a request is the server's; \<open>now\<close>, which the caller passes in, is the clock of
  whichever process serves the request and may be anything.
\<close>

section \<open>Runs of requests\<close>

fun check_run ::
  "(instant \<Rightarrow> 'w \<Rightarrow> 'd \<times> 'w) \<Rightarrow> (duration \<Rightarrow> 'w \<Rightarrow> 'w) \<Rightarrow> (duration \<times> instant) list \<Rightarrow> 'w \<Rightarrow> 'd list \<times> 'w" where
  "check_run f elapse [] w = ([], w)"
| "check_run f elapse ((d, now) # rs) w =
     (let (x, w) = f now (elapse d w); (xs, w) = check_run f elapse rs w in (x # xs, w))"

definition gaps_ok :: "(duration \<times> instant) list \<Rightarrow> bool" where
  "gaps_ok rs \<longleftrightarrow> (\<forall>(d, now) \<in> set rs. 0 \<le> d)"

definition run_span :: "(duration \<times> instant) list \<Rightarrow> duration" where
  "run_span rs = sum_list (map fst rs)"

definition admitted :: "decision list \<Rightarrow> int" where
  "admitted ds = int (length (filter fst ds))"

lemma gaps_ok_simps [simp]:
  "gaps_ok []"
  "gaps_ok ((d, now) # rs) \<longleftrightarrow> 0 \<le> d \<and> gaps_ok rs"
  by (auto simp: gaps_ok_def)

lemma run_span_simps [simp]:
  "run_span [] = 0"
  "run_span ((d, now) # rs) = d + run_span rs"
  by (simp_all add: run_span_def)

lemma run_span_nonneg: "gaps_ok rs \<Longrightarrow> 0 \<le> run_span rs"
  by (induction rs) auto

lemma admitted_simps [simp]:
  "admitted [] = 0"
  "admitted (x # ds) = (if fst x then 1 else 0) + admitted ds"
  by (simp_all add: admitted_def)

lemma admitted_nonneg [simp]: "0 \<le> admitted ds"
  by (simp add: admitted_def)

lemma check_run_Cons:
  "check_run f elapse ((d, now) # rs) w =
     (fst (f now (elapse d w)) # fst (check_run f elapse rs (snd (f now (elapse d w)))),
      snd (check_run f elapse rs (snd (f now (elapse d w)))))"
  by (simp add: case_prod_unfold Let_def)

lemma check_run_length [simp]: "length (fst (check_run f elapse rs w)) = length rs"
  by (induction rs arbitrary: w) (auto simp: check_run_Cons simp del: check_run.simps(2))

declare check_run.simps(2) [simp del]

text \<open>
  How many keys with a life of \<open>e\<close> can be created within \<open>t\<close> nanoseconds if the first one cannot
  be created before \<open>l\<close> and each only after the one before it has expired.
\<close>

definition lives :: "int \<Rightarrow> int \<Rightarrow> int \<Rightarrow> int" where
  "lives e l t = (if t < l then 0 else (t - l) div e + 1)"

lemma lives_shift: "lives e (l - d) (t - d) = lives e l t"
  by (simp add: lives_def)

lemma lives_nonneg: "0 < e \<Longrightarrow> 0 \<le> lives e l t"
  by (simp add: lives_def pos_imp_zdiv_nonneg_iff)

lemma lives_new:
  assumes "0 < e" and "l \<le> t"
  shows "lives e e (t - l) + 1 = lives e l t"
proof (cases "t - l < e")
  case True
  then show ?thesis using assms by (simp add: lives_def div_pos_pos_trivial)
next
  case False
  have "(t - l) div e = (t - l - e + 1 * e) div e" by simp
  also have "\<dots> = (t - l - e) div e + 1" using assms(1) by (subst div_mult_self1) simp_all
  finally show ?thesis using False assms by (simp add: lives_def)
qed

lemma lives_mono:
  assumes "0 < e" and "l' \<le> l" and "t \<le> t'"
  shows "lives e l t \<le> lives e l' t'"
proof -
  have "(t - l) div e \<le> (t' - l') div e" using assms by (intro zdiv_mono1) simp_all
  moreover have "0 \<le> (t' - l') div e" if "l' \<le> t'"
    using that assms(1) by (simp add: pos_imp_zdiv_nonneg_iff)
  ultimately show ?thesis using assms by (auto simp: lives_def)
qed

section \<open>One request\<close>

text \<open>The answer to the request that makes the counter \<open>n\<close>.\<close>

definition fw_decision :: "'w rate_store \<Rightarrow> int \<Rightarrow> instant \<Rightarrow> decision" where
  "fw_decision s n now = (n \<le> rl_rate s, max 0 (rl_rate s - n), now + rl_window s)"

lemma fw_decision_sel [simp]:
  "fst (fw_decision s n now) \<longleftrightarrow> n \<le> rl_rate s"
  by (simp add: fw_decision_def)

locale fixed_window = redis_counter view late elapse "rl_client s" ex
  for view :: "'w \<Rightarrow> redis_view" and late elapse and s :: "'w rate_store" and ex +
  assumes window_pos: "0 < rl_window s"
begin

abbreviation counter :: "string \<Rightarrow> 'w \<Rightarrow> int \<Rightarrow> instant option \<Rightarrow> bool" where
  "counter key w n dl \<equiv>
     rv_up (view w) \<and> rv_keys (view w) (fw_key s key) = Some (RString (format_int n), dl)"

abbreviation fresh :: "string \<Rightarrow> 'w \<Rightarrow> bool" where
  "fresh key w \<equiv> rv_up (view w) \<and> rv_keys (view w) (fw_key s key) = None"

lemma check_fresh:
  assumes "fresh key w"
  shows "fst (checkFixedWindow s key now w) = fw_decision s 1 now"
    and "counter key (snd (checkFixedWindow s key now w)) 1
      (Some (rv_clock (view w) + ex (rl_window s)))"
    and "rv_clock (view (snd (checkFixedWindow s key now w))) = rv_clock (view w)"
proof -
  let ?w = "snd (rl_incr (rl_client s) (fw_key s key) w)"
  let ?e = "snd (rl_expire_nx (rl_client s) (fw_key s key) (rl_window s) ?w)"
  have i: "fst (rl_incr (rl_client s) (fw_key s key) w) = Inr 1"
    "view ?w = put_key (fw_key s key) (RString (format_int 1), None) (view w)"
    using incr_absent assms by auto
  have e: "view ?e = put_key (fw_key s key)
      (RString (format_int 1), Some (rv_clock (view w) + ex (rl_window s))) (view ?w)"
    using expire_nx_sets [of ?w "fw_key s key" "RString (format_int 1)" "rl_window s"] i(2) assms window_pos
    by simp
  have r: "checkFixedWindow s key now w = (fw_decision s 1 now, ?e)"
    by (simp add: checkFixedWindow_def Let_def case_prod_unfold i(1) fw_decision_def)
  show "fst (checkFixedWindow s key now w) = fw_decision s 1 now"
    "counter key (snd (checkFixedWindow s key now w)) 1 (Some (rv_clock (view w) + ex (rl_window s)))"
    "rv_clock (view (snd (checkFixedWindow s key now w))) = rv_clock (view w)"
    using assms by (simp_all add: r e i(2))
qed

lemma check_counter:
  assumes "counter key w n dl" and "1 \<le> n" and "n + 1 < 2 ^ 63"
  shows "fst (checkFixedWindow s key now w) = fw_decision s (n + 1) now"
    and "counter key (snd (checkFixedWindow s key now w)) (n + 1) dl"
    and "rv_clock (view (snd (checkFixedWindow s key now w))) = rv_clock (view w)"
proof -
  let ?w = "snd (rl_incr (rl_client s) (fw_key s key) w)"
  have i: "fst (rl_incr (rl_client s) (fw_key s key) w) = Inr (n + 1)"
    "view ?w = put_key (fw_key s key) (RString (format_int (n + 1)), dl) (view w)"
    using incr_present [of w "fw_key s key" n dl] assms by (auto simp: in_i64_def)
  have r: "checkFixedWindow s key now w = (fw_decision s (n + 1) now, ?w)"
    using assms(2) by (simp add: checkFixedWindow_def Let_def case_prod_unfold i(1) fw_decision_def)
  show "fst (checkFixedWindow s key now w) = fw_decision s (n + 1) now"
    "counter key (snd (checkFixedWindow s key now w)) (n + 1) dl"
    "rv_clock (view (snd (checkFixedWindow s key now w))) = rv_clock (view w)"
    using assms(1) by (simp_all add: r i(2))
qed

section \<open>Within one life of the counter\<close>

lemma run_counter:
  assumes "counter key w n dl" and "1 \<le> n" and "n + int (length rs) < 2 ^ 63" and "gaps_ok rs"
    and "case dl of None \<Rightarrow> True | Some t \<Rightarrow> rv_clock (view w) + run_span rs < t"
    and "i < length rs"
  shows "fst (check_run (checkFixedWindow s key) elapse rs w) ! i =
      fw_decision s (n + int i + 1) (snd (rs ! i))"
  using assms
proof (induction rs arbitrary: w n i)
  case (Cons r rs)
  obtain d now where r: "r = (d, now)" by (cases r)
  have gaps: "0 \<le> d" "gaps_ok rs" "0 \<le> run_span rs"
      using Cons.prems(4) by (simp_all add: r run_span_nonneg)
  let ?w = "elapse d w"
  have c: "counter key ?w n dl"
    using Cons.prems(1,5) gaps elapse_keeps [OF gaps(1), of w "fw_key s key" "RString (format_int n)" dl]
    by (auto simp: r split: option.splits)
  have n: "n + 1 < 2 ^ 63" using Cons.prems(3) by simp
  note step = check_counter [OF c Cons.prems(2) n, of now]
  show ?case
  proof (cases i)
    case 0
    then show ?thesis by (simp add: r check_run_Cons step(1))
  next
    case (Suc j)
    have "fst (check_run (checkFixedWindow s key) elapse rs (snd (checkFixedWindow s key now ?w))) ! j =
        fw_decision s (n + 1 + int j + 1) (snd (rs ! j))"
      by (rule Cons.IH [OF step(2)])
        (use Cons.prems gaps Suc in \<open>auto simp: r step(3) split: option.splits\<close>)
    then show ?thesis by (simp add: r check_run_Cons Suc algebra_simps)
  qed
qed simp

text \<open>From a fresh key: the request \<open>i\<close> of the run is answered as the \<open>i + 1\<close>-st.\<close>

lemma run_fresh:
  assumes "fresh key w" and "gaps_ok rs" and "run_span rs < ex (rl_window s)"
    and "int (length rs) < 2 ^ 62" and "i \<le> length rs" and "0 \<le> d"
  shows "fst (check_run (checkFixedWindow s key) elapse ((d, now) # rs) w) ! i =
      fw_decision s (int i + 1) (snd (((d, now) # rs) ! i))"
proof -
  let ?w = "elapse d w"
  have fr: "fresh key ?w" using assms(1,6) elapse_absent by simp
  note step = check_fresh [OF fr, of now]
  show ?thesis
  proof (cases i)
    case 0
    then show ?thesis by (simp add: check_run_Cons step(1))
  next
    case (Suc j)
    then show ?thesis
      using run_counter [OF step(2), of rs j] assms(2-5) step(3) assms(6)
      by (simp add: check_run_Cons add.commute)
  qed
qed

section \<open>The bound on a run\<close>

text \<open>
  The most that can be admitted from a counter at \<open>n\<close> whose deadline is \<open>l\<close> away, in a run that
  lasts \<open>t\<close>: what is left of this life, and a full allowance for every life that can start.
\<close>

definition allowance :: "int \<Rightarrow> int \<Rightarrow> int" where
  "allowance l t = rl_rate s * lives (ex (rl_window s)) l t"

lemma ex_window_pos: "0 < ex (rl_window s)"
  by (rule ex_pos [OF window_pos])

lemma allowance_shift: "allowance (l - d) (t - d) = allowance l t"
  by (simp add: allowance_def lives_shift)

lemma allowance_nonneg: "0 \<le> rl_rate s \<Longrightarrow> 0 \<le> allowance l t"
  by (simp add: allowance_def lives_nonneg [OF ex_window_pos])

lemma allowance_new:
  "0 \<le> rl_rate s \<Longrightarrow> l \<le> t \<Longrightarrow> rl_rate s + allowance (ex (rl_window s)) (t - l) = allowance l t"
  by (simp add: allowance_def algebra_simps flip: lives_new [OF ex_window_pos])

lemma allowance_mono:
  "0 \<le> rl_rate s \<Longrightarrow> l' \<le> l \<Longrightarrow> t \<le> t' \<Longrightarrow> allowance l t \<le> allowance l' t'"
  by (simp add: allowance_def mult_left_mono lives_mono [OF ex_window_pos])

lemma run_bound:
  assumes "0 \<le> rl_rate s" and "n + int (length rs) < 2 ^ 63" and "gaps_ok rs" and "1 \<le> n"
  shows "counter key w n (Some (rv_clock (view w) + l)) \<Longrightarrow>
      admitted (fst (check_run (checkFixedWindow s key) elapse rs w)) \<le>
        max 0 (rl_rate s - n) + allowance l (run_span rs)"
    and "fresh key w \<Longrightarrow>
      admitted (fst (check_run (checkFixedWindow s key) elapse rs w)) \<le> allowance 0 (run_span rs)"
  using assms(2-4)
proof (induction rs arbitrary: w n l)
  case Nil
  {
    case 1
    show ?case using allowance_nonneg [OF assms(1), of l 0] by simp
  next
    case 2
    show ?case using allowance_nonneg [OF assms(1), of 0 0] by simp
  }
next
  case (Cons r rs)
  obtain d now where r: "r = (d, now)" by (cases r)
  let ?e = "ex (rl_window s)"
  have fresh_step: "admitted (fst (check_run (checkFixedWindow s key) elapse (r # rs) w)) \<le>
      allowance d (d + run_span rs)"
    if "fresh key (elapse d w)" "int (length rs) + 1 < 2 ^ 63" "gaps_ok rs" for w
  proof -
    let ?w = "snd (checkFixedWindow s key now (elapse d w))"
    note step = check_fresh [OF that(1), of now]
    have "admitted (fst (check_run (checkFixedWindow s key) elapse rs ?w)) \<le>
        max 0 (rl_rate s - 1) + allowance ?e (run_span rs)"
      using Cons.IH(1) [of ?w 1 ?e] step that(2,3) by simp
    moreover have "rl_rate s + allowance ?e (run_span rs) = allowance d (d + run_span rs)"
      using allowance_new [of d "d + run_span rs"] assms(1) run_span_nonneg [OF that(3)] by simp
    ultimately have "(if 1 \<le> rl_rate s then 1 else 0) +
        admitted (fst (check_run (checkFixedWindow s key) elapse rs ?w)) \<le> allowance d (d + run_span rs)"
      using assms(1) by (auto simp: max_def split: if_splits)
    then show ?thesis by (simp only: r check_run_Cons step(1) fst_conv admitted_simps fw_decision_sel)
  qed
  {
    case 1
    have gaps: "0 \<le> d" "gaps_ok rs" using 1(3) by (simp_all add: r)
    have len: "n + 1 + int (length rs) < 2 ^ 63" "int (length rs) + 1 < 2 ^ 63" using 1(2,4) by simp_all
    show ?case
    proof (cases "counter key (elapse d w) n (Some (rv_clock (view w) + l))")
      case True
      let ?w = "snd (checkFixedWindow s key now (elapse d w))"
      have n: "n + 1 < 2 ^ 63" using len by simp
      note step = check_counter [OF True 1(4) n, of now]
      have "counter key ?w (n + 1) (Some (rv_clock (view ?w) + (l - d)))"
        using step(2,3) gaps(1) by simp
      then have "admitted (fst (check_run (checkFixedWindow s key) elapse rs ?w)) \<le>
          max 0 (rl_rate s - (n + 1)) + allowance (l - d) (run_span rs)"
        using Cons.IH(1) [of ?w "n + 1" "l - d"] len gaps 1(4) by simp
      moreover have "allowance (l - d) (run_span rs) = allowance l (run_span (r # rs))"
        using allowance_shift [of l d "d + run_span rs"] by (simp add: r)
      ultimately have "(if n + 1 \<le> rl_rate s then 1 else 0) +
          admitted (fst (check_run (checkFixedWindow s key) elapse rs ?w)) \<le>
            max 0 (rl_rate s - n) + allowance l (run_span (r # rs))"
        by (auto simp: max_def split: if_splits)
      then show ?thesis by (simp only: r check_run_Cons step(1) fst_conv admitted_simps fw_decision_sel)
    next
      case False
      have up: "rv_up (view (elapse d w))" using 1(1) gaps(1) by simp
      have key: "rv_keys (view w) (fw_key s key) = Some (RString (format_int n), Some (rv_clock (view w) + l))"
        using 1(1) by simp
      with False up have "\<not> rv_clock (view w) + d < rv_clock (view w) + l"
        using elapse_keeps [OF gaps(1) key] by auto
      moreover have "rv_keys (view (elapse d w)) (fw_key s key) = None"
        using False up key gaps(1) by (auto simp: elapse_view age_keys split: if_splits)
      ultimately have "admitted (fst (check_run (checkFixedWindow s key) elapse (r # rs) w)) \<le>
          allowance d (d + run_span rs)" and "l \<le> d"
        using fresh_step [of w] up len(2) gaps(2) by simp_all
      moreover have "allowance d (d + run_span rs) \<le> allowance l (run_span (r # rs))"
        using \<open>l \<le> d\<close> allowance_mono [OF assms(1)] by (simp add: r)
      ultimately show ?thesis by linarith
    qed
  next
    case 2
    have gaps: "0 \<le> d" "gaps_ok rs" using 2(3) by (simp_all add: r)
    have "fresh key (elapse d w)" using 2(1) gaps(1) elapse_absent by simp
    then have "admitted (fst (check_run (checkFixedWindow s key) elapse (r # rs) w)) \<le>
        allowance d (d + run_span rs)"
      using fresh_step [of w] 2(2,4) gaps(2) by simp
    moreover have "allowance d (d + run_span rs) \<le> allowance 0 (run_span (r # rs))"
      using gaps(1) allowance_mono [OF assms(1)] by (simp add: r)
    ultimately show ?case by linarith
  }
qed

end

section \<open>Properties\<close>

definition demo_fixed :: "redis_view rate_store" where
  "demo_fixed = NewRateLimitStore lim_client
     [\<lparr>rc_Algorithm = FixedWindow, rc_Window = 10 * second, rc_Rate = 2, rc_KeyPrefix = ''''\<rparr>]"

lemma demo_fixed_sel [simp]:
  "rl_client demo_fixed = lim_client" "rl_window demo_fixed = 10 * second" "rl_rate demo_fixed = 2"
  "rl_algorithm demo_fixed = FixedWindow" "rl_keyPrefix demo_fixed = ''ratelimit:''"
  by (simp_all add: demo_fixed_def NewRateLimitStore_def DefaultRedisStoreConfig_def second_def Let_def)

interpretation demo_fixed: fixed_window "\<lambda>v. v" late_at "age late_at" demo_fixed wire_sec
  using lim_counter.redis_counter_axioms
  by (intro fixed_window.intro fixed_window_axioms.intro) (simp_all add: second_def)

text \<open>
  C26: the fixed window within one life of its counter. From an absent key, in a run of fewer than 2^62
  requests during which less than the window (in the whole seconds of EXPIRE) passes on the server after
  the first one, the request that comes after n others is allowed exactly if n + 1 is at most the rate,
  the remaining count is the rate minus n + 1 (0 once exceeded), and the reset time is the request's own
  clock plus a whole window, although the counter restarts one window after the first request; this holds
  whichever process serves each request and whatever its clock says.
\<close>

theorem fixed_window_answers:
  assumes "fixed_window view late elapse s ex"
    and "rv_up (view w)" and "rv_keys (view w) (fw_key s key) = None"
    and "gaps_ok rs" and "run_span rs < ex (rl_window s)" and "int (length rs) < 2 ^ 62"
    and "n \<le> length rs" and "0 \<le> d"
  shows "fst (check_run (checkFixedWindow s key) elapse ((d, now) # rs) w) ! n =
    (int n + 1 \<le> rl_rate s, max 0 (rl_rate s - (int n + 1)), snd (((d, now) # rs) ! n) + rl_window s)"
  using fixed_window.run_fresh [OF assms(1) _ assms(4-8), where key = key and w = w and now = now] assms(2,3)
  by (simp add: fw_decision_def)

theorem fixed_window_answers_witness:
  "fst (check_run (checkFixedWindow demo_fixed ''ip'') (age late_at)
     [(0, 7), (second, 8), (second, 9)] (empty_server 0)) ! 2 = (False, 0, 9 + 10 * second)"
  using fixed_window_answers [OF demo_fixed.fixed_window_axioms,
    of "empty_server 0" "''ip''" "[(second, 8), (second, 9)]" 2 0 7]
  by (simp add: wire_sec_exact second_def)

text \<open>
  C3: the limit that the fixed window enforces. In any run of requests on a key that is absent at
  its start, however many processes serve it and however the requests are spread over \<open>t\<close>
  nanoseconds of the server's time, at most rate * (t div window + 1) requests are allowed, the
  window taken in the whole seconds of EXPIRE.
\<close>

theorem fixed_window_bound:
  assumes "fixed_window view late elapse s ex"
    and "rv_up (view w)" and "rv_keys (view w) (fw_key s key) = None"
    and "0 \<le> rl_rate s" and "gaps_ok rs" and "int (length rs) < 2 ^ 62"
  shows "admitted (fst (check_run (checkFixedWindow s key) elapse rs w)) \<le>
    rl_rate s * (run_span rs div ex (rl_window s) + 1)"
  using fixed_window.run_bound(2) [OF assms(1,4), where n = 1 and rs = rs and key = key and w = w] assms(2,3,5,6) run_span_nonneg [OF assms(5)]
  by (simp add: fixed_window.allowance_def [OF assms(1)] lives_def)

theorem fixed_window_bound_witness:
  "admitted (fst (check_run (checkFixedWindow demo_fixed ''ip'') (age late_at)
     (replicate 1000 (second div 100, 0)) (empty_server 0))) \<le> 4"
proof -
  have "run_span (replicate 1000 (second div 100, 0)) = 10 * second"
    by (simp add: run_span_def sum_list_replicate second_def)
  then show ?thesis
    using fixed_window_bound [OF demo_fixed.fixed_window_axioms,
      of "empty_server 0" "''ip''" "replicate 1000 (second div 100, 0)"]
    by (simp add: wire_sec_exact gaps_ok_def second_def)
qed

text \<open>
  A lost EXPIRE locks a key out. If the process that makes the first request stops between INCR
  and EXPIRE NX, no later request sets a deadline: in every run afterwards, however long it waits,
  the request number n is answered as the n+1-st of one endless window, so all but the first
  rate - 1 are refused for ever.
\<close>

theorem fixed_window_lockout:
  assumes "fixed_window view late elapse s ex"
    and "rv_up (view w)" and "rv_keys (view w) (fw_key s key) = None"
    and "gaps_ok rs" and "int (length rs) < 2 ^ 62" and "n < length rs"
  shows "fst (check_run (checkFixedWindow s key) elapse rs
      (snd (rl_incr (rl_client s) (fw_key s key) w))) ! n =
    (int n + 2 \<le> rl_rate s, max 0 (rl_rate s - (int n + 2)), snd (rs ! n) + rl_window s)"
proof -
  let ?w = "snd (rl_incr (rl_client s) (fw_key s key) w)"
  have "view ?w = put_key (fw_key s key) (RString (format_int 1), None) (view w)"
    using redis_counter.incr_absent [OF fixed_window.axioms(1) [OF assms(1)] assms(2,3)] by blast
  then show ?thesis
    using fixed_window.run_counter [OF assms(1), where w = ?w and key = key and n = 1 and dl = None and rs = rs and i = n] assms(2-6)
    by (simp add: fw_decision_def add.commute)
qed

theorem fixed_window_lockout_witness:
  "fst (check_run (checkFixedWindow demo_fixed ''ip'') (age late_at)
     [(0, 0), (365 * 24 * 60 * minute, 0)] (snd (srv_incr ''ratelimit:fw:ip'' (empty_server 0)))) ! 1 =
     (False, 0, 10 * second)"
  using fixed_window_lockout [OF demo_fixed.fixed_window_axioms, of "empty_server 0" "''ip''"
    "[(0, 0), (365 * 24 * 60 * minute, 0)]" 1]
  by (simp add: fw_key_def duration_defs)

end
