(* ===== verification/Rate_Bucket.thy ===== *)
theory Rate_Bucket
  imports Rate_Fixed
begin

text \<open>
  The token bucket: the effect of one evaluation of the script on the hash that holds the bucket,
  in double-precision arithmetic, and runs of requests.
\<close>

definition refill_rate :: "'w rate_store \<Rightarrow> rat" where
  "refill_rate s = fl64 (of_int (rl_rate s) / duration_seconds (rl_window s))"

text \<open>
  The tokens at time \<open>n\<close> of a bucket that held \<open>t\<close> at time \<open>l\<close> (in milliseconds), and the reset
  time that the script computes from the tokens left.
\<close>

definition refilled :: "'w rate_store \<Rightarrow> rat \<Rightarrow> rat \<Rightarrow> rat \<Rightarrow> rat" where
  "refilled s t l n =
     min (of_int (rl_rate s)) (fl64 (t + fl64 (fl64 (fl64 (n - l) / 1000) * refill_rate s)))"

definition reset_at :: "'w rate_store \<Rightarrow> rat \<Rightarrow> rat \<Rightarrow> rat" where
  "reset_at s t n = fl64 (n + of_int \<lceil>fl64 (fl64 (fl64 (1 - t) / refill_rate s) * 1000)\<rceil>)"

definition bucket_life :: "'w rate_store \<Rightarrow> duration" where
  "bucket_life s = \<lceil>fl64 (of_int (rl_rate s) / refill_rate s)\<rceil> * second"

definition millis :: "instant \<Rightarrow> rat" where
  "millis now = fl64 (of_int (unix_milli now))"

lemma millis_fold: "fl64 (of_int (unix_milli now)) = millis now"
  by (simp add: millis_def)

lemma millis_idem [simp]: "fl64 (millis now) = millis now"
  by (simp add: millis_def)

lemma millis_exact: "\<bar>unix_milli now\<bar> \<le> 2 ^ 53 \<Longrightarrow> millis now = of_int (unix_milli now)"
  unfolding millis_def by (rule fl64.fl_int)

lemma refilled_le: "refilled s t l n \<le> of_int (rl_rate s)"
  by (simp add: refilled_def)

lemma duration_seconds_pos:
  assumes "0 < d"
  shows "0 < duration_seconds d"
proof -
  have d: "d = d div second * second + d mod second" by simp
  have q: "0 \<le> d div second" "0 \<le> d mod second"
    using assms by (simp_all add: second_def pos_imp_zdiv_nonneg_iff)
  then have "0 < d div second \<or> 0 < d mod second" using d assms by (cases "d div second = 0") auto
  then have "0 < fl64 (of_int (d div second)) + fl64 (fl64 (of_int (d mod second)) / 1000000000)"
    using q fl64_gt_0 [of "of_int (d div second)"] fl64_gt_0 [of "of_int (d mod second)"]
      fl64_gt_0 [of "fl64 (of_int (d mod second)) / 1000000000"]
      fl64_nonneg [of "of_int (d div second)"] fl64_nonneg [of "of_int (d mod second)"]
      fl64_nonneg [of "fl64 (of_int (d mod second)) / 1000000000"]
    by auto
  moreover have "d sdiv second = d div second" "d smod second = d mod second"
    using assms by (simp_all add: signed_divide_int_def signed_modulo_int_def second_def)
  ultimately show ?thesis by (simp add: duration_seconds_def fl64_gt_0)
qed

locale token_bucket = redis_scripts view late elapse "rl_client s" rc
  for view :: "'w \<Rightarrow> redis_view" and late elapse and s :: "'w rate_store" and rc +
  assumes rate_pos: "0 < rl_rate s" and rate_exact: "rl_rate s \<le> 2 ^ 53"
    and window_pos: "0 < rl_window s"
begin

abbreviation bucket :: "string \<Rightarrow> 'w \<Rightarrow> rat \<Rightarrow> rat \<Rightarrow> instant option \<Rightarrow> bool" where
  "bucket key w t l dl \<equiv> rv_up (view w) \<and>
     (\<exists>h. rv_keys (view w) (tb_key s key) = Some (RHash h, dl) \<and>
        h ''tokens'' = Some t \<and> h ''last_refill'' = Some l)"

abbreviation fresh :: "string \<Rightarrow> 'w \<Rightarrow> bool" where
  "fresh key w \<equiv> rv_up (view w) \<and> rv_keys (view w) (tb_key s key) = None"

lemma fl_rate [simp]: "fl64 (of_int (rl_rate s)) = of_int (rl_rate s)"
  using rate_pos rate_exact by (simp add: fl64.fl_int)

lemma fl_rate_minus_1 [simp]: "fl64 (of_int (rl_rate s) - 1) = of_int (rl_rate s - 1)"
  using fl64.fl_int [of "rl_rate s - 1"] rate_pos rate_exact by simp

lemma refill_rate_pos: "0 < refill_rate s"
  using rate_pos duration_seconds_pos [OF window_pos] by (simp add: refill_rate_def fl64_gt_0)

lemma refill_rate_idem [simp]: "fl64 (refill_rate s) = refill_rate s"
  by (simp add: refill_rate_def)

lemma bucket_life_pos: "0 < bucket_life s"
  using rate_pos refill_rate_pos by (simp add: bucket_life_def second_def fl64_gt_0)

lemma eval_tb:
  assumes "rv_up (view w)"
    and "token_bucket_script rc [tb_key s key]
      [of_int (rl_rate s), refill_rate s, of_int (unix_milli now)] w = (Inr [a, b, c], w')"
  shows "fst (checkTokenBucket s key now w) = Inr (trunc a = 1, trunc b, of_unix_milli (trunc c))"
    and "view (snd (checkTokenBucket s key now w)) = view w'"
  using eval_reply [OF assms(1), of token_bucket_script "[tb_key s key]"
      "[of_int (rl_rate s), refill_rate s, of_int (unix_milli now)]"]
    eval_view [OF assms(1), of token_bucket_script "[tb_key s key]"
      "[of_int (rl_rate s), refill_rate s, of_int (unix_milli now)]"]
  by (simp_all add: checkTokenBucket_def Let_def case_prod_unfold assms(2) table_reply_def
      flip: refill_rate_def)

lemma check_fresh:
  assumes "fresh key w"
  shows "\<exists>reset. fst (checkTokenBucket s key now w) = Inr (True, rl_rate s - 1, reset)"
    and "bucket key (snd (checkTokenBucket s key now w)) (of_int (rl_rate s - 1)) (millis now)
      (Some (rv_clock (view w) + bucket_life s))"
    and "rv_clock (view (snd (checkTokenBucket s key now w))) = rv_clock (view w)"
proof -
  let ?k = "tb_key s key"
  let ?fvs = "[(''tokens'', of_int (rl_rate s - 1)), (''last_refill'', millis now)]"
  let ?life = "\<lceil>fl64 (of_int (rl_rate s) / refill_rate s)\<rceil>"
  have up: "rv_up (view w)" and key: "rv_keys (view w) ?k = None" using assms by auto
  obtain w1 where get: "rc_hmget rc ?k [''tokens'', ''last_refill''] w = (Inr [None, None], w1)"
    "view w1 = view w"
    using act_result [where view = view, OF conjI [OF hmget_absent [OF up key, of "[''tokens'', ''last_refill'']"] hmget_view [OF up, of ?k "[''tokens'', ''last_refill'']"]]]
    by auto
  obtain w2 where set: "rc_hmset rc ?k ?fvs w1 = (Inr (), w2)"
    "view w2 = put_key ?k (RHash (map_of (rev ?fvs)), None) (view w)"
    using act_result [where view = view, OF hmset_absent [of w1 ?k ?fvs]] get(2) up key by auto
  have "0 < ?life" using bucket_life_pos by (simp add: bucket_life_def second_def zero_less_mult_iff)
  then obtain w3 where exp: "rc_expire rc ?k ?life w2 = (Inr 1, w3)"
    "view w3 = put_key ?k (RHash (map_of (rev ?fvs)), Some (rv_clock (view w) + bucket_life s)) (view w)"
    using act_result [where view = view, OF expire_call [of w2 ?k "RHash (map_of (rev ?fvs))" None ?life]] set(2) up
    by (auto simp: bucket_life_def put_key_def)
  have script: "token_bucket_script rc [?k] [of_int (rl_rate s), refill_rate s, of_int (unix_milli now)] w =
      (Inr [1, of_int (rl_rate s - 1),
        of_int \<lfloor>fl64 (millis now + fl64 (fl64 (1 / refill_rate s) * 1000))\<rfloor>], w3)"
    by (simp add: token_bucket_script_def Let_def millis_fold and_then_def get(1) set(1) exp(1) give_def
        del: of_int_diff)
  note r = eval_tb [OF up script]
  show "\<exists>reset. fst (checkTokenBucket s key now w) = Inr (True, rl_rate s - 1, reset)"
    using r(1) trunc_of_int [of 1] trunc_of_int [of "rl_rate s - 1"] by simp
  show "bucket key (snd (checkTokenBucket s key now w)) (of_int (rl_rate s - 1)) (millis now)
      (Some (rv_clock (view w) + bucket_life s))"
    "rv_clock (view (snd (checkTokenBucket s key now w))) = rv_clock (view w)"
    using up by (simp_all add: r(2) exp(2))
qed

lemma check_bucket:
  assumes "bucket key w t l dl"
  shows "1 \<le> refilled s t l (millis now) \<Longrightarrow>
      fst (checkTokenBucket s key now w) =
        Inr (True, \<lfloor>fl64 (refilled s t l (millis now) - 1)\<rfloor>,
          of_unix_milli (trunc (reset_at s (fl64 (refilled s t l (millis now) - 1)) (millis now)))) \<and>
      bucket key (snd (checkTokenBucket s key now w)) (fl64 (refilled s t l (millis now) - 1)) (millis now) dl"
    and "\<not> 1 \<le> refilled s t l (millis now) \<Longrightarrow>
      fst (checkTokenBucket s key now w) =
        Inr (False, 0, of_unix_milli (trunc (reset_at s (refilled s t l (millis now)) (millis now)))) \<and>
      bucket key (snd (checkTokenBucket s key now w)) t (millis now) dl"
    and "rv_clock (view (snd (checkTokenBucket s key now w))) = rv_clock (view w)"
proof -
  let ?k = "tb_key s key" and ?n = "millis now"
  let ?t = "refilled s t l ?n"
  let ?args = "[of_int (rl_rate s), refill_rate s, of_int (unix_milli now)]"
  obtain h where up: "rv_up (view w)" and key: "rv_keys (view w) ?k = Some (RHash h, dl)"
    and h: "h ''tokens'' = Some t" "h ''last_refill'' = Some l"
    using assms by blast
  obtain w1 where get: "rc_hmget rc ?k [''tokens'', ''last_refill''] w = (Inr [Some t, Some l], w1)"
    "view w1 = view w"
    using act_result [where view = view, OF conjI [OF hmget_present [OF up key, of "[''tokens'', ''last_refill'']"] hmget_view [OF up, of ?k "[''tokens'', ''last_refill'']"]]] h
    by auto
  have yes: "fst (checkTokenBucket s key now w) =
        Inr (True, \<lfloor>fl64 (?t - 1)\<rfloor>, of_unix_milli (trunc (reset_at s (fl64 (?t - 1)) ?n))) \<and>
      bucket key (snd (checkTokenBucket s key now w)) (fl64 (?t - 1)) ?n dl"
    and clk_yes: "rv_clock (view (snd (checkTokenBucket s key now w))) = rv_clock (view w)"
    if t: "1 \<le> ?t"
  proof -
    let ?fvs = "[(''tokens'', fl64 (?t - 1)), (''last_refill'', ?n)]"
    obtain w2 where set: "rc_hmset rc ?k ?fvs w1 = (Inr (), w2)"
      "view w2 = put_key ?k (RHash (h ++ map_of (rev ?fvs)), dl) (view w)"
      using act_result [where view = view, OF hmset_present [of w1 ?k h dl ?fvs]] get(2) up key by auto
    have "token_bucket_script rc [?k] ?args w =
        (Inr [1, of_int \<lfloor>fl64 (?t - 1)\<rfloor>, reset_at s (fl64 (?t - 1)) ?n], w2)"
      using t unfolding token_bucket_script_def
      by (simp add: Let_def millis_fold and_then_def get(1) set(1) give_def reset_at_def
          flip: refilled_def del: min.bounded_iff)
    note r = eval_tb [OF up this]
    show "fst (checkTokenBucket s key now w) =
        Inr (True, \<lfloor>fl64 (?t - 1)\<rfloor>, of_unix_milli (trunc (reset_at s (fl64 (?t - 1)) ?n))) \<and>
      bucket key (snd (checkTokenBucket s key now w)) (fl64 (?t - 1)) ?n dl"
      and "rv_clock (view (snd (checkTokenBucket s key now w))) = rv_clock (view w)"
      using up trunc_of_int [of 1] by (simp_all add: r set(2))
  qed
  have no: "fst (checkTokenBucket s key now w) =
        Inr (False, 0, of_unix_milli (trunc (reset_at s ?t ?n))) \<and>
      bucket key (snd (checkTokenBucket s key now w)) t ?n dl"
    and clk_no: "rv_clock (view (snd (checkTokenBucket s key now w))) = rv_clock (view w)"
    if t: "\<not> 1 \<le> ?t"
  proof -
    let ?fvs = "[(''last_refill'', ?n)]"
    obtain w2 where set: "rc_hset rc ?k ?fvs w1 = (Inr (), w2)"
      "view w2 = put_key ?k (RHash (h ++ map_of (rev ?fvs)), dl) (view w)"
      using act_result [where view = view, OF hset_present [of w1 ?k h dl ?fvs]] get(2) up key by auto
    have "token_bucket_script rc [?k] ?args w = (Inr [0, 0, reset_at s ?t ?n], w2)"
      using t unfolding token_bucket_script_def
      by (simp add: Let_def millis_fold and_then_def get(1) set(1) give_def reset_at_def
          flip: refilled_def del: min.bounded_iff)
    note r = eval_tb [OF up this]
    show "fst (checkTokenBucket s key now w) =
        Inr (False, 0, of_unix_milli (trunc (reset_at s ?t ?n))) \<and>
      bucket key (snd (checkTokenBucket s key now w)) t ?n dl"
      and "rv_clock (view (snd (checkTokenBucket s key now w))) = rv_clock (view w)"
      using up h trunc_of_int [of 0] by (simp_all add: r set(2))
  qed
  show "1 \<le> ?t \<Longrightarrow> fst (checkTokenBucket s key now w) =
        Inr (True, \<lfloor>fl64 (?t - 1)\<rfloor>, of_unix_milli (trunc (reset_at s (fl64 (?t - 1)) ?n))) \<and>
      bucket key (snd (checkTokenBucket s key now w)) (fl64 (?t - 1)) ?n dl"
    by (rule yes)
  show "\<not> 1 \<le> ?t \<Longrightarrow> fst (checkTokenBucket s key now w) =
        Inr (False, 0, of_unix_milli (trunc (reset_at s ?t ?n))) \<and>
      bucket key (snd (checkTokenBucket s key now w)) t ?n dl"
    by (rule no)
  show "rv_clock (view (snd (checkTokenBucket s key now w))) = rv_clock (view w)"
    using clk_yes clk_no by blast
qed

end

end
