(* ===== verification/Rate_Bucket_Runs.thy ===== *)
theory Rate_Bucket_Runs
  imports Rate_Bucket
begin

text \<open>
  Runs of requests against the token bucket: the bounds that hold whatever the clocks say, the
  burst that a full bucket allows, the requests that keep a drained bucket empty, and the end of
  the life of the key.
\<close>

text \<open>An answer within the limit.\<close>

definition answer_in_range :: "'w rate_store \<Rightarrow> decision res \<Rightarrow> bool" where
  "answer_in_range s r \<longleftrightarrow> (\<exists>allowed remaining reset. r = Inr (allowed, remaining, reset) \<and>
     0 \<le> remaining \<and> remaining < rl_rate s \<and> (\<not> allowed \<longrightarrow> remaining = 0))"

text \<open>Polls that come at most \<open>g\<close> milliseconds after one another.\<close>

fun polls_within :: "rat \<Rightarrow> rat \<Rightarrow> (duration \<times> instant) list \<Rightarrow> bool" where
  "polls_within g l [] \<longleftrightarrow> True"
| "polls_within g l ((d, now) # rs) \<longleftrightarrow> millis now - l \<le> g \<and> polls_within g (millis now) rs"

context token_bucket
begin

definition bucket_ok :: "string \<Rightarrow> 'w \<Rightarrow> bool" where
  "bucket_ok key w \<longleftrightarrow> fresh key w \<or> (\<exists>t l dl. bucket key w t l dl \<and> 0 \<le> t \<and> t < of_int (rl_rate s))"

lemma taken_bounds:
  assumes "1 \<le> refilled s t l n"
  shows "0 \<le> fl64 (refilled s t l n - 1)" and "fl64 (refilled s t l n - 1) \<le> of_int (rl_rate s - 1)"
proof -
  show "0 \<le> fl64 (refilled s t l n - 1)" using assms by (intro fl64_nonneg) simp
  have "fl64 (refilled s t l n - 1) \<le> fl64 (of_int (rl_rate s) - 1)"
    using refilled_le [of s t l n] by (intro fl64_mono) simp
  then show "fl64 (refilled s t l n - 1) \<le> of_int (rl_rate s - 1)" by simp
qed

lemma bucket_elapse:
  assumes "bucket key w t l dl" and "0 \<le> d"
  shows "(case dl of None \<Rightarrow> True | Some u \<Rightarrow> rv_clock (view w) + d < u) \<Longrightarrow> bucket key (elapse d w) t l dl"
    and "bucket key (elapse d w) t l dl \<or> fresh key (elapse d w)"
  using assms elapse_keeps [OF assms(2), of w "tb_key s key"]
  by (auto simp: elapse_view age_keys split: if_splits)

lemma bucket_ok_elapse: "bucket_ok key w \<Longrightarrow> 0 \<le> d \<Longrightarrow> bucket_ok key (elapse d w)"
  using bucket_elapse(2) [where key = key and w = w and d = d] elapse_absent [of d w "tb_key s key"]
  unfolding bucket_ok_def by (metis up_elapse)

lemma bucket_ok_check:
  assumes "bucket_ok key w"
  shows "answer_in_range s (fst (checkTokenBucket s key now w))"
    and "bucket_ok key (snd (checkTokenBucket s key now w))"
proof -
  consider "fresh key w" | t l dl where "bucket key w t l dl" "0 \<le> t" "t < of_int (rl_rate s)"
    using assms by (auto simp: bucket_ok_def)
  then have "answer_in_range s (fst (checkTokenBucket s key now w)) \<and>
      bucket_ok key (snd (checkTokenBucket s key now w))"
  proof cases
    case 1
    note c = check_fresh(1,2) [OF 1, of now]
    have "(0 :: rat) \<le> of_int (rl_rate s - 1)" using rate_pos by linarith
    then show ?thesis using c rate_pos by (force simp: answer_in_range_def bucket_ok_def)
  next
    case 2
    show ?thesis
    proof (cases "1 \<le> refilled s t l (millis now)")
      case True
      note c = check_bucket(1) [OF 2(1) True] and b = taken_bounds [OF True]
      have "\<lfloor>fl64 (refilled s t l (millis now) - 1)\<rfloor> \<le> rl_rate s - 1"
        using floor_mono [OF b(2)] by simp
      moreover have "fl64 (refilled s t l (millis now) - 1) < of_int (rl_rate s)" using b(2) by simp
      ultimately show ?thesis using c b(1) by (auto simp: answer_in_range_def bucket_ok_def)
    next
      case False
      show ?thesis using check_bucket(2) [OF 2(1) False] 2(2,3) rate_pos
        by (auto simp: answer_in_range_def bucket_ok_def)
    qed
  qed
  then show "answer_in_range s (fst (checkTokenBucket s key now w))"
    and "bucket_ok key (snd (checkTokenBucket s key now w))" by auto
qed

lemma run_bucket_ok:
  assumes "bucket_ok key w" and "gaps_ok rs"
  shows "(\<forall>r \<in> set (fst (check_run (checkTokenBucket s key) elapse rs w)). answer_in_range s r) \<and>
    bucket_ok key (snd (check_run (checkTokenBucket s key) elapse rs w))"
  using assms
proof (induction rs arbitrary: w)
  case (Cons r rs)
  obtain d now where r: "r = (d, now)" by (cases r)
  have "bucket_ok key (elapse d w)" using bucket_ok_elapse Cons.prems by (simp add: r)
  note c = bucket_ok_check [OF this, of now]
  show ?case using Cons.IH [OF c(2)] c(1) Cons.prems(2) by (simp add: r check_run_Cons)
qed simp

section \<open>A burst\<close>

lemma refilled_same_time: "j \<le> rl_rate s \<Longrightarrow> 0 \<le> j \<Longrightarrow> refilled s (of_int j) n n = of_int j"
  using rate_exact by (simp add: refilled_def fl64.fl_int)

lemma run_burst:
  assumes "bucket key w (of_int j) n (Some (rv_clock (view w) + u))" and "0 \<le> j" and "j \<le> rl_rate s"
    and "gaps_ok rs" and "run_span rs < u" and "\<forall>(d, now) \<in> set rs. millis now = n" and "i < length rs"
  shows "\<exists>reset. fst (check_run (checkTokenBucket s key) elapse rs w) ! i =
    Inr (int i < j, max 0 (j - 1 - int i), reset)"
  using assms
proof (induction rs arbitrary: w j u i)
  case (Cons r rs)
  obtain d now where r: "r = (d, now)" by (cases r)
  have gaps: "0 \<le> d" "gaps_ok rs" "0 \<le> run_span rs"
    using Cons.prems(4) by (simp_all add: r run_span_nonneg)
  have n: "millis now = n" and ns: "\<forall>(d, now) \<in> set rs. millis now = n" using Cons.prems(6) by (auto simp: r)
  let ?v = "elapse d w"
  let ?w = "snd (checkTokenBucket s key now ?v)"
  have b: "bucket key ?v (of_int j) n (Some (rv_clock (view w) + u))"
    using bucket_elapse(1) [OF Cons.prems(1) gaps(1)] Cons.prems(5) gaps(3) by (simp add: r)
  have ref: "refilled s (of_int j) n (millis now) = of_int j"
    using refilled_same_time Cons.prems(2,3) n by simp
  have clk: "rv_clock (view ?w) = rv_clock (view w) + d" using check_bucket(3) [OF b] gaps(1) by simp
  have later: "\<exists>reset. fst (check_run (checkTokenBucket s key) elapse rs ?w) ! i' =
      Inr (int i' < j', max 0 (j' - 1 - int i'), reset)"
    if "bucket key ?w (of_int j') n (Some (rv_clock (view w) + u))" "0 \<le> j'" "j' \<le> rl_rate s" "i' < length rs" for i' j'
    using Cons.IH [where w = ?w and j = j' and u = "u - d" and i = i'] that gaps ns Cons.prems(5) clk by (simp add: r)
  show ?case
  proof (cases "1 \<le> j")
    case True
    then have "1 \<le> refilled s (of_int j) n (millis now)" by (simp add: ref)
    note c = check_bucket(1) [OF b this, unfolded ref]
    have fl: "fl64 (of_int j - 1) = of_int (j - 1)"
      using fl64.fl_int [of "j - 1"] Cons.prems(2,3) rate_exact by simp
    show ?thesis
    proof (cases i)
      case 0
      have "\<lfloor>(of_int j :: rat) - 1\<rfloor> = j - 1" by linarith
      then show ?thesis using c True 0 fl by (simp add: r check_run_Cons)
    next
      case (Suc i')
      have "bucket key ?w (of_int (j - 1)) n (Some (rv_clock (view w) + u))" using c n unfolding fl by blast
      then show ?thesis using later [of "j - 1" i'] Cons.prems True Suc
        by (auto simp: r check_run_Cons algebra_simps)
    qed
  next
    case False
    then have j: "j = 0" using Cons.prems(2) by simp
    have "\<not> 1 \<le> refilled s (of_int j) n (millis now)" unfolding ref using j by simp
    note c = check_bucket(2) [OF b this, unfolded ref]
    show ?thesis
    proof (cases i)
      case 0
      then show ?thesis using c j by (simp add: r check_run_Cons)
    next
      case (Suc i')
      have "bucket key ?w (of_int j) n (Some (rv_clock (view w) + u))" using c n by blast
      then show ?thesis using later [of j i'] Cons.prems j Suc by (simp add: r check_run_Cons)
    qed
  qed
qed simp

lemma burst_fresh:
  assumes "fresh key w" and "gaps_ok rs" and "run_span rs < bucket_life s"
    and "\<forall>(e, now') \<in> set rs. millis now' = millis now" and "i \<le> length rs" and "0 \<le> d"
  shows "\<exists>reset. fst (check_run (checkTokenBucket s key) elapse ((d, now) # rs) w) ! i =
    Inr (int i < rl_rate s, max 0 (rl_rate s - 1 - int i), reset)"
proof -
  let ?v = "elapse d w"
  have f: "fresh key ?v" using assms(1,6) elapse_absent by simp
  note c = check_fresh [OF f, of now]
  show ?thesis
  proof (cases i)
    case 0
    then show ?thesis using c(1) rate_pos by (auto simp: check_run_Cons)
  next
    case (Suc i')
    have "\<exists>reset. fst (check_run (checkTokenBucket s key) elapse rs (snd (checkTokenBucket s key now ?v))) ! i' =
        Inr (int i' < rl_rate s - 1, max 0 (rl_rate s - 1 - 1 - int i'), reset)"
      using c(2,3) rate_pos assms(2-5) Suc by (intro run_burst [where u = "bucket_life s"]) simp_all
    then show ?thesis using Suc by (auto simp: check_run_Cons algebra_simps)
  qed
qed

section \<open>Starvation\<close>

lemma refilled_fast:
  assumes "n - l \<le> g" and "fl64 (fl64 (fl64 g / 1000) * refill_rate s) < 1"
  shows "\<not> 1 \<le> refilled s 0 l n"
proof -
  have "fl64 (n - l) / 1000 \<le> fl64 g / 1000" using fl64_mono [OF assms(1)] by simp
  then have "fl64 (fl64 (n - l) / 1000) * refill_rate s \<le> fl64 (fl64 g / 1000) * refill_rate s"
    using refill_rate_pos by (intro mult_right_mono fl64_mono) simp_all
  then have "fl64 (fl64 (fl64 (n - l) / 1000) * refill_rate s) < 1"
    using fl64_mono assms(2) by (meson le_less_trans)
  then show ?thesis by (simp add: refilled_def min_def)
qed

lemma run_starved:
  assumes "bucket key w 0 l (Some (rv_clock (view w) + u))"
    and "fl64 (fl64 (fl64 g / 1000) * refill_rate s) < 1"
    and "gaps_ok rs" and "run_span rs < u" and "polls_within g l rs"
  shows "\<forall>r \<in> set (fst (check_run (checkTokenBucket s key) elapse rs w)). \<exists>reset. r = Inr (False, 0, reset)"
  using assms
proof (induction rs arbitrary: w l u)
  case (Cons r rs)
  obtain d now where r: "r = (d, now)" by (cases r)
  have gaps: "0 \<le> d" "gaps_ok rs" "0 \<le> run_span rs"
    using Cons.prems(3) by (simp_all add: r run_span_nonneg)
  let ?v = "elapse d w"
  let ?w = "snd (checkTokenBucket s key now ?v)"
  have b: "bucket key ?v 0 l (Some (rv_clock (view w) + u))"
    using bucket_elapse(1) [OF Cons.prems(1) gaps(1)] Cons.prems(4) gaps(3) by (simp add: r)
  have "\<not> 1 \<le> refilled s 0 l (millis now)"
    using refilled_fast [OF _ Cons.prems(2)] Cons.prems(5) by (simp add: r)
  note c = check_bucket(2) [OF b this] and clk = check_bucket(3) [OF b, of now]
  have "bucket key ?w 0 (millis now) (Some (rv_clock (view ?w) + (u - d)))"
    using c clk gaps(1) by simp
  from Cons.IH [OF this Cons.prems(2) gaps(2)] show ?case
    using c Cons.prems(4,5) by (simp add: r check_run_Cons)
qed simp

section \<open>The end of the key's life\<close>

lemma run_keeps_deadline:
  assumes "bucket key w t l (Some (rv_clock (view w) + u))" and "gaps_ok rs" and "run_span rs < u"
  shows "\<exists>t' l'. bucket key (snd (check_run (checkTokenBucket s key) elapse rs w)) t' l'
      (Some (rv_clock (view w) + u)) \<and>
    rv_clock (view (snd (check_run (checkTokenBucket s key) elapse rs w))) = rv_clock (view w) + run_span rs"
  using assms
proof (induction rs arbitrary: w t l u)
  case (Cons r rs)
  obtain d now where r: "r = (d, now)" by (cases r)
  have gaps: "0 \<le> d" "gaps_ok rs" "0 \<le> run_span rs"
    using Cons.prems(2) by (simp_all add: r run_span_nonneg)
  let ?v = "elapse d w"
  let ?w = "snd (checkTokenBucket s key now ?v)"
  have b: "bucket key ?v t l (Some (rv_clock (view w) + u))"
    using bucket_elapse(1) [OF Cons.prems(1) gaps(1)] Cons.prems(3) gaps(3) by (simp add: r)
  have clk: "rv_clock (view ?w) = rv_clock (view w) + d" using check_bucket(3) [OF b] gaps(1) by simp
  have eq: "rv_clock (view w) + u = rv_clock (view ?w) + (u - d)" using clk by simp
  have "\<exists>t' l'. bucket key ?w t' l' (Some (rv_clock (view w) + u))"
    using check_bucket(1,2) [OF b, of now] by blast
  then obtain t' l' where "bucket key ?w t' l' (Some (rv_clock (view ?w) + (u - d)))"
    unfolding eq by blast
  from Cons.IH [OF this gaps(2)] show ?case
    using Cons.prems(3) clk by (simp add: r check_run_Cons add.assoc)
next
  case Nil
  then show ?case by simp blast
qed

lemma life_ends:
  assumes "fresh key w" and "gaps_ok rs" and "run_span rs < bucket_life s"
    and "0 \<le> d" and "bucket_life s < run_span rs + d"
  shows "\<exists>reset. fst (checkTokenBucket s key now'
      (elapse d (snd (check_run (checkTokenBucket s key) elapse ((0, now) # rs) w)))) =
    Inr (True, rl_rate s - 1, reset)"
proof -
  let ?v = "elapse 0 w"
  have f: "fresh key ?v" using assms(1) elapse_absent by simp
  note c = check_fresh [OF f, of now]
  let ?w = "snd (check_run (checkTokenBucket s key) elapse ((0, now) # rs) w)"
  obtain t l where b: "bucket key ?w t l (Some (rv_clock (view w) + bucket_life s))"
    and clk: "rv_clock (view ?w) = rv_clock (view w) + run_span rs"
    using run_keeps_deadline [where key = key and u = "bucket_life s" and rs = rs] c(2,3) assms(2,3)
    by (fastforce simp: check_run_Cons)
  have "rv_keys (view (elapse d ?w)) (tb_key s key) = None"
    using b elapse_drops [OF assms(4), of ?w "tb_key s key"] clk assms(5) by fastforce
  then have "fresh key (elapse d ?w)" using b assms(4) by simp
  then show ?thesis by (rule check_fresh(1))
qed

section \<open>The reset time\<close>

lemma fl64_512: "fl64 (1 / 512) = 1 / 512"
proof -
  have "binade (1 / 512) = - 9" by (rule binade_unique) (simp_all add: power_int_minus)
  then show ?thesis by (intro fl64_multiple [of _ 1 "- 9"]) (simp_all add: power_int_minus)
qed

lemma trunc_le: "x \<le> of_int k \<Longrightarrow> trunc x \<le> k"
proof -
  assume le: "x \<le> of_int k"
  then have "- k \<le> \<lfloor>- x\<rfloor>" by (simp add: le_floor_iff)
  moreover have "\<lfloor>x\<rfloor> \<le> k" using floor_mono [OF le] by simp
  ultimately show ?thesis by (simp add: trunc_def)
qed

lemma reset_past:
  assumes "2 \<le> t" and "refill_rate s \<le> 512" and "\<bar>unix_milli now\<bar> \<le> 2 ^ 52"
  shows "of_unix_milli (trunc (reset_at s t (millis now))) < now"
proof -
  let ?r = "refill_rate s" and ?m = "unix_milli now"
  have "fl64 (1 - t) \<le> - 1" using fl64.fl_le_int [of "- 1" "1 - t"] assms(1) by simp
  then have "fl64 (1 - t) / ?r \<le> - 1 / ?r" using refill_rate_pos by (intro divide_right_mono) simp_all
  also have "- 1 / ?r \<le> - (1 / 512)" using refill_rate_pos assms(2) by (simp add: field_simps)
  finally have "fl64 (fl64 (1 - t) / ?r) \<le> - (1 / 512)"
    using fl64_mono [of "fl64 (1 - t) / ?r" "- (1 / 512)"] by (simp only: fl64_minus fl64_512)
  then have "fl64 (fl64 (fl64 (1 - t) / ?r) * 1000) \<le> - 1"
    using fl64.fl_le_int [of "- 1" "fl64 (fl64 (1 - t) / ?r) * 1000"] by simp
  then have "\<lceil>fl64 (fl64 (fl64 (1 - t) / ?r) * 1000)\<rceil> \<le> - 1" by (simp add: ceiling_le_iff)
  then have "(of_int ?m :: rat) + of_int \<lceil>fl64 (fl64 (fl64 (1 - t) / ?r) * 1000)\<rceil> \<le> of_int (?m - 1)"
    by linarith
  moreover have "millis now = of_int ?m" using assms(3) by (intro millis_exact) simp
  moreover have "\<bar>?m - 1\<bar> \<le> 2 ^ 53" using assms(3) by simp
  ultimately have "reset_at s t (millis now) \<le> of_int (?m - 1)"
    by (metis reset_at_def fl64.fl_le_int)
  then have "trunc (reset_at s t (millis now)) \<le> ?m - 1" by (rule trunc_le)
  then show ?thesis by (simp add: of_unix_milli_def unix_milli_def)
qed

end

end
