(* ===== verification/Rate_Bucket_Bound.thy ===== *)
theory Rate_Bucket_Bound
  imports Rate_Bucket_Runs
begin

text \<open>
  How many requests the token bucket allows in a run whose clocks do not go backwards: an amortised
  argument in which the tokens in the bucket are the potential. One request that is allowed takes a
  token, up to two roundings; the refills of one life of the key add up to the time between its
  first and its last request; a new life brings a full bucket.
\<close>

definition admitted_res :: "decision res list \<Rightarrow> int" where
  "admitted_res rs = int (length (filter (\<lambda>r. \<exists>remaining reset. r = Inr (True, remaining, reset)) rs))"

lemma admitted_res_simps [simp]:
  "admitted_res [] = 0"
  "admitted_res (Inr (True, m, reset) # rs) = 1 + admitted_res rs"
  "admitted_res (Inr (False, m, reset) # rs) = admitted_res rs"
  by (simp_all add: admitted_res_def)

text \<open>The clocks (in milliseconds) of the requests never fall, from \<open>a\<close> on and up to \<open>b\<close>.\<close>

fun clocks_rise :: "rat \<Rightarrow> rat \<Rightarrow> (duration \<times> instant) list \<Rightarrow> bool" where
  "clocks_rise a b [] \<longleftrightarrow> a \<le> b"
| "clocks_rise a b ((d, now) # rs) \<longleftrightarrow> a \<le> millis now \<and> clocks_rise (millis now) b rs"

lemma clocks_rise_le: "clocks_rise a b rs \<Longrightarrow> a \<le> b"
  by (induction rs arbitrary: a) fastforce+

context token_bucket
begin

text \<open>The rate of refill per millisecond, with the error of its three roundings.\<close>

definition refill_bound :: rat where
  "refill_bound = refill_rate s / 1000 * (1 + 1 / 2 ^ 53) ^ 3"

lemma refill_bound_nonneg: "0 \<le> refill_bound"
  using refill_rate_pos by (simp add: refill_bound_def)

lemma refill_le:
  assumes "l \<le> n"
  shows "0 \<le> fl64 (fl64 (fl64 (n - l) / 1000) * refill_rate s)"
    and "fl64 (fl64 (fl64 (n - l) / 1000) * refill_rate s) \<le> refill_bound * (n - l)"
proof -
  let ?k = "1 + 1 / 2 ^ 53 :: rat"
  have 1: "0 \<le> fl64 (n - l)" "fl64 (n - l) \<le> (n - l) * ?k"
    using fl64_le [of "n - l"] fl64_nonneg [of "n - l"] assms by simp_all
  have 2: "0 \<le> fl64 (fl64 (n - l) / 1000)" using 1(1) by (intro fl64_nonneg) simp
  have "fl64 (fl64 (n - l) / 1000) \<le> fl64 (n - l) / 1000 * ?k" using 1(1) by (intro fl64_le) simp
  also have "\<dots> \<le> (n - l) * ?k / 1000 * ?k" using 1(2) by (intro mult_right_mono divide_right_mono) simp_all
  finally have 3: "fl64 (fl64 (n - l) / 1000) \<le> (n - l) * ?k / 1000 * ?k" .
  show "0 \<le> fl64 (fl64 (fl64 (n - l) / 1000) * refill_rate s)"
    using 2 refill_rate_pos by (intro fl64_nonneg) simp
  have "fl64 (fl64 (fl64 (n - l) / 1000) * refill_rate s) \<le> fl64 (fl64 (n - l) / 1000) * refill_rate s * ?k"
    using 2 refill_rate_pos by (intro fl64_le) simp
  also have "\<dots> \<le> (n - l) * ?k / 1000 * ?k * refill_rate s * ?k"
    using 3 refill_rate_pos by (intro mult_right_mono) simp_all
  also have "\<dots> = refill_bound * (n - l)" by (simp add: refill_bound_def power3_eq_cube)
  finally show "fl64 (fl64 (fl64 (n - l) / 1000) * refill_rate s) \<le> refill_bound * (n - l)" .
qed

text \<open>What one request that is allowed costs: a token, less the error of two roundings.\<close>

definition token_cost :: rat where
  "token_cost = 1 - of_int (rl_rate s) / 2 ^ 52"

lemma refilled_bound:
  assumes "0 \<le> t" and "l \<le> n"
  shows "refilled s t l n \<le> t + refill_bound * (n - l) + of_int (rl_rate s) / 2 ^ 53"
proof -
  let ?e = "fl64 (fl64 (fl64 (n - l) / 1000) * refill_rate s)"
  have "refilled s t l n \<le> t + ?e + of_int (rl_rate s) / 2 ^ 53"
  proof (cases "t + ?e \<le> of_int (rl_rate s)")
    case True
    have "refilled s t l n \<le> fl64 (t + ?e)" by (simp add: refilled_def)
    also have "\<dots> \<le> (t + ?e) * (1 + 1 / 2 ^ 53)"
      using assms(1) refill_le(1) [OF assms(2)] by (intro fl64_le) simp
    also have "\<dots> \<le> t + ?e + of_int (rl_rate s) / 2 ^ 53" using True by (simp add: algebra_simps divide_right_mono)
    finally show ?thesis .
  next
    case False
    then show ?thesis using refilled_le [of s t l n] rate_pos by (simp add: add_increasing2)
  qed
  then show ?thesis using refill_le(2) [OF assms(2)] by simp
qed

lemma taken_bound:
  assumes "0 \<le> t" and "l \<le> n" and "1 \<le> refilled s t l n"
  shows "fl64 (refilled s t l n - 1) + token_cost \<le> t + refill_bound * (n - l)"
proof -
  have "fl64 (refilled s t l n - 1) \<le> (refilled s t l n - 1) * (1 + 1 / 2 ^ 53)"
    using assms(3) by (intro fl64_le) simp
  also have "\<dots> = refilled s t l n - 1 + (refilled s t l n - 1) / 2 ^ 53" by (simp add: field_simps)
  also have "\<dots> \<le> refilled s t l n - 1 + of_int (rl_rate s) / 2 ^ 53"
    using refilled_le [of s t l n] by (intro add_left_mono divide_right_mono) simp_all
  finally show ?thesis
    using refilled_bound [OF assms(1,2)] by (simp add: token_cost_def)
qed

lemma token_cost_le: "token_cost \<le> 1"
  using rate_pos by (simp add: token_cost_def)

lemma rate_mono: "i \<le> j \<Longrightarrow> of_int (rl_rate s) * of_int i \<le> of_int (rl_rate s) * (of_int j :: rat)"
  using rate_pos by (simp add: mult_left_mono)

lemma run_admitted:
  assumes "gaps_ok rs"
  shows "bucket key w t l (Some (rv_clock (view w) + u)) \<Longrightarrow> 0 \<le> t \<Longrightarrow> clocks_rise l b rs \<Longrightarrow>
      of_int (admitted_res (fst (check_run (checkTokenBucket s key) elapse rs w))) * token_cost \<le>
        t + of_int (rl_rate s) * of_int (lives (bucket_life s) u (run_span rs)) + refill_bound * (b - l)"
    and "fresh key w \<Longrightarrow> clocks_rise l b rs \<Longrightarrow>
      of_int (admitted_res (fst (check_run (checkTokenBucket s key) elapse rs w))) * token_cost \<le>
        of_int (rl_rate s) * of_int (lives (bucket_life s) 0 (run_span rs)) + refill_bound * (b - l)"
  using assms
proof (induction rs arbitrary: w t l u)
  case Nil
  have n: "0 \<le> of_int (rl_rate s) * (of_int (lives (bucket_life s) v 0) :: rat)" for v
    using lives_nonneg [OF bucket_life_pos] rate_pos by simp
  {
    case 1
    then show ?case using n [of u] refill_bound_nonneg by simp
  next
    case 2
    then show ?case using n [of 0] refill_bound_nonneg by simp
  }
next
  case (Cons r rs)
  obtain d now where r: "r = (d, now)" by (cases r)
  let ?L = "bucket_life s" and ?R = "of_int (rl_rate s) :: rat"
  let ?adm = "\<lambda>rs w. of_int (admitted_res (fst (check_run (checkTokenBucket s key) elapse rs w))) :: rat"
  have new_life: "?adm (r # rs) w * token_cost \<le>
      ?R * of_int (lives ?L d (d + run_span rs)) + refill_bound * (b - l)"
    if "fresh key (elapse d w)" "clocks_rise l b (r # rs)" "gaps_ok rs" for w l
  proof -
    let ?w = "snd (checkTokenBucket s key now (elapse d w))"
    note c = check_fresh [OF that(1), of now]
    have "?adm rs ?w * token_cost \<le>
        of_int (rl_rate s - 1) + ?R * of_int (lives ?L ?L (run_span rs)) + refill_bound * (b - millis now)"
      using Cons.IH(1) [where w = ?w and t = "of_int (rl_rate s - 1)" and l = "millis now" and u = ?L] c(2,3) rate_pos that(2,3) by (simp add: r)
    moreover have "refill_bound * (b - millis now) \<le> refill_bound * (b - l)"
      using that(2) refill_bound_nonneg by (intro mult_left_mono) (simp_all add: r)
    moreover have "?R * of_int (lives ?L d (d + run_span rs)) = ?R * of_int (lives ?L ?L (run_span rs)) + ?R"
      using run_span_nonneg [OF that(3)] lives_new [OF bucket_life_pos, of d "d + run_span rs", symmetric]
      by (simp add: algebra_simps)
    moreover have "?adm (r # rs) w * token_cost = token_cost + ?adm rs ?w * token_cost"
      using c(1) by (auto simp: r check_run_Cons algebra_simps)
    ultimately show ?thesis using token_cost_le by simp
  qed
  {
    case 1
    have gaps: "0 \<le> d" "gaps_ok rs" using 1(4) by (simp_all add: r)
    have rise: "l \<le> millis now" "clocks_rise (millis now) b rs" using 1(3) by (simp_all add: r)
    show ?case
    proof (cases "bucket key (elapse d w) t l (Some (rv_clock (view w) + u))")
      case True
      let ?w = "snd (checkTokenBucket s key now (elapse d w))"
      have clk: "rv_clock (view w) + u = rv_clock (view ?w) + (u - d)"
        using check_bucket(3) [OF True] gaps(1) by simp
      have IH: "?adm rs ?w * token_cost \<le>
          t' + ?R * of_int (lives ?L u (run_span (r # rs))) + refill_bound * (b - millis now)"
        if "bucket key ?w t' (millis now) (Some (rv_clock (view w) + u))" "0 \<le> t'" for t'
        using Cons.IH(1) [where w = ?w and t = t' and l = "millis now" and u = "u - d"] that rise(2) gaps(2)
          lives_shift [of ?L u d "d + run_span rs"] unfolding clk by (simp add: r)
      have split: "refill_bound * (b - l) =
          refill_bound * (b - millis now) + refill_bound * (millis now - l)"
        by (simp add: algebra_simps)
      show ?thesis
      proof (cases "1 \<le> refilled s t l (millis now)")
        case yes: True
        note c = check_bucket(1) [OF True yes]
        have "?adm (r # rs) w * token_cost = token_cost + ?adm rs ?w * token_cost"
          using c by (simp add: r check_run_Cons algebra_simps)
        then show ?thesis
          using IH [OF conjunct2 [OF c] taken_bounds(1) [OF yes]] taken_bound [OF 1(2) rise(1) yes] split
          by linarith
      next
        case no: False
        note c = check_bucket(2) [OF True no]
        have "?adm (r # rs) w * token_cost = ?adm rs ?w * token_cost" using c by (simp add: r check_run_Cons)
        moreover have "0 \<le> refill_bound * (millis now - l)" using refill_bound_nonneg rise(1) by simp
        ultimately show ?thesis using IH [OF conjunct2 [OF c] 1(2)] split by linarith
      qed
    next
      case False
      have "fresh key (elapse d w)" and "u \<le> d"
        using False bucket_elapse [OF 1(1) gaps(1)] by (auto intro: leI)
      then have "?adm (r # rs) w * token_cost \<le>
          ?R * of_int (lives ?L d (d + run_span rs)) + refill_bound * (b - l)"
        using new_life [of w l] 1(3) gaps(2) by simp
      moreover have "?R * of_int (lives ?L d (d + run_span rs)) \<le> ?R * of_int (lives ?L u (d + run_span rs))"
        using \<open>u \<le> d\<close> by (intro rate_mono lives_mono bucket_life_pos) simp_all
      ultimately show ?thesis using 1(2) by (simp add: r)
    qed
  next
    case 2
    have gaps: "0 \<le> d" "gaps_ok rs" using 2(3) by (simp_all add: r)
    have "fresh key (elapse d w)" using 2(1) gaps(1) elapse_absent by simp
    then have "?adm (r # rs) w * token_cost \<le>
        ?R * of_int (lives ?L d (d + run_span rs)) + refill_bound * (b - l)"
      using new_life [of w l] 2(2) gaps(2) by simp
    moreover have "?R * of_int (lives ?L d (d + run_span rs)) \<le> ?R * of_int (lives ?L 0 (d + run_span rs))"
      using gaps(1) by (intro rate_mono lives_mono bucket_life_pos) simp_all
    ultimately show ?case by (simp add: r)
  }
qed

end

end
