(* ===== verification/Rate_Sliding.thy ===== *)
theory Rate_Sliding
  imports Rate_Fixed
begin

text \<open>
  The sliding window: the sorted set of a key as a log of the requests admitted, and the answers
  in a run in which the processes' clocks agree with the server's, as those of a specification
  that keeps every admitted instant.
\<close>

section \<open>The specification\<close>

text \<open>
  The admitted instants that still count at \<open>now\<close>: those later than the start of the window, both
  read in whole milliseconds.
\<close>

definition in_window :: "duration \<Rightarrow> instant \<Rightarrow> instant set \<Rightarrow> instant set" where
  "in_window W now A = {t \<in> A. unix_milli (now - W) < unix_milli t}"

fun sliding_spec ::
  "int \<Rightarrow> duration \<Rightarrow> instant set \<Rightarrow> (duration \<times> instant) list \<Rightarrow> (bool \<times> int) list" where
  "sliding_spec rate W A [] = []"
| "sliding_spec rate W A ((d, now) # rs) =
     (let n = int (card (in_window W now A))
      in if n < rate then (True, rate - n - 1) # sliding_spec rate W (insert now A) rs
         else (False, 0) # sliding_spec rate W A rs)"

text \<open>Requests one after another, each process reading the server's time.\<close>

fun in_step :: "instant \<Rightarrow> (duration \<times> instant) list \<Rightarrow> bool" where
  "in_step c [] \<longleftrightarrow> True"
| "in_step c ((d, now) # rs) \<longleftrightarrow> 0 < d \<and> now = c + d \<and> in_step now rs"

definition admitted_at :: "(bool \<times> 'a) list \<Rightarrow> (duration \<times> instant) list \<Rightarrow> instant set" where
  "admitted_at ds rs = {now. \<exists>x d. ((True, x), (d, now)) \<in> set (zip ds rs)}"

lemma admitted_at_Nil [simp]: "admitted_at [] rs = {}" "admitted_at ds [] = {}"
  by (simp_all add: admitted_at_def)

lemma admitted_at_Cons [simp]:
  "admitted_at ((a, x) # ds) ((d, now) # rs) = (if a then insert now (admitted_at ds rs) else admitted_at ds rs)"
  by (auto simp: admitted_at_def)

lemma in_window_finite [simp]: "finite A \<Longrightarrow> finite (in_window W now A)"
  by (simp add: in_window_def)

lemma in_step_later: "in_step c rs \<Longrightarrow> (d, now) \<in> set rs \<Longrightarrow> c < now"
  by (induction c rs rule: in_step.induct) fastforce+

lemma in_step_span: "in_step c rs \<Longrightarrow> 0 \<le> run_span rs"
  by (induction c rs rule: in_step.induct) auto

lemma admitted_later: "in_step c rs \<Longrightarrow> t \<in> admitted_at ds rs \<Longrightarrow> c < t"
  using in_step_later by (fastforce simp: admitted_at_def dest: set_zip_rightD)

text \<open>At most \<open>rate\<close> admitted instants lie in the window that ends at an admitted one.\<close>

definition within_limit :: "int \<Rightarrow> duration \<Rightarrow> instant set \<Rightarrow> bool" where
  "within_limit rate W A \<longleftrightarrow> (\<forall>t \<in> A. int (card (in_window W t {u \<in> A. u \<le> t})) \<le> rate)"

lemma within_limit_insert:
  assumes "within_limit rate W A" and "finite A" and "\<forall>t \<in> A. t < now"
    and "int (card (in_window W now A)) < rate"
  shows "within_limit rate W (insert now A)"
proof -
  have old: "{u \<in> insert now A. u \<le> t} = {u \<in> A. u \<le> t}" if "t \<in> A" for t
    using assms(3) that by auto
  have new: "in_window W now {u \<in> insert now A. u \<le> now} \<subseteq> insert now (in_window W now A)"
    using assms(3) by (auto simp: in_window_def)
  have "card (in_window W now {u \<in> insert now A. u \<le> now}) \<le> Suc (card (in_window W now A))"
    using card_mono [OF _ new] card_insert_le_m1 [of "Suc (card (in_window W now A))" "in_window W now A" now]
      assms(2) by (simp add: card_insert_if split: if_splits)
  then show ?thesis using assms(1,4) old by (auto simp: within_limit_def)
qed

lemma sliding_spec_limit:
  assumes "in_step c rs" and "within_limit rate W A" and "finite A" and "\<forall>t \<in> A. t \<le> c"
  shows "within_limit rate W (A \<union> admitted_at (sliding_spec rate W A rs) rs)"
  using assms
proof (induction rs arbitrary: A c)
  case (Cons r rs)
  obtain d now where r: "r = (d, now)" by (cases r)
  have step: "c < now" "in_step now rs" using Cons.prems(1) by (auto simp: r)
  have A: "\<forall>t \<in> A. t < now" using Cons.prems(4) step(1) by fastforce
  show ?case
  proof (cases "int (card (in_window W now A)) < rate")
    case True
    have "within_limit rate W (insert now A \<union> admitted_at (sliding_spec rate W (insert now A) rs) rs)"
      using Cons.IH [OF step(2), of "insert now A"] within_limit_insert [OF Cons.prems(2,3) A True]
        Cons.prems(3) A by force
    then show ?thesis using True by (simp add: r Let_def Un_commute)
  next
    case False
    have "within_limit rate W (A \<union> admitted_at (sliding_spec rate W A rs) rs)"
      using Cons.IH [OF step(2) Cons.prems(2,3)] A by force
    then show ?thesis using False by (simp add: r Let_def)
  qed
qed simp

section \<open>The log in the sorted set\<close>

definition log_entry :: "instant \<Rightarrow> zmember" where
  "log_entry t = Zm (fl64 (of_int (unix_milli t))) (format_int (unix_nano t))"

definition clock_range :: "instant set" where
  "clock_range = {t. 0 \<le> t \<and> t < 2 ^ 63}"

lemma unix_nano_range: "t \<in> clock_range \<Longrightarrow> unix_nano t = t"
  by (simp add: clock_range_def unix_nano_def wrap64_id in_i64_def)

lemma unix_milli_range: "- (2 ^ 63) \<le> t \<Longrightarrow> t < 2 ^ 63 \<Longrightarrow> \<bar>unix_milli t\<bar> \<le> 2 ^ 53"
  by (auto simp: unix_milli_def abs_le_iff)

lemma log_entry_sel:
  assumes "t \<in> clock_range"
  shows "z_score (log_entry t) = of_int (unix_milli t)" and "z_member (log_entry t) = format_int t"
  using assms unix_milli_range [of t]
  by (simp_all add: log_entry_def unix_nano_range fl64.fl_int clock_range_def)

lemma log_entry_inj: "inj_on log_entry clock_range"
  by (rule inj_onI) (metis format_int_inject log_entry_sel(2))

lemma is_zset_log: "finite B \<Longrightarrow> B \<subseteq> clock_range \<Longrightarrow> is_zset (log_entry ` B)"
  unfolding is_zset_def by (auto intro!: inj_onI simp: log_entry_sel subset_iff)

lemma card_log: "B \<subseteq> clock_range \<Longrightarrow> card (log_entry ` B) = card B"
  by (rule card_image) (rule inj_on_subset [OF log_entry_inj])

lemma milli_nonneg: "t \<in> clock_range \<Longrightarrow> 0 \<le> unix_milli t"
  by (simp add: clock_range_def unix_milli_def pos_imp_zdiv_nonneg_iff)

text \<open>The oldest entry of the log has the least score.\<close>

lemma oldest_entry:
  assumes "finite B" and "B \<noteq> {}" and "B \<subseteq> clock_range"
  shows "\<exists>z. take 1 (sorted_list_of_set (log_entry ` B)) = [z] \<and>
    z_score z = of_int (Min (unix_milli ` B))"
proof -
  let ?Z = "log_entry ` B"
  obtain z zs where z: "sorted_list_of_set ?Z = z # zs"
    using assms by (cases "sorted_list_of_set ?Z") auto
  have set: "set (z # zs) = ?Z" using assms(1) z by (metis finite_imageI set_sorted_list_of_set)
  have "sorted (z # zs)" using sorted_list_of_set(2) [of ?Z] z by simp
  then have "\<forall>y \<in> set (z # zs). z \<le> y" by simp
  then have le: "\<forall>y \<in> ?Z. z_score z \<le> z_score y"
    unfolding set using zmember_le_score by blast
  obtain t where t: "t \<in> B" "z = log_entry t" using set by auto
  have "unix_milli t \<le> unix_milli u" if "u \<in> B" for u
    using le that t assms(3) by (auto simp: log_entry_sel subset_iff)
  then have "Min (unix_milli ` B) = unix_milli t" using t assms(1) by (intro Min_eqI) auto
  then show ?thesis using z t assms(3) by (auto simp: log_entry_sel)
qed

locale sliding_window = redis_zset view late elapse "rl_client s" ex
  for view :: "'w \<Rightarrow> redis_view" and late elapse and s :: "'w rate_store" and ex +
  assumes window_pos: "0 < rl_window s" and window_small: "rl_window s < 2 ^ 63"
    and window_sec: "second dvd rl_window s"
begin

abbreviation live :: "instant \<Rightarrow> instant set \<Rightarrow> instant set" where
  "live now A \<equiv> in_window (rl_window s) now A"

text \<open>
  The key holds a log \<open>B\<close> of admitted instants, among them all that still count, and expires no
  sooner than the last of them stops counting; without the key none counts.
\<close>

definition keeps_log :: "string \<Rightarrow> 'w \<Rightarrow> instant set \<Rightarrow> bool" where
  "keeps_log key w A \<longleftrightarrow> rv_up (view w) \<and> finite A \<and> A \<subseteq> clock_range \<and>
     (case rv_keys (view w) (sw_key s key) of
        None \<Rightarrow> live (rv_clock (view w)) A = {}
      | Some (x, dl) \<Rightarrow> \<exists>B u. x = RZset (log_entry ` B) \<and> dl = Some u \<and> B \<subseteq> A \<and>
          live (rv_clock (view w)) A \<subseteq> B \<and> (\<forall>t \<in> A. t + rl_window s \<le> u))"

lemma live_mono: "now \<le> now' \<Longrightarrow> live now' A \<subseteq> live now A"
  using unix_milli_mono [of "now - rl_window s" "now' - rl_window s"] by (auto simp: in_window_def)

lemma keeps_log_elapse:
  assumes "keeps_log key w A" and "0 \<le> d"
  shows "keeps_log key (elapse d w) A"
proof (cases "rv_keys (view w) (sw_key s key)")
  case None
  then have "live (rv_clock (view w) + d) A = {}"
    using assms live_mono [of "rv_clock (view w)" "rv_clock (view w) + d" A] by (auto simp: keeps_log_def)
  then show ?thesis using assms None elapse_absent [OF assms(2) None] by (simp add: keeps_log_def)
next
  case (Some e)
  then obtain B u where key: "rv_keys (view w) (sw_key s key) = Some (RZset (log_entry ` B), Some u)"
    and B: "B \<subseteq> A" "live (rv_clock (view w)) A \<subseteq> B" "\<forall>t \<in> A. t + rl_window s \<le> u"
    using assms(1) by (auto simp: keeps_log_def)
  have live: "live (rv_clock (view w) + d) A \<subseteq> B" using B(2) live_mono [of "rv_clock (view w)" "rv_clock (view w) + d" A] assms(2) by simp
  show ?thesis
  proof (cases "late (rv_clock (view w) + d) u")
    case True
    then have "u \<le> rv_clock (view w) + d" using late_future by (metis linorder_not_le)
    then have "t \<le> rv_clock (view w) + d - rl_window s" if "t \<in> A" for t using B(3) that by fastforce
    then have "live (rv_clock (view w) + d) A = {}"
      using unix_milli_mono by (fastforce simp: in_window_def)
    then show ?thesis
      using assms key True by (simp add: keeps_log_def elapse_view age_keys survives_def)
  next
    case False
    then have "rv_keys (view (elapse d w)) (sw_key s key) = Some (RZset (log_entry ` B), Some u)"
      using assms key by (simp add: elapse_view age_keys survives_def)
    then show ?thesis using assms B live by (auto simp: keeps_log_def)
  qed
qed

lemma window_start: "now + wrap64 (- rl_window s) = now - rl_window s"
  using window_pos window_small by (simp add: wrap64_id in_i64_def)

text \<open>Removing the old entries leaves exactly those that count.\<close>

lemma trim:
  assumes "keeps_log key w A" and "rv_clock (view w) = now" and "now \<in> clock_range"
  defines "w' \<equiv> snd (rl_zrem_range_by_score (rl_client s) (sw_key s key) ''0''
    (format_int (unix_milli (now - rl_window s))) w)"
  shows "rv_up (view w')" and "rv_clock (view w') = now"
    and "live now A = {} \<Longrightarrow> rv_keys (view w') (sw_key s key) = None"
    and "live now A \<noteq> {} \<Longrightarrow> \<exists>u. (\<forall>t \<in> A. t + rl_window s \<le> u) \<and>
      rv_keys (view w') (sw_key s key) = Some (RZset (log_entry ` live now A), Some u)"
proof -
  let ?k = "sw_key s key" and ?m = "unix_milli (now - rl_window s)"
  have up: "rv_up (view w)" and fin: "finite A" and ran: "A \<subseteq> clock_range"
    using assms(1) by (simp_all add: keeps_log_def)
  have "rv_up (view w') \<and> rv_clock (view w') = now \<and>
    (live now A = {} \<longrightarrow> rv_keys (view w') ?k = None) \<and>
    (live now A \<noteq> {} \<longrightarrow> (\<exists>u. (\<forall>t \<in> A. t + rl_window s \<le> u) \<and>
      rv_keys (view w') ?k = Some (RZset (log_entry ` live now A), Some u)))"
  proof (cases "rv_keys (view w) ?k")
    case None
    then have "view w' = view w" unfolding w'_def by (intro zrem_absent [OF up])
    then show ?thesis using assms(1,2) None up by (simp add: keeps_log_def)
  next
    case (Some e)
    then obtain B u where key: "rv_keys (view w) ?k = Some (RZset (log_entry ` B), Some u)"
      and B: "B \<subseteq> A" "live now A \<subseteq> B" "\<forall>t \<in> A. t + rl_window s \<le> u"
      using assms(1,2) by (auto simp: keeps_log_def)
    have Br: "B \<subseteq> clock_range" "finite B" using B(1) ran fin by (auto intro: finite_subset)
    have m: "fl64 (of_int ?m) = of_int ?m"
      using assms(3) window_pos window_small
      by (intro fl64.fl_int unix_milli_range) (auto simp: clock_range_def)
    have "{z \<in> log_entry ` B. \<not> (fl64 (of_int 0) \<le> z_score z \<and> z_score z \<le> fl64 (of_int ?m))} =
        log_entry ` {t \<in> B. ?m < unix_milli t}"
      using Br(1) m milli_nonneg by (force simp: log_entry_sel subset_iff)
    also have "{t \<in> B. ?m < unix_milli t} = live now A"
      using B(1,2) by (auto simp: in_window_def)
    finally have "view w' = put_zset ?k (log_entry ` live now A) (Some u) (view w)"
      using zrem_present [OF up key is_zset_log [OF Br(2,1)], of 0 ?m] unfolding w'_def by simp
    then show ?thesis using up assms(2) B(3) by (auto simp: put_zset_def)
  qed
  then show "rv_up (view w')" and "rv_clock (view w') = now"
    and "live now A = {} \<Longrightarrow> rv_keys (view w') (sw_key s key) = None"
    and "live now A \<noteq> {} \<Longrightarrow> \<exists>u. (\<forall>t \<in> A. t + rl_window s \<le> u) \<and>
      rv_keys (view w') (sw_key s key) = Some (RZset (log_entry ` live now A), Some u)"
    by auto
qed

text \<open>After the removal: the count, and adding the request to the log.\<close>

lemma count_live:
  assumes "rv_up (view w)" and "A \<subseteq> clock_range" and "finite A"
    and "live now A = {} \<Longrightarrow> rv_keys (view w) (sw_key s key) = None"
    and "live now A \<noteq> {} \<Longrightarrow>
      \<exists>u. rv_keys (view w) (sw_key s key) = Some (RZset (log_entry ` live now A), Some u)"
  shows "fst (rl_zcard (rl_client s) (sw_key s key) w) = Inr (int (card (live now A)))"
proof (cases "live now A = {}")
  case True
  then show ?thesis using zcard_absent [OF assms(1) assms(4) [OF True]] by simp
next
  case False
  then obtain u where key: "rv_keys (view w) (sw_key s key) = Some (RZset (log_entry ` live now A), Some u)"
    using assms(5) by blast
  have "live now A \<subseteq> clock_range" using assms(2) by (auto simp: in_window_def)
  then show ?thesis
    using zcard_present [OF assms(1) key is_zset_log] assms(3) by (simp add: card_log)
qed

lemma add_to_log:
  assumes "rv_up (view w)" and "A \<subseteq> clock_range" and "finite A" and "now \<in> clock_range"
    and "live now A = {} \<Longrightarrow> rv_keys (view w) (sw_key s key) = None"
    and "live now A \<noteq> {} \<Longrightarrow>
      \<exists>u. rv_keys (view w) (sw_key s key) = Some (RZset (log_entry ` live now A), Some u)"
  shows "\<exists>n dl w'. rl_zadd (rl_client s) (sw_key s key) [(fl64 (of_int (unix_milli now)), unix_nano now)] w =
      (Inr n, w') \<and>
    view w' = put_key (sw_key s key) (RZset (log_entry ` insert now (live now A)), dl) (view w)"
proof (cases "live now A = {}")
  case True
  then show ?thesis
    using act_result [where view = view, OF zadd_absent [OF assms(1) assms(5) [OF True]]]
    by (fastforce simp: log_entry_def)
next
  case False
  then obtain u where key: "rv_keys (view w) (sw_key s key) = Some (RZset (log_entry ` live now A), Some u)"
    using assms(6) by blast
  have ran: "live now A \<subseteq> clock_range" using assms(2) by (auto simp: in_window_def)
  have "insert (log_entry now) {z \<in> log_entry ` live now A. z_member z \<noteq> format_int (unix_nano now)} =
      log_entry ` insert now (live now A)"
    using ran assms(4) by (auto simp: log_entry_sel unix_nano_range subset_iff)
  then show ?thesis
    using zadd_present [OF assms(1) key is_zset_log, of "fl64 (of_int (unix_milli now))" "unix_nano now"]
      ran assms(3) by (auto simp: log_entry_def prod_eq_iff)
qed

lemma check_admit:
  assumes "keeps_log key w A" and "rv_clock (view w) = now" and "now \<in> clock_range"
    and "\<forall>t \<in> A. t \<le> now" and "int (card (live now A)) < rl_rate s"
  shows "fst (checkSlidingWindow s key now w) =
      (True, rl_rate s - int (card (live now A)) - 1, now + rl_window s)"
    and "keeps_log key (snd (checkSlidingWindow s key now w)) (insert now A)"
    and "rv_clock (view (snd (checkSlidingWindow s key now w))) = now"
proof -
  let ?k = "sw_key s key" and ?cl = "rl_client s"
  have fin: "finite A" and ran: "A \<subseteq> clock_range" using assms(1) by (simp_all add: keeps_log_def)
  note trim = trim [OF assms(1-3)]
  let ?w1 = "snd (rl_zrem_range_by_score ?cl ?k ''0'' (format_int (unix_milli (now - rl_window s))) w)"
  have key: "live now A \<noteq> {} \<Longrightarrow> \<exists>u. rv_keys (view ?w1) ?k = Some (RZset (log_entry ` live now A), Some u)"
    using trim(4) by blast
  note count = count_live [OF trim(1) ran fin trim(3) key]
  let ?w2 = "snd (rl_zcard ?cl ?k ?w1)"
  have w2: "view ?w2 = view ?w1" by (rule zcard_view [OF trim(1)])
  obtain n dl w3 where add:
    "rl_zadd ?cl ?k [(fl64 (of_int (unix_milli now)), unix_nano now)] ?w2 = (Inr n, w3)"
    "view w3 = put_key ?k (RZset (log_entry ` insert now (live now A)), dl) (view ?w1)"
    using add_to_log [of ?w2 A now key] trim(1,3) key ran fin assms(3) by (auto simp: w2)
  let ?w4 = "snd (rl_expire ?cl ?k (rl_window s) w3)"
  have w4: "view ?w4 = put_key ?k
      (RZset (log_entry ` insert now (live now A)), Some (now + rl_window s)) (view ?w1)"
    using expire_sets [of w3 ?k "RZset (log_entry ` insert now (live now A))" dl "rl_window s"]
      add(2) trim(1,2) window_pos ex_exact [OF window_sec] by (simp add: put_key_def)
  have r: "checkSlidingWindow s key now w =
      ((True, rl_rate s - int (card (live now A)) - 1, now + rl_window s), ?w4)"
    using assms(5) by (simp add: checkSlidingWindow_def Let_def case_prod_unfold window_start count add(1))
  show "fst (checkSlidingWindow s key now w) =
      (True, rl_rate s - int (card (live now A)) - 1, now + rl_window s)" by (simp add: r)
  show "rv_clock (view (snd (checkSlidingWindow s key now w))) = now"
    by (simp add: r w4 trim(2))
  have "live now (insert now A) \<subseteq> insert now (live now A)" by (auto simp: in_window_def)
  then show "keeps_log key (snd (checkSlidingWindow s key now w)) (insert now A)"
    using assms(3,4) fin ran trim(1,2) unfolding keeps_log_def
    by (auto simp: r w4 in_window_def intro!: exI [of _ "insert now (live now A)"])
qed

lemma check_refuse:
  assumes "keeps_log key w A" and "rv_clock (view w) = now" and "now \<in> clock_range"
    and "rl_rate s \<le> int (card (live now A))"
  shows "live now A \<noteq> {} \<Longrightarrow> fst (checkSlidingWindow s key now w) =
      (False, 0, of_unix_milli (Min (unix_milli ` live now A)) + rl_window s)"
    and "fst (fst (checkSlidingWindow s key now w)) = False"
    and "fst (snd (fst (checkSlidingWindow s key now w))) = 0"
    and "keeps_log key (snd (checkSlidingWindow s key now w)) A"
    and "rv_clock (view (snd (checkSlidingWindow s key now w))) = now"
proof -
  let ?k = "sw_key s key" and ?cl = "rl_client s"
  have fin: "finite A" and ran: "A \<subseteq> clock_range" using assms(1) by (simp_all add: keeps_log_def)
  note trim = trim [OF assms(1-3)]
  let ?w1 = "snd (rl_zrem_range_by_score ?cl ?k ''0'' (format_int (unix_milli (now - rl_window s))) w)"
  have key: "live now A \<noteq> {} \<Longrightarrow> \<exists>u. rv_keys (view ?w1) ?k = Some (RZset (log_entry ` live now A), Some u)"
    using trim(4) by blast
  note count = count_live [OF trim(1) ran fin trim(3) key]
  let ?w2 = "snd (rl_zcard ?cl ?k ?w1)"
  have w2: "view ?w2 = view ?w1" by (rule zcard_view [OF trim(1)])
  let ?w3 = "snd (rl_zrange_with_scores ?cl ?k 0 0 ?w2)"
  have w3: "view ?w3 = view ?w1" using zrange_view [of ?w2 ?k] trim(1) w2 by simp
  have r: "fst (fst (checkSlidingWindow s key now w)) = False"
    "fst (snd (fst (checkSlidingWindow s key now w))) = 0"
    "snd (checkSlidingWindow s key now w) = ?w3"
    using assms(4) by (simp_all add: checkSlidingWindow_def Let_def case_prod_unfold window_start count)
  show "fst (fst (checkSlidingWindow s key now w)) = False"
    "fst (snd (fst (checkSlidingWindow s key now w))) = 0" by (rule r)+
  show "rv_clock (view (snd (checkSlidingWindow s key now w))) = now" by (simp add: r w3 trim(2))
  show "keeps_log key (snd (checkSlidingWindow s key now w)) A"
  proof (cases "live now A = {}")
    case True
    then show ?thesis using fin ran trim(1-3) by (simp add: keeps_log_def r w3)
  next
    case False
    have "live now A \<subseteq> A" by (auto simp: in_window_def)
    then show ?thesis using fin ran trim(1,2) trim(4) [OF False]
      by (auto simp: keeps_log_def r w3 intro!: exI [of _ "live now A"])
  qed
  show "fst (checkSlidingWindow s key now w) =
      (False, 0, of_unix_milli (Min (unix_milli ` live now A)) + rl_window s)" if ne: "live now A \<noteq> {}"
  proof -
    have sub: "live now A \<subseteq> clock_range" "finite (live now A)" using ran fin by (auto simp: in_window_def)
    obtain u where k: "rv_keys (view ?w2) ?k = Some (RZset (log_entry ` live now A), Some u)"
      using key [OF ne] w2 by auto
    obtain z where z: "take 1 (sorted_list_of_set (log_entry ` live now A)) = [z]"
      "z_score z = of_int (Min (unix_milli ` live now A))"
      using oldest_entry [OF sub(2) ne sub(1)] by blast
    have "fst (rl_zrange_with_scores ?cl ?k 0 0 ?w2) = Inr [z]"
      using zrange_present [OF _ k is_zset_log] trim(1) w2 sub z(1) by simp
    moreover have "Min (unix_milli ` live now A) \<in> unix_milli ` live now A"
      using sub(2) ne by (intro Min_in) simp_all
    then obtain t where "Min (unix_milli ` live now A) = unix_milli t" "t \<in> clock_range"
      using sub(1) by blast
    then have "in_i64 (Min (unix_milli ` live now A))"
      using unix_milli_range [of t] by (auto simp: in_i64_def clock_range_def abs_le_iff)
    ultimately show ?thesis
      using assms(4) z(2) by (simp add: checkSlidingWindow_def Let_def case_prod_unfold window_start count
          float_to_int64_of_int)
  qed
qed

section \<open>Runs\<close>

lemma run_spec:
  assumes "keeps_log key w A" and "in_step (rv_clock (view w)) rs" and "\<forall>t \<in> A. t \<le> rv_clock (view w)"
    and "0 \<le> rv_clock (view w)" and "rv_clock (view w) + run_span rs < 2 ^ 63"
  shows "map (\<lambda>(a, n, _). (a, n)) (fst (check_run (checkSlidingWindow s key) elapse rs w)) =
    sliding_spec (rl_rate s) (rl_window s) A rs"
  using assms
proof (induction rs arbitrary: w A)
  case (Cons r rs)
  obtain d now where r: "r = (d, now)" by (cases r)
  have step: "0 < d" "now = rv_clock (view w) + d" "in_step now rs" using Cons.prems(2) by (auto simp: r)
  let ?v = "elapse d w"
  let ?x = "checkSlidingWindow s key now ?v"
  have span: "0 \<le> run_span rs" by (rule in_step_span [OF step(3)])
  have log: "keeps_log key ?v A" using keeps_log_elapse Cons.prems(1) step(1) by simp
  have clk: "rv_clock (view ?v) = now" using step by simp
  have ran: "now \<in> clock_range" using Cons.prems(4,5) step span by (simp add: clock_range_def r)
  have A: "\<forall>t \<in> A. t \<le> now" using Cons.prems(3) step by fastforce
  have rest: "now + run_span rs < 2 ^ 63" "0 \<le> now" using Cons.prems(4,5) step by (simp_all add: r)
  show ?case
  proof (cases "int (card (live now A)) < rl_rate s")
    case True
    note c = check_admit [OF log clk ran A True]
    have "map (\<lambda>(a, n, _). (a, n)) (fst (check_run (checkSlidingWindow s key) elapse rs (snd ?x))) =
        sliding_spec (rl_rate s) (rl_window s) (insert now A) rs"
      by (rule Cons.IH [OF c(2)]) (use c(3) step(3) A rest in \<open>auto simp: less_imp_le\<close>)
    then show ?thesis using True c(1) by (simp add: r check_run_Cons Let_def)
  next
    case False
    then have "rl_rate s \<le> int (card (live now A))" by simp
    note c = check_refuse [OF log clk ran this]
    have "map (\<lambda>(a, n, _). (a, n)) (fst (check_run (checkSlidingWindow s key) elapse rs (snd ?x))) =
        sliding_spec (rl_rate s) (rl_window s) A rs"
      by (rule Cons.IH [OF c(4)]) (use c(5) step(3) A rest in \<open>auto simp: less_imp_le\<close>)
    then show ?thesis using False c(2,3) by (simp add: r check_run_Cons Let_def case_prod_unfold)
  qed
qed simp

lemma fresh_log:
  assumes "rv_up (view w)" and "rv_keys (view w) (sw_key s key) = None"
  shows "keeps_log key w {}"
  using assms by (simp add: keeps_log_def in_window_def)

text \<open>Requests with one reading of the clock leave one entry, whatever their number.\<close>

lemma run_same_instant:
  assumes "keeps_log key w A" and "A \<subseteq> {now}" and "rv_clock (view w) = now" and "now \<in> clock_range"
    and "2 \<le> rl_rate s"
  shows "admitted (fst (check_run (checkSlidingWindow s key) elapse (replicate n (0, now)) w)) = int n"
  using assms(1-3)
proof (induction n arbitrary: w A)
  case (Suc n)
  have log: "keeps_log key (elapse 0 w) A" using keeps_log_elapse Suc.prems(1) by simp
  have clk: "rv_clock (view (elapse 0 w)) = now" using Suc.prems(3) by simp
  have "card (live now A) \<le> card {now}" using Suc.prems(2) by (intro card_mono) (auto simp: in_window_def)
  then have less: "int (card (live now A)) < rl_rate s" using assms(5) by simp
  have "\<forall>t \<in> A. t \<le> now" using Suc.prems(2) by auto
  note c = check_admit [OF log clk assms(4) this less]
  have "insert now A \<subseteq> {now}" using Suc.prems(2) by auto
  from Suc.IH [OF c(2) this c(3)] show ?case by (simp add: check_run_Cons c(1))
qed simp

end

end
