(* ===== verification/Rate_Properties.thy ===== *)
theory Rate_Properties
  imports Rate_Bucket_Bound Rate_Sliding
begin

text \<open>
  The properties of the token bucket, of the sliding window and of the store as a whole. (Those of
  the fixed window stand in \<open>Rate_Fixed\<close>.)
\<close>

section \<open>Failures\<close>

text \<open>The sliding window up to its count: old entries are removed, then the rest is counted.\<close>

definition sliding_count :: "'w rate_store \<Rightarrow> string \<Rightarrow> instant \<Rightarrow> ('w, int) act" where
  "sliding_count s key now w =
     rl_zcard (rl_client s) (sw_key s key)
       (snd (rl_zrem_range_by_score (rl_client s) (sw_key s key) ''0''
          (format_int (unix_milli (now + wrap64 (- rl_window s)))) w))"

text \<open>The reply to the token bucket's EVAL.\<close>

definition bucket_reply :: "'w rate_store \<Rightarrow> string \<Rightarrow> instant \<Rightarrow> 'w \<Rightarrow> reply res" where
  "bucket_reply s key now w =
     fst (rl_eval (rl_client s) token_bucket_script [tb_key s key]
       [fl64 (of_int (rl_rate s)), fl64 (fl64 (of_int (rl_rate s)) / duration_seconds (rl_window s)),
        of_int (unix_milli now)] w)"

lemma checkTokenBucket_reply:
  "fst (checkTokenBucket s key now w) =
     (case bucket_reply s key now w of
        Inr (RArr [x, y, z]) \<Rightarrow>
          (case (x, y, z) of
             (RInt a, RInt b, RInt c) \<Rightarrow> Inr (a = 1, b, of_unix_milli c) | _ \<Rightarrow> Inl not_int64)
      | _ \<Rightarrow> Inr (fail_open s now))"
  by (simp add: checkTokenBucket_def bucket_reply_def Let_def case_prod_unfold
      split: sum.split reply.split list.split)

text \<open>
  C33: which failures let a request through, whatever the client is. "Open" is: allowed, rate - 1
  remaining, reset one window from now. The fixed window is open if INCR fails and refuses exactly if
  INCR gave more than the rate; the sliding window is open if ZCARD fails and if ZADD fails, refuses
  exactly if ZCARD gave the rate or more, and if ZRANGE then fails or finds nothing the reset is one window
  from now; the token bucket, which also stands in for an unknown algorithm, is open if EVAL fails or its
  reply is no array of three, panics if the three are not integers, and refuses exactly if they are and the
  first is not 1. So no failed reply refuses a request; but the results of ZREMRANGEBYSCORE, EXPIRE and
  EXPIRE NX are dropped, and where one of them failed a count may be one of entries that are out of date.
\<close>

theorem rate_limit_fails_open:
  "let answer = fst (CheckAndRecord s key now w);
       opened = Inr (True, rl_rate s - 1, now + rl_window s);
       refused = (\<exists>remaining reset. answer = Inr (False, remaining, reset));
       incremented = fst (rl_incr (rl_client s) (fw_key s key) w);
       counted = fst (sliding_count s key now w);
       w' = snd (sliding_count s key now w);
       added = fst (rl_zadd (rl_client s) (sw_key s key) [(fl64 (of_int (unix_milli now)), unix_nano now)] w');
       oldest = fst (rl_zrange_with_scores (rl_client s) (sw_key s key) 0 0 w');
       reply = bucket_reply s key now w
   in (rl_algorithm s = FixedWindow \<longrightarrow>
        ((\<exists>e. incremented = Inl e) \<longrightarrow> answer = opened) \<and>
        (refused \<longleftrightarrow> (\<exists>n. incremented = Inr n \<and> rl_rate s < n))) \<and>
      (rl_algorithm s = SlidingWindow \<longrightarrow>
        ((\<exists>e. counted = Inl e) \<or> (\<exists>n e. counted = Inr n \<and> n < rl_rate s \<and> added = Inl e) \<longrightarrow>
           answer = opened) \<and>
        (refused \<longleftrightarrow> (\<exists>n. counted = Inr n \<and> rl_rate s \<le> n)) \<and>
        (refused \<and> (\<exists>e. oldest \<in> {Inl e, Inr []}) \<longrightarrow> answer = Inr (False, 0, now + rl_window s))) \<and>
      (rl_algorithm s \<notin> {FixedWindow, SlidingWindow} \<longrightarrow>
        ((\<nexists>x y z. reply = Inr (RArr [x, y, z])) \<longrightarrow> answer = opened) \<and>
        ((\<exists>x y z. reply = Inr (RArr [x, y, z]) \<and> \<not> {x, y, z} \<subseteq> range RInt) \<longrightarrow>
           (\<exists>e. answer = Inl (Panicked e))) \<and>
        (refused \<longleftrightarrow> (\<exists>a b c. reply = Inr (RArr [RInt a, RInt b, RInt c]) \<and> a \<noteq> 1)))"
proof -
  consider "rl_algorithm s = FixedWindow" | "rl_algorithm s = SlidingWindow"
    | "rl_algorithm s \<notin> {FixedWindow, SlidingWindow}" by blast
  then show ?thesis
  proof cases
    case 1
    then show ?thesis
      by (auto simp: CheckAndRecord_def checkFixedWindow_def fail_open_def Let_def case_prod_unfold
          split: sum.splits)
  next
    case 2
    then show ?thesis
      by (auto simp: CheckAndRecord_def checkSlidingWindow_def sliding_count_def fail_open_def Let_def
          case_prod_unfold split: sum.splits)
  next
    case 3
    then have "fst (CheckAndRecord s key now w) = fst (checkTokenBucket s key now w)"
      by (cases "rl_algorithm s") (simp_all add: CheckAndRecord_def)
    then show ?thesis
      using 3 checkTokenBucket_reply [of s key now w]
      by (auto simp: not_int64_def fail_open_def split: sum.splits reply.splits list.splits)
  qed
qed

text \<open>A server that is out of memory counts and refuses to write.\<close>

definition full_sliding :: "redis_view rate_store" where
  "full_sliding = demo_fixed\<lparr>rl_algorithm := SlidingWindow,
     rl_client := lim_client\<lparr>rl_zadd := (\<lambda>k zs w. (Inl (NewError ''OOM''), w))\<rparr>\<rparr>"

lemma full_sliding_sel [simp]:
  "rl_algorithm full_sliding = SlidingWindow" "rl_rate full_sliding = 2" "rl_window full_sliding = 10 * second"
  "fst (rl_zadd (rl_client full_sliding) k zs w) = Inl (NewError ''OOM'')"
  by (simp_all add: full_sliding_def)

lemma full_sliding_count: "fst (sliding_count full_sliding ''ip'' now (empty_server 0)) = Inr 0"
  by (simp add: full_sliding_def sliding_count_def srv_zcard_def srv_zrem_def on_zset_def when_up_def
      put_zset_def empty_server_def drop_key_def Let_def)

theorem rate_limit_fails_open_witness:
  "fst (CheckAndRecord demo_fixed ''ip'' 5 ((empty_server 0)\<lparr>rv_up := False\<rparr>)) =
     Inr (True, 1, 5 + 10 * second) \<and>
   fst (CheckAndRecord full_sliding ''ip'' 5 (empty_server 0)) = Inr (True, 1, 5 + 10 * second)"
proof
  show "fst (CheckAndRecord demo_fixed ''ip'' 5 ((empty_server 0)\<lparr>rv_up := False\<rparr>)) =
      Inr (True, 1, 5 + 10 * second)"
    using rate_limit_fails_open [of demo_fixed "''ip''" 5 "(empty_server 0)\<lparr>rv_up := False\<rparr>"]
    by (simp add: srv_incr_def when_up_def Let_def)
  show "fst (CheckAndRecord full_sliding ''ip'' 5 (empty_server 0)) = Inr (True, 1, 5 + 10 * second)"
    using rate_limit_fails_open [of full_sliding "''ip''" 5 "empty_server 0"]
    by (simp add: full_sliding_count Let_def)
qed

section \<open>The token bucket\<close>

definition demo_bucket :: "redis_view rate_store" where
  "demo_bucket = NewRateLimitStore lim_client
     [\<lparr>rc_Algorithm = NoAlgorithm, rc_Window = 10 * second, rc_Rate = 10, rc_KeyPrefix = ''''\<rparr>]"

lemma demo_bucket_sel [simp]:
  "rl_client demo_bucket = lim_client" "rl_window demo_bucket = 10 * second" "rl_rate demo_bucket = 10"
  "rl_algorithm demo_bucket = TokenBucket" "rl_keyPrefix demo_bucket = ''ratelimit:''"
  by (simp_all add: demo_bucket_def NewRateLimitStore_def DefaultRedisStoreConfig_def second_def Let_def)

interpretation demo_bucket: token_bucket "\<lambda>v. v" late_at "age late_at" demo_bucket srv_calls
  using lim_scripts.redis_scripts_axioms
  by (intro token_bucket.intro token_bucket_axioms.intro) (simp_all add: second_def)

lemma fl64_numeral: "n \<le> 2 ^ 53 \<Longrightarrow> fl64 (of_nat n) = of_nat n"
  using fl64.fl_int [of "int n"] by simp

lemma demo_refill [simp]: "refill_rate demo_bucket = 1"
proof -
  have "fl64 10 = 10" using fl64.fl_int [of 10] by simp
  moreover have "10 * second sdiv second = 10" "10 * second smod second = 0" by (simp_all add: second_def)
  ultimately show ?thesis by (simp add: refill_rate_def duration_seconds_def)
qed

lemma demo_life [simp]: "bucket_life demo_bucket = 10 * second"
  using fl64.fl_int [of 10] by (simp add: bucket_life_def)

text \<open>
  C10: the token bucket never leaves its bounds. Starting from an absent key, through any run of
  requests, whatever the processes' clocks say (also when they go backwards) and however long the
  run waits: every request gets an answer without a panic, the remaining count is between 0 and
  rate - 1, and it is 0 whenever the request is refused.
\<close>

theorem token_bucket_bounds:
  assumes "token_bucket view late elapse s rc"
    and "rv_up (view w)" and "rv_keys (view w) (tb_key s key) = None" and "gaps_ok rs"
  shows "\<forall>r \<in> set (fst (check_run (checkTokenBucket s key) elapse rs w)). \<exists>allowed remaining reset.
    r = Inr (allowed, remaining, reset) \<and> 0 \<le> remaining \<and> remaining \<le> rl_rate s - 1 \<and>
    (\<not> allowed \<longrightarrow> remaining = 0)"
proof -
  have "token_bucket.bucket_ok view s key w"
    using assms(2,3) by (simp add: token_bucket.bucket_ok_def [OF assms(1)])
  from token_bucket.run_bucket_ok [OF assms(1) this assms(4)] show ?thesis
    by (fastforce simp: answer_in_range_def)
qed

theorem token_bucket_bounds_witness:
  "\<exists>allowed remaining reset. fst (check_run (checkTokenBucket demo_bucket ''ip'') (age late_at)
     [(0, 0), (second, - (5 * second))] (empty_server 0)) ! 1 = Inr (allowed, remaining, reset) \<and> remaining \<le> 9"
proof -
  let ?rs = "[(0, 0), (second, - (5 * second))]"
  let ?xs = "fst (check_run (checkTokenBucket demo_bucket ''ip'') (age late_at) ?rs (empty_server 0))"
  have "?xs ! 1 \<in> set ?xs" by (rule nth_mem) simp
  moreover have "\<forall>r \<in> set ?xs. \<exists>allowed remaining reset. r = Inr (allowed, remaining, reset) \<and>
      0 \<le> remaining \<and> remaining \<le> rl_rate demo_bucket - 1 \<and> (\<not> allowed \<longrightarrow> remaining = 0)"
    by (rule token_bucket_bounds [OF demo_bucket.token_bucket_axioms]) (simp_all add: second_def)
  ultimately have "\<exists>allowed remaining reset. ?xs ! 1 = Inr (allowed, remaining, reset) \<and>
      0 \<le> remaining \<and> remaining \<le> rl_rate demo_bucket - 1 \<and> (\<not> allowed \<longrightarrow> remaining = 0)"
    by (rule bspec [rotated])
  then show ?thesis by (simp only: demo_bucket_sel) fastforce
qed

text \<open>
  C24: a burst. From an absent key, requests whose clocks read the same millisecond, while the key
  lives: exactly the first \<open>rate\<close> of them are allowed, with rate - 1, rate - 2, ... 0 remaining,
  and all others are refused.
\<close>

theorem token_bucket_burst:
  assumes "token_bucket view late elapse s rc"
    and "rv_up (view w)" and "rv_keys (view w) (tb_key s key) = None"
    and "gaps_ok rs" and "run_span rs < bucket_life s" and "0 \<le> d"
    and "\<forall>(e, now') \<in> set rs. unix_milli now' = unix_milli now" and "n \<le> length rs"
  shows "\<exists>reset. fst (check_run (checkTokenBucket s key) elapse ((d, now) # rs) w) ! n =
    Inr (int n < rl_rate s, max 0 (rl_rate s - 1 - int n), reset)"
proof -
  have m: "\<forall>(e, now') \<in> set rs. millis now' = millis now" using assms(7) by (auto simp: millis_def)
  show ?thesis
    by (rule token_bucket.burst_fresh [OF assms(1) conjI [OF assms(2,3)] assms(4,5) m assms(8,6)])
qed

theorem token_bucket_burst_witness:
  "\<exists>r r'. fst (check_run (checkTokenBucket demo_bucket ''ip'') (age late_at)
      ((0, 3) # replicate 10 (0, 5)) (empty_server 0)) ! 9 = Inr (True, 0, r) \<and>
    fst (check_run (checkTokenBucket demo_bucket ''ip'') (age late_at)
      ((0, 3) # replicate 10 (0, 5)) (empty_server 0)) ! 10 = Inr (False, 0, r')"
  using token_bucket_burst [OF demo_bucket.token_bucket_axioms,
      of "empty_server 0" "''ip''" "replicate 10 (0, 5)" 0 3 9]
    token_bucket_burst [OF demo_bucket.token_bucket_axioms,
      of "empty_server 0" "''ip''" "replicate 10 (0, 5)" 0 3 10]
  by (simp add: unix_milli_def run_span_def gaps_ok_def second_def sum_list_replicate)

text \<open>
  C25: polling keeps a drained bucket empty. A refused request moves \<open>last_refill\<close> to now without
  storing the tokens refilled since; so if a bucket has no token left and each request comes at
  most \<open>g\<close> milliseconds after the one before, where \<open>g\<close> refills less than one token, then every
  request is refused for as long as the key lives, however many tokens that time was worth.
\<close>

theorem token_bucket_starvation:
  assumes "token_bucket view late elapse s rc"
    and "rv_up (view w)"
    and "rv_keys (view w) (tb_key s key) = Some (RHash h, Some (rv_clock (view w) + u))"
    and "h ''tokens'' = Some 0" and "h ''last_refill'' = Some l"
    and "fl64 (fl64 (fl64 g / 1000) * refill_rate s) < 1"
    and "gaps_ok rs" and "run_span rs < u" and "polls_within g l rs"
  shows "\<forall>r \<in> set (fst (check_run (checkTokenBucket s key) elapse rs w)).
    \<exists>reset. r = Inr (False, 0, reset)"
  using assms(2-5) by (intro token_bucket.run_starved [OF assms(1) _ assms(6-9)]) blast

definition drained :: redis_view where
  "drained = put_key ''ratelimit:tb:ip''
     (RHash [''tokens'' \<mapsto> 0, ''last_refill'' \<mapsto> 0], Some (10 * second)) (empty_server 0)"

definition two_polls_a_second :: "nat \<Rightarrow> (duration \<times> instant) list" where
  "two_polls_a_second n = map (\<lambda>i. (500 * millisecond, (int i + 1) * 500 * millisecond)) [0..<n]"

lemma fl64_half: "fl64 (1 / 2) = 1 / 2"
proof -
  have "binade (1 / 2) = - 1" by (rule binade_unique) (simp_all add: power_int_minus)
  then show ?thesis by (intro fl64_multiple [of _ 1 "- 1"]) (simp_all add: power_int_minus)
qed

lemma half_second: "\<bar>n\<bar> \<le> 2 ^ 20 \<Longrightarrow> millis (n * 500 * millisecond) = of_int (n * 500)"
proof -
  assume n: "\<bar>n\<bar> \<le> 2 ^ 20"
  have "unix_milli (n * 500 * millisecond) = n * 500" by (simp add: unix_milli_def millisecond_def)
  then show ?thesis using n by (simp only: millis_def) (rule fl64.fl_int, simp)
qed

theorem token_bucket_starvation_witness:
  "set (fst (check_run (checkTokenBucket demo_bucket ''ip'') (age late_at)
     (two_polls_a_second 4) drained)) \<subseteq> {r. \<exists>reset. r = Inr (False, 0, reset)}"
proof -
  have "fl64 500 = 500" using fl64.fl_int [of 500] by simp
  then have slow: "fl64 (fl64 (fl64 500 / 1000) * refill_rate demo_bucket) < 1" by (simp add: fl64_half)
  have rs: "two_polls_a_second 4 = [(500 * millisecond, 1 * 500 * millisecond),
      (500 * millisecond, 2 * 500 * millisecond), (500 * millisecond, 3 * 500 * millisecond),
      (500 * millisecond, 4 * 500 * millisecond)]"
    by (simp add: two_polls_a_second_def upt_conv_Cons)
  have "polls_within 500 0 (two_polls_a_second 4)"
    unfolding rs using half_second [of 1] half_second [of 2] half_second [of 3] half_second [of 4] by simp
  then have "\<forall>r \<in> set (fst (check_run (checkTokenBucket demo_bucket ''ip'') (age late_at)
     (two_polls_a_second 4) drained)). \<exists>reset. r = Inr (False, 0, reset)"
    using token_bucket_starvation [OF demo_bucket.token_bucket_axioms,
        of drained "''ip''" _ "10 * second" 0 500 "two_polls_a_second 4"] slow
    by (simp add: drained_def tb_key_def rs millisecond_def second_def)
  then show ?thesis by blast
qed

text \<open>
  The bucket is full again at the end of its key's life. EXPIRE is only called when the key is
  created, and no request extends its life; so whatever was taken in between, the first request
  later than \<open>bucket_life\<close> after the creation finds a whole bucket (and a burst of \<open>rate\<close> can
  follow one of the same size just before).
\<close>

theorem token_bucket_expiry:
  assumes "token_bucket view late elapse s rc"
    and "rv_up (view w)" and "rv_keys (view w) (tb_key s key) = None"
    and "gaps_ok rs" and "run_span rs < bucket_life s" and "0 \<le> d" and "bucket_life s < run_span rs + d"
  shows "\<exists>reset. fst (checkTokenBucket s key now'
      (elapse d (snd (check_run (checkTokenBucket s key) elapse ((0, now) # rs) w)))) =
    Inr (True, rl_rate s - 1, reset)"
  by (rule token_bucket.life_ends [OF assms(1) conjI [OF assms(2,3)] assms(4-7)])

theorem token_bucket_expiry_witness:
  "\<exists>reset. fst (checkTokenBucket demo_bucket ''ip'' 0 (age late_at (2 * second)
     (snd (check_run (checkTokenBucket demo_bucket ''ip'') (age late_at)
       ((0, 0) # [(9 * second, 9 * second)]) (empty_server 0))))) = Inr (True, 9, reset)"
  using token_bucket_expiry [OF demo_bucket.token_bucket_axioms,
    of "empty_server 0" "''ip''" "[(9 * second, 9 * second)]" "2 * second" 0 0]
  by (simp add: second_def)

text \<open>
  C4: the limit that the token bucket enforces. In any run of requests on a key that is absent at
  its start and whose clocks never go backwards, the requests that are allowed are at most: \<open>rate\<close>
  for every life of the key that fits into the server's time of the run (the key is never renewed,
  so a full bucket comes with each), plus what the refill rate gives for the time between the
  clocks \<open>a\<close> and \<open>b\<close> of the run (in milliseconds). Both are there at once: in the long run the
  bound is twice the configured rate. The factors near 1 are the rounding of the doubles that the
  script computes with.
\<close>

theorem token_bucket_bound:
  assumes "token_bucket view late elapse s rc"
    and "rv_up (view w)" and "rv_keys (view w) (tb_key s key) = None"
    and "gaps_ok rs" and "clocks_rise a b rs"
  shows "of_int (admitted_res (fst (check_run (checkTokenBucket s key) elapse rs w))) * (1 - of_int (rl_rate s) / 2 ^ 52) \<le>
    of_int (rl_rate s) * of_int (run_span rs div bucket_life s + 1) +
      refill_rate s / 1000 * (1 + 1 / 2 ^ 53) ^ 3 * (b - a)"
  using token_bucket.run_admitted(2) [OF assms(1,4) conjI [OF assms(2,3)] assms(5)] run_span_nonneg [OF assms(4)]
  by (simp add: token_bucket.token_cost_def [OF assms(1)] token_bucket.refill_bound_def [OF assms(1)] lives_def)

theorem token_bucket_bound_witness:
  "admitted_res (fst (check_run (checkTokenBucket demo_bucket ''ip'') (age late_at)
     (replicate 20 (0, 0) @ (second, second) # replicate 20 (0, second)) (empty_server 0))) \<le> 11"
proof -
  let ?rs = "replicate 20 (0, 0) @ (second, second) # replicate 20 (0, second)"
  have "millis second = 1000" "millis 0 = 0"
    by (simp_all add: millis_exact unix_milli_def second_def millisecond_def)
  then have "clocks_rise 0 1000 ?rs" by (simp add: numeral_eq_Suc)
  moreover have "gaps_ok ?rs" "run_span ?rs = second"
    by (auto simp: gaps_ok_def run_span_def sum_list_replicate second_def)
  moreover have "(9007199254740993 / 9007199254740992) ^ 3 \<le> (1 + 1 / 2 ^ 50 :: rat)"
    by (simp add: power3_eq_cube)
  ultimately have "of_int (admitted_res (fst (check_run (checkTokenBucket demo_bucket ''ip'') (age late_at)
      ?rs (empty_server 0)))) < (12 :: rat)"
    using token_bucket_bound [OF demo_bucket.token_bucket_axioms, of "empty_server 0" "''ip''" ?rs 0 1000]
    by (simp add: second_def)
  then show ?thesis by linarith
qed

text \<open>
  A reset time in the past. When a request leaves two or more tokens in the bucket, and the
  bucket refills at no more than 512 tokens a second, the reset time that it reports is earlier
  than the request itself.
\<close>

theorem token_bucket_reset_past:
  assumes "token_bucket view late elapse s rc"
    and "rv_up (view w)" and "rv_keys (view w) (tb_key s key) = Some (RHash h, dl)"
    and "h ''tokens'' = Some t" and "h ''last_refill'' = Some l"
    and "fst (checkTokenBucket s key now w) = Inr (True, remaining, reset)" and "2 \<le> remaining"
    and "refill_rate s \<le> 512" and "\<bar>unix_milli now\<bar> \<le> 2 ^ 52"
  shows "reset < now"
proof -
  have b: "rv_up (view w) \<and> (\<exists>h. rv_keys (view w) (tb_key s key) = Some (RHash h, dl) \<and>
      h ''tokens'' = Some t \<and> h ''last_refill'' = Some l)" using assms(2-5) by blast
  have one: "1 \<le> refilled s t l (millis now)"
    using token_bucket.check_bucket(2) [OF assms(1) b, of now] assms(6) by fastforce
  let ?t = "fl64 (refilled s t l (millis now) - 1)"
  have r: "remaining = \<lfloor>?t\<rfloor>" "reset = of_unix_milli (trunc (reset_at s ?t (millis now)))"
    using token_bucket.check_bucket(1) [OF assms(1) b one] assms(6) by simp_all
  have "2 \<le> ?t" using assms(7) r(1) by (simp add: le_floor_iff)
  then show ?thesis
    using token_bucket.reset_past [OF assms(1) _ assms(8,9)] r(2) by simp
qed

theorem token_bucket_reset_past_witness:
  "\<exists>r r'. fst (checkTokenBucket demo_bucket ''ip'' second
     (put_key ''ratelimit:tb:ip'' (RHash [''tokens'' \<mapsto> 9, ''last_refill'' \<mapsto> 1000], None) (empty_server 0))) =
     Inr (True, r, r') \<and> r' < second"
proof -
  let ?w = "put_key ''ratelimit:tb:ip'' (RHash [''tokens'' \<mapsto> 9, ''last_refill'' \<mapsto> 1000], None) (empty_server 0)"
  have n: "millis second = 1000"
    using half_second [of 2] by (simp add: second_def millisecond_def)
  have ref: "refilled demo_bucket 9 1000 (millis second) = 9"
    using fl64.fl_int [of 9] by (simp add: refilled_def n)
  have b: "rv_up ?w \<and> (\<exists>h. rv_keys ?w (tb_key demo_bucket ''ip'') = Some (RHash h, None) \<and>
      h ''tokens'' = Some 9 \<and> h ''last_refill'' = Some 1000)"
    by (simp add: tb_key_def)
  have "1 \<le> refilled demo_bucket 9 1000 (millis second)" by (simp add: ref)
  note c = demo_bucket.check_bucket(1) [OF b this]
  have "\<lfloor>fl64 (9 - 1)\<rfloor> = 8" using fl64.fl_int [of 8] by simp
  with c have r: "fst (checkTokenBucket demo_bucket ''ip'' second ?w) =
      Inr (True, 8, of_unix_milli (trunc (reset_at demo_bucket (fl64 (9 - 1)) (millis second))))"
    by (simp only: ref)
  have "of_unix_milli (trunc (reset_at demo_bucket (fl64 (9 - 1)) (millis second))) < second"
    by (rule token_bucket_reset_past [OF demo_bucket.token_bucket_axioms _ _ _ _ r,
          where h = "[''tokens'' \<mapsto> 9, ''last_refill'' \<mapsto> 1000]" and dl = None])
      (simp_all add: tb_key_def unix_milli_def second_def)
  with r show ?thesis by blast
qed

section \<open>The sliding window\<close>

definition demo_sliding :: "redis_view rate_store" where
  "demo_sliding = NewRateLimitStore lim_client
     [\<lparr>rc_Algorithm = SlidingWindow, rc_Window = 10 * second, rc_Rate = 2, rc_KeyPrefix = ''''\<rparr>]"

lemma demo_sliding_sel [simp]:
  "rl_client demo_sliding = lim_client" "rl_window demo_sliding = 10 * second" "rl_rate demo_sliding = 2"
  "rl_algorithm demo_sliding = SlidingWindow" "rl_keyPrefix demo_sliding = ''ratelimit:''"
  by (simp_all add: demo_sliding_def NewRateLimitStore_def DefaultRedisStoreConfig_def second_def Let_def)

interpretation demo_sliding: sliding_window "\<lambda>v. v" late_at "age late_at" demo_sliding wire_sec
  using lim_zset.redis_zset_axioms
  by (intro sliding_window.intro sliding_window_axioms.intro) (simp_all add: second_def)

text \<open>
  C8: the sorted set implements a log of admitted requests. For a window of whole seconds, requests
  served one after another, each by a process whose clock agrees with the server's: each is allowed
  exactly if fewer than \<open>rate\<close> of the requests admitted before lie in its window (in whole
  milliseconds), and the remaining count is what is left after it. The server's expiry of the key
  and the removal of old entries never forget a request that still counts.
\<close>

theorem sliding_window_exact:
  assumes "sliding_window view late elapse s ex"
    and "rv_up (view w)" and "rv_keys (view w) (sw_key s key) = None"
    and "0 \<le> rv_clock (view w)" and "in_step (rv_clock (view w)) rs"
    and "rv_clock (view w) + run_span rs < 2 ^ 63"
  shows "map (\<lambda>(allowed, remaining, _). (allowed, remaining))
      (fst (check_run (checkSlidingWindow s key) elapse rs w)) =
    sliding_spec (rl_rate s) (rl_window s) {} rs"
  using sliding_window.run_spec [OF assms(1) sliding_window.fresh_log [OF assms(1-3)] assms(5) _ assms(4,6)]
  by simp

definition three_requests :: "(duration \<times> instant) list" where
  "three_requests = [(second, second), (second, 2 * second), (second, 3 * second)]"

lemma three_spec: "sliding_spec 2 (10 * second) {} three_requests = [(True, 1), (True, 0), (False, 0)]"
proof -
  have "in_window (10 * second) (2 * second) {second} = {second}"
    "in_window (10 * second) (3 * second) {2 * second, second} = {2 * second, second}"
    by (auto simp: in_window_def unix_milli_def second_def)
  moreover have "in_window (10 * second) second {} = {}" by (simp add: in_window_def)
  ultimately show ?thesis by (simp add: three_requests_def Let_def) (simp add: second_def)
qed

lemma three_ok: "in_step 0 three_requests" "run_span three_requests < 2 ^ 63"
  by (simp_all add: three_requests_def run_span_def second_def)

theorem sliding_window_exact_witness:
  "map (\<lambda>(allowed, remaining, _). (allowed, remaining))
      (fst (check_run (checkSlidingWindow demo_sliding ''ip'') (age late_at) three_requests (empty_server 0))) =
     [(True, 1), (True, 0), (False, 0)]"
  using sliding_window_exact [OF demo_sliding.sliding_window_axioms, of "empty_server 0" "''ip''" three_requests]
    three_ok
  by (simp add: three_spec)

lemma admitted_at_forget: "admitted_at (map (\<lambda>(a, n, _). (a, n)) ds) rs = admitted_at ds rs" for ds :: "decision list"
  by (force simp: admitted_at_def zip_map1)

lemma three_admitted:
  "admitted_at (fst (check_run (checkSlidingWindow demo_sliding ''ip'') (age late_at) three_requests
     (empty_server 0))) three_requests = {second, 2 * second}"
proof -
  let ?ds = "fst (check_run (checkSlidingWindow demo_sliding ''ip'') (age late_at) three_requests (empty_server 0))"
  have "map (\<lambda>(a, n, _). (a, n)) ?ds = sliding_spec 2 (10 * second) {} three_requests"
    using demo_sliding.run_spec [OF demo_sliding.fresh_log, of "empty_server 0" "''ip''" three_requests] three_ok
    by simp
  then have "admitted_at ?ds three_requests = admitted_at [(True, 1 :: int), (True, 0), (False, 0)] three_requests"
    using three_spec by (metis admitted_at_forget)
  then show ?thesis by (auto simp: admitted_at_def three_requests_def)
qed

text \<open>
  C5: the limit that the sliding window enforces. Under the same conditions: for every admitted
  request, at most \<open>rate\<close> admitted requests (itself included) lie in the window that ends with it.
\<close>

theorem sliding_window_limit:
  assumes "sliding_window view late elapse s ex"
    and "rv_up (view w)" and "rv_keys (view w) (sw_key s key) = None"
    and "0 \<le> rv_clock (view w)" and "in_step (rv_clock (view w)) rs"
    and "rv_clock (view w) + run_span rs < 2 ^ 63"
    and "A = admitted_at (fst (check_run (checkSlidingWindow s key) elapse rs w)) rs" and "t \<in> A"
  shows "int (card {u \<in> A. u \<le> t \<and> unix_milli (t - rl_window s) < unix_milli u}) \<le> rl_rate s"
proof -
  let ?ds = "fst (check_run (checkSlidingWindow s key) elapse rs w)"
  let ?W = "rl_window s"
  have spec: "map (\<lambda>(a, n, _). (a, n)) ?ds = sliding_spec (rl_rate s) ?W {} rs"
    using sliding_window.run_spec [OF assms(1) sliding_window.fresh_log [OF assms(1-3)] assms(5) _ assms(4,6)]
    by simp
  have "within_limit (rl_rate s) ?W ({} \<union> admitted_at (sliding_spec (rl_rate s) ?W {} rs) rs)"
    by (rule sliding_spec_limit [OF assms(5)]) (simp_all add: within_limit_def)
  then have "within_limit (rl_rate s) ?W A"
    unfolding assms(7) admitted_at_forget [of ?ds, symmetric] spec by simp
  then have "int (card (in_window ?W t {u \<in> A. u \<le> t})) \<le> rl_rate s"
    unfolding within_limit_def using assms(8) by (rule bspec)
  moreover have "in_window ?W t {u \<in> A. u \<le> t} =
      {u \<in> A. u \<le> t \<and> unix_milli (t - ?W) < unix_milli u}" by (auto simp: in_window_def)
  ultimately show ?thesis by (simp only:)
qed

theorem sliding_window_limit_witness:
  "int (card {u \<in> {second, 2 * second}. u \<le> 2 * second \<and>
     unix_milli (2 * second - 10 * second) < unix_milli u}) \<le> rl_rate demo_sliding"
  using sliding_window_limit [OF demo_sliding.sliding_window_axioms, of "empty_server 0" "''ip''" three_requests
      "{second, 2 * second}" "2 * second"] three_ok
  by (simp add: three_admitted)

text \<open>
  C39: where the sliding window does not count. If the rate is 2 or more, the key is absent and the
  server's clock agrees with that of the requests, then of any number of requests of the key that are
  served one after another with the same reading of the clock (not before 1970 nor after the range of
  UnixNano) all are allowed: they share one entry of the sorted set, whose members are the times in
  nanoseconds. (With a rate of 1 the second one finds that entry and is refused.)
\<close>

theorem sliding_window_same_instant:
  assumes "sliding_window view late elapse s ex"
    and "rv_up (view w)" and "rv_keys (view w) (sw_key s key) = None"
    and "rv_clock (view w) = now" and "0 \<le> now" and "now < 2 ^ 63" and "2 \<le> rl_rate s"
  shows "admitted (fst (check_run (checkSlidingWindow s key) elapse (replicate n (0, now)) w)) = int n"
  by (rule sliding_window.run_same_instant [OF assms(1) sliding_window.fresh_log [OF assms(1-3)]])
    (use assms(4-7) in \<open>simp_all add: clock_range_def\<close>)

theorem sliding_window_same_instant_witness:
  "admitted (fst (check_run (checkSlidingWindow demo_sliding ''ip'') (age late_at)
     (replicate 1000 (0, second)) (empty_server second))) = 1000 \<and> rl_rate demo_sliding = 2"
  using sliding_window_same_instant [OF demo_sliding.sliding_window_axioms,
      of "empty_server second" "''ip''" second 1000]
  by (simp add: second_def)

end
