(* ===== verification/Rate_Races.thy ===== *)
theory Rate_Races
  imports Rate_Properties
begin

text \<open>
  Where the sliding window lets more requests through: its commands are separate round trips, so
  the commands of several processes interleave, and EXPIRE rounds the window down to whole seconds.
\<close>

section \<open>The two halves of a check\<close>

text \<open>The first half is \<open>sliding_count\<close>; the second records the request, from the first one's reply.\<close>

definition sliding_record ::
  "'w rate_store \<Rightarrow> string \<Rightarrow> instant \<Rightarrow> int res \<Rightarrow> 'w \<Rightarrow> decision \<times> 'w" where
  "sliding_record s key now r w =
     (case r of
        Inl err \<Rightarrow> (fail_open s now, w)
      | Inr count \<Rightarrow>
          if count \<ge> rl_rate s
          then (let (oldest, w) = rl_zrange_with_scores (rl_client s) (sw_key s key) 0 0 w
                in ((False, 0, case oldest of
                        Inr (z # _) \<Rightarrow> of_unix_milli (float_to_int64 (z_score z)) + rl_window s
                      | _ \<Rightarrow> now + rl_window s), w))
          else (let (r, w) = rl_zadd (rl_client s) (sw_key s key)
                               [(fl64 (of_int (unix_milli now)), unix_nano now)] w
                in case r of
                     Inl err \<Rightarrow> (fail_open s now, w)
                   | Inr _ \<Rightarrow>
                       ((True, rl_rate s - count - 1, now + rl_window s),
                        snd (rl_expire (rl_client s) (sw_key s key) (rl_window s) w))))"

lemma checkSlidingWindow_halves:
  "checkSlidingWindow s key now w =
     (let (r, w) = sliding_count s key now w in sliding_record s key now r w)"
  by (simp add: checkSlidingWindow_def sliding_count_def sliding_record_def Let_def case_prod_unfold
      split: sum.split)

text \<open>Processes that first all count and then, in the same order, all record.\<close>

fun count_all :: "'w rate_store \<Rightarrow> string \<Rightarrow> instant list \<Rightarrow> 'w \<Rightarrow> (int res \<times> instant) list \<times> 'w" where
  "count_all s key [] w = ([], w)"
| "count_all s key (now # ts) w =
     (let (r, w) = sliding_count s key now w; (rs, w) = count_all s key ts w in ((r, now) # rs, w))"

fun record_all :: "'w rate_store \<Rightarrow> string \<Rightarrow> (int res \<times> instant) list \<Rightarrow> 'w \<Rightarrow> decision list \<times> 'w" where
  "record_all s key [] w = ([], w)"
| "record_all s key ((r, now) # rs) w =
     (let (x, w) = sliding_record s key now r w; (xs, w) = record_all s key rs w in (x # xs, w))"

lemma is_zset_insert:
  assumes "is_zset Z"
  shows "is_zset (insert (Zm x m) {z \<in> Z. z_member z \<noteq> m})"
  using assms by (auto simp: is_zset_def inj_on_def)

locale sliding_store = redis_zset view late elapse "rl_client s" ex
  for view :: "'w \<Rightarrow> redis_view" and late elapse and s :: "'w rate_store" and ex +
  assumes window_pos: "0 < rl_window s" and rate_pos: "0 < rl_rate s"
begin

abbreviation zset_or_none :: "string \<Rightarrow> 'w \<Rightarrow> bool" where
  "zset_or_none key w \<equiv> rv_up (view w) \<and>
     (rv_keys (view w) (sw_key s key) = None \<or>
      (\<exists>Z dl. rv_keys (view w) (sw_key s key) = Some (RZset Z, dl) \<and> is_zset Z))"

lemma count_absent:
  assumes "rv_up (view w)" and "rv_keys (view w) (sw_key s key) = None"
  shows "fst (sliding_count s key now w) = Inr 0" and "view (snd (sliding_count s key now w)) = view w"
  using assms zrem_absent [OF assms] zcard_absent zcard_view by (simp_all add: sliding_count_def)

lemma count_all_absent:
  assumes "rv_up (view w)" and "rv_keys (view w) (sw_key s key) = None"
  shows "fst (count_all s key ts w) = map (\<lambda>now. (Inr 0, now)) ts \<and> view (snd (count_all s key ts w)) = view w"
  using assms
proof (induction ts arbitrary: w)
  case (Cons now ts)
  then show ?case
    using count_absent [OF Cons.prems, of now] Cons.IH [of "snd (sliding_count s key now w)"]
    by (simp add: Let_def case_prod_unfold)
qed simp

text \<open>Recording a request after a count of 0.\<close>

lemma record_zero:
  assumes "zset_or_none key w"
  shows "fst (sliding_record s key now (Inr 0) w) = (True, rl_rate s - 1, now + rl_window s)"
    and "\<exists>Z. is_zset Z \<and> view (snd (sliding_record s key now (Inr 0) w)) =
      put_key (sw_key s key) (RZset Z, Some (rv_clock (view w) + ex (rl_window s))) (view w)"
proof -
  let ?k = "sw_key s key" and ?x = "fl64 (of_int (unix_milli now))" and ?m = "unix_nano now"
  have "\<exists>n w' Z dl. rl_zadd (rl_client s) ?k [(?x, ?m)] w = (Inr n, w') \<and> is_zset Z \<and>
      view w' = put_key ?k (RZset Z, dl) (view w)"
  proof (cases "rv_keys (view w) ?k")
    case None
    have "is_zset {Zm ?x (format_int ?m)}" by (simp add: is_zset_def)
    then show ?thesis
      using zadd_absent [of w ?k ?x ?m] None assms by (auto simp: prod_eq_iff)
  next
    case (Some e)
    then obtain Z dl where Z: "rv_keys (view w) ?k = Some (RZset Z, dl)" "is_zset Z" using assms by auto
    have up: "rv_up (view w)" using assms by simp
    show ?thesis
      using zadd_present [OF up Z, of ?x ?m] is_zset_insert [OF Z(2), of ?x "format_int ?m"]
      by (auto simp: prod_eq_iff)
  qed
  then obtain n w' Z dl where add: "rl_zadd (rl_client s) ?k [(?x, ?m)] w = (Inr n, w')" "is_zset Z"
    "view w' = put_key ?k (RZset Z, dl) (view w)" by blast
  let ?e = "snd (rl_expire (rl_client s) ?k (rl_window s) w')"
  have r: "sliding_record s key now (Inr 0) w = ((True, rl_rate s - 1, now + rl_window s), ?e)"
    using rate_pos by (simp add: sliding_record_def add(1))
  have "view ?e = put_key ?k (RZset Z, Some (rv_clock (view w) + ex (rl_window s))) (view w)"
    using expire_sets [of w' ?k "RZset Z" dl "rl_window s"] add(3) assms window_pos by (simp add: put_key_def)
  then show "fst (sliding_record s key now (Inr 0) w) = (True, rl_rate s - 1, now + rl_window s)"
    and "\<exists>Z. is_zset Z \<and> view (snd (sliding_record s key now (Inr 0) w)) =
      put_key ?k (RZset Z, Some (rv_clock (view w) + ex (rl_window s))) (view w)"
    using add(2) by (auto simp: r)
qed

lemma record_all_zero:
  assumes "zset_or_none key w"
  shows "fst (record_all s key (map (\<lambda>now. (Inr 0, now)) ts) w) =
    map (\<lambda>now. (True, rl_rate s - 1, now + rl_window s)) ts"
  using assms
proof (induction ts arbitrary: w)
  case (Cons now ts)
  let ?w = "snd (sliding_record s key now (Inr 0) w)"
  have "zset_or_none key ?w" using record_zero(2) [OF Cons.prems, of now] Cons.prems by auto
  then show ?case
    using Cons.IH [of ?w] record_zero(1) [OF Cons.prems] by (simp add: Let_def case_prod_unfold)
qed simp

lemma race:
  assumes "rv_up (view w)" and "rv_keys (view w) (sw_key s key) = None"
  shows "fst (record_all s key (fst (count_all s key ts w)) (snd (count_all s key ts w))) =
    map (\<lambda>now. (True, rl_rate s - 1, now + rl_window s)) ts"
  using count_all_absent [OF assms, of ts] record_all_zero [where key = key and w = "snd (count_all s key ts w)" and ts = ts] assms
  by simp

lemma check_absent:
  assumes "rv_up (view w)" and "rv_keys (view w) (sw_key s key) = None"
  shows "fst (checkSlidingWindow s key now w) = (True, rl_rate s - 1, now + rl_window s)"
    and "\<exists>Z. view (snd (checkSlidingWindow s key now w)) =
      put_key (sw_key s key) (RZset Z, Some (rv_clock (view w) + ex (rl_window s))) (view w)"
  using count_absent [OF assms, of now] record_zero [where key = key and w = "snd (sliding_count s key now w)" and now = now] assms
  by (auto simp: checkSlidingWindow_halves Let_def case_prod_unfold)

lemma early_expiry:
  assumes "rv_up (view w)" and "rv_keys (view w) (sw_key s key) = None"
    and "0 \<le> d" and "ex (rl_window s) < d"
  shows "fst (checkSlidingWindow s key now' (elapse d (snd (checkSlidingWindow s key now w)))) =
    (True, rl_rate s - 1, now' + rl_window s)"
proof -
  let ?w = "snd (checkSlidingWindow s key now w)"
  obtain Z where "view ?w = put_key (sw_key s key)
      (RZset Z, Some (rv_clock (view w) + ex (rl_window s))) (view w)"
    using check_absent(2) [OF assms(1,2)] by blast
  then have "rv_keys (view (elapse d ?w)) (sw_key s key) = None" and "rv_up (view (elapse d ?w))"
    using elapse_drops [OF assms(3), of ?w "sw_key s key" "RZset Z"] assms by simp_all
  then show ?thesis by (intro check_absent(1))
qed

end

section \<open>Properties\<close>

definition demo_one :: "redis_view rate_store" where
  "demo_one = NewRateLimitStore lim_client
     [\<lparr>rc_Algorithm = SlidingWindow, rc_Window = 1900 * millisecond, rc_Rate = 1, rc_KeyPrefix = ''''\<rparr>]"

lemma demo_one_sel [simp]:
  "rl_client demo_one = lim_client" "rl_window demo_one = 1900 * millisecond" "rl_rate demo_one = 1"
  by (simp_all add: demo_one_def NewRateLimitStore_def DefaultRedisStoreConfig_def millisecond_def Let_def)

interpretation demo_one: sliding_store "\<lambda>v. v" late_at "age late_at" demo_one wire_sec
  using lim_zset.redis_zset_axioms
  by (intro sliding_store.intro sliding_store_axioms.intro) (simp_all add: millisecond_def)



text \<open>
  A window that is not a whole number of seconds. EXPIRE takes whole seconds, and go-redis drops
  the fraction; the server then forgets the log of a key before its entries leave the window, and a
  request that comes after that, but within the window, finds the whole limit again.
\<close>

theorem sliding_window_early_expiry:
  assumes "sliding_store view late elapse s ex"
    and "rv_up (view w)" and "rv_keys (view w) (sw_key s key) = None"
    and "0 \<le> d" and "ex (rl_window s) < d"
  shows "fst (checkSlidingWindow s key now w) = (True, rl_rate s - 1, now + rl_window s) \<and>
    fst (checkSlidingWindow s key now' (elapse d (snd (checkSlidingWindow s key now w)))) =
      (True, rl_rate s - 1, now' + rl_window s)"
  using sliding_store.check_absent(1) [OF assms(1-3)] sliding_store.early_expiry [OF assms] by blast

theorem sliding_window_early_expiry_witness:
  "fst (checkSlidingWindow demo_one ''ip'' (1100 * millisecond) (age late_at (1100 * millisecond)
     (snd (checkSlidingWindow demo_one ''ip'' 0 (empty_server 0))))) = (True, 0, 3000 * millisecond)"
proof -
  have "wire_sec (1900 * millisecond) = second" by (simp add: wire_sec_def millisecond_def second_def)
  then show ?thesis
    using sliding_window_early_expiry [OF demo_one.sliding_store_axioms,
      of "empty_server 0" "''ip''" "1100 * millisecond" 0 "1100 * millisecond"]
    by (simp add: millisecond_def second_def)
qed

end
