(* ===== verification/Rate_Reset.thy ===== *)
theory Rate_Reset
  imports Rate_Properties
begin

text \<open>
  What the reset time of a refusal is worth: a client of the sliding window that comes back alone is
  served from that time on and not before; one of the token bucket that comes back by then is refused.
\<close>

section \<open>The sliding window\<close>

text \<open>A millisecond \<open>m\<close> is over at \<open>t\<close> once \<open>t\<close> has reached it.\<close>

lemma unix_milli_less: "unix_milli t < m \<longleftrightarrow> t < of_unix_milli m"
  unfolding unix_milli_def of_unix_milli_def by linarith

lemma in_step_append:
  "in_step c (rs @ qs) \<longleftrightarrow> in_step c rs \<and> in_step (c + run_span rs) qs"
  by (induction c rs rule: in_step.induct) (auto simp: add.assoc)

context sliding_window
begin

definition log_ok :: "string \<Rightarrow> 'w \<Rightarrow> instant set \<Rightarrow> bool" where
  "log_ok key w A \<longleftrightarrow> keeps_log key w A \<and> (\<forall>t \<in> A. t \<le> rv_clock (view w)) \<and>
     int (card (live (rv_clock (view w)) A)) \<le> rl_rate s"

lemma log_ok_elapse:
  assumes "log_ok key w A" and "0 \<le> d"
  shows "log_ok key (elapse d w) A"
proof -
  have "finite A" using assms(1) by (simp add: log_ok_def keeps_log_def)
  then have "card (live (rv_clock (view w) + d) A) \<le> card (live (rv_clock (view w)) A)"
    using assms(2) by (intro card_mono live_mono) simp_all
  then show ?thesis using assms keeps_log_elapse by (force simp: log_ok_def)
qed

lemma log_ok_check:
  assumes "log_ok key w A" and "0 < d" and "0 \<le> rv_clock (view w)" and "rv_clock (view w) + d < 2 ^ 63"
  defines "now \<equiv> rv_clock (view w) + d"
  shows "\<exists>A'. log_ok key (snd (checkSlidingWindow s key now (elapse d w))) A'"
    and "rv_clock (view (snd (checkSlidingWindow s key now (elapse d w)))) = now"
proof -
  have ok: "log_ok key (elapse d w) A" using log_ok_elapse assms(1,2) by simp
  then have log: "keeps_log key (elapse d w) A" and fin: "finite A" by (simp_all add: log_ok_def keeps_log_def)
  have clk: "rv_clock (view (elapse d w)) = now" using assms(2) by (simp add: now_def)
  have ran: "now \<in> clock_range" using assms(2-4) by (simp add: clock_range_def now_def)
  have A: "\<forall>t \<in> A. t \<le> now" using assms(1,2) unfolding log_ok_def now_def by fastforce
  have "(\<exists>A'. log_ok key (snd (checkSlidingWindow s key now (elapse d w))) A') \<and>
      rv_clock (view (snd (checkSlidingWindow s key now (elapse d w)))) = now"
  proof (cases "int (card (live now A)) < rl_rate s")
    case True
    note c = check_admit [OF log clk ran A True]
    have "live now (insert now A) \<subseteq> insert now (live now A)" by (auto simp: in_window_def)
    from card_mono [OF _ this] have "card (live now (insert now A)) \<le> Suc (card (live now A))"
      using fin card_insert_le_m1 [of "Suc (card (live now A))" "live now A" now]
      by (simp add: card_insert_if split: if_splits)
    then show ?thesis
      using c A True unfolding log_ok_def by (force intro!: exI [of _ "insert now A"])
  next
    case False
    then have "rl_rate s \<le> int (card (live now A))" by simp
    note c = check_refuse [OF log clk ran this]
    show ?thesis using c(4,5) ok clk unfolding log_ok_def by (force intro!: exI [of _ A])
  qed
  then show "\<exists>A'. log_ok key (snd (checkSlidingWindow s key now (elapse d w))) A'"
    and "rv_clock (view (snd (checkSlidingWindow s key now (elapse d w)))) = now" by auto
qed

lemma run_log_ok:
  assumes "log_ok key w A" and "in_step (rv_clock (view w)) rs" and "0 \<le> rv_clock (view w)"
    and "rv_clock (view w) + run_span rs < 2 ^ 63"
  shows "\<exists>A'. log_ok key (snd (check_run (checkSlidingWindow s key) elapse rs w)) A'"
    and "rv_clock (view (snd (check_run (checkSlidingWindow s key) elapse rs w))) =
      rv_clock (view w) + run_span rs"
proof -
  have "(\<exists>A'. log_ok key (snd (check_run (checkSlidingWindow s key) elapse rs w)) A') \<and>
    rv_clock (view (snd (check_run (checkSlidingWindow s key) elapse rs w))) = rv_clock (view w) + run_span rs"
    using assms
  proof (induction rs arbitrary: w A)
    case (Cons r rs)
    obtain d now where r: "r = (d, now)" by (cases r)
    have step: "0 < d" "now = rv_clock (view w) + d" "in_step now rs" using Cons.prems(2) by (auto simp: r)
    have span: "0 \<le> run_span rs" by (rule in_step_span [OF step(3)])
    have small: "rv_clock (view w) + d < 2 ^ 63" using Cons.prems(4) span by (simp add: r)
    note c = log_ok_check [OF Cons.prems(1) step(1) Cons.prems(3) small, folded step(2)]
    obtain A' where "log_ok key (snd (checkSlidingWindow s key now (elapse d w))) A'" using c(1) by blast
    from Cons.IH [OF this] show ?case
      using c(2) step Cons.prems(3,4) by (simp add: r check_run_Cons add.assoc)
  qed auto
  then show "\<exists>A'. log_ok key (snd (check_run (checkSlidingWindow s key) elapse rs w)) A'"
    and "rv_clock (view (snd (check_run (checkSlidingWindow s key) elapse rs w))) =
      rv_clock (view w) + run_span rs" by auto
qed

text \<open>The oldest entry leaves the window at the reset time, and none does before.\<close>

lemma live_until:
  assumes "finite A" and "live now A \<noteq> {}" and "now \<le> later"
  defines "reset \<equiv> of_unix_milli (Min (unix_milli ` live now A)) + rl_window s"
  shows "now < reset" and "later < reset \<Longrightarrow> live later A = live now A"
    and "reset \<le> later \<Longrightarrow> live later A \<subset> live now A"
proof -
  let ?M = "Min (unix_milli ` live now A)"
  have fin: "finite (live now A)" using assms(1) by simp
  have "?M \<in> unix_milli ` live now A" using fin assms(2) by (intro Min_in) simp_all
  then obtain t where t: "t \<in> live now A" "unix_milli t = ?M" by (metis imageE)
  have le: "?M \<le> unix_milli u" if "u \<in> live now A" for u using fin that by simp
  have iff: "unix_milli (x - rl_window s) < ?M \<longleftrightarrow> x < reset" for x
    by (simp add: unix_milli_less reset_def diff_less_eq)
  show "now < reset" using t iff [of now] by (auto simp: in_window_def)
  have sub: "live later A \<subseteq> live now A" by (rule live_mono [OF assms(3)])
  show "live later A = live now A" if "later < reset"
  proof
    show "live now A \<subseteq> live later A"
    proof
      fix u assume "u \<in> live now A"
      then show "u \<in> live later A" using le [of u] iff [of later] that by (auto simp: in_window_def)
    qed
  qed (rule sub)
  show "live later A \<subset> live now A" if "reset \<le> later"
  proof -
    have "t \<notin> live later A" using t iff [of later] that unfolding in_window_def by simp
    then show ?thesis using sub t(1) by blast
  qed
qed

lemma back_after:
  assumes "log_ok key w A" and "0 \<le> rv_clock (view w)" and "0 < rl_rate s"
    and "checkSlidingWindow s key (rv_clock (view w)) w = ((False, m, reset), w')"
    and "0 < e" and "rv_clock (view w) + e < 2 ^ 63"
  shows "rv_clock (view w) < reset"
    and "fst (fst (checkSlidingWindow s key (rv_clock (view w) + e) (elapse e w'))) \<longleftrightarrow>
      reset \<le> rv_clock (view w) + e"
proof -
  let ?now = "rv_clock (view w)"
  let ?later = "?now + e"
  have log: "keeps_log key w A" and fin: "finite A" and lim: "int (card (live ?now A)) \<le> rl_rate s"
    and A: "\<forall>t \<in> A. t \<le> ?now"
    using assms(1) by (simp_all add: log_ok_def keeps_log_def)
  have ran: "?now \<in> clock_range" "?later \<in> clock_range" using assms(2,5,6) by (simp_all add: clock_range_def)
  have "\<not> int (card (live ?now A)) < rl_rate s"
    using check_admit(1) [OF log refl ran(1) A] assms(4) by auto
  then have full: "rl_rate s \<le> int (card (live ?now A))" by simp
  have ne: "live ?now A \<noteq> {}" using full assms(3) by (intro notI) simp
  note c = check_refuse [OF log refl ran(1) full]
  have reset: "reset = of_unix_milli (Min (unix_milli ` live ?now A)) + rl_window s"
    using c(1) [OF ne] assms(4) by simp
  have "?now \<le> ?later" using assms(5) by simp
  note until = live_until [OF fin ne this, folded reset]
  show "?now < reset" by (rule until(1))
  have log': "keeps_log key (elapse e w') A" using keeps_log_elapse c(4) assms(4,5) by simp
  have clk: "rv_clock (view (elapse e w')) = ?later" using c(5) assms(4,5) by simp
  have later: "\<forall>t \<in> A. t \<le> ?later" using A assms(5) by fastforce
  show "fst (fst (checkSlidingWindow s key ?later (elapse e w'))) \<longleftrightarrow> reset \<le> ?later"
  proof (cases "reset \<le> ?later")
    case True
    have "card (live ?later A) < card (live ?now A)"
      using fin until(3) [OF True] by (intro psubset_card_mono) simp_all
    then show ?thesis using check_admit(1) [OF log' clk ran(2) later] True lim by simp
  next
    case False
    then have "rl_rate s \<le> int (card (live ?later A))" using until(2) full by simp
    then show ?thesis using check_refuse(2) [OF log' clk ran(2)] False by simp
  qed
qed

lemma run_back:
  assumes "rv_up (view w)" and "rv_keys (view w) (sw_key s key) = None"
    and "0 \<le> rv_clock (view w)" and "0 < rl_rate s"
    and "in_step (rv_clock (view w)) (rs @ [(d, now), (e, later)])"
    and "rv_clock (view w) + run_span (rs @ [(d, now), (e, later)]) < 2 ^ 63"
    and "checkSlidingWindow s key now (elapse d (snd (check_run (checkSlidingWindow s key) elapse rs w))) =
      ((False, m, reset), w')"
  shows "now < reset \<and> (fst (fst (checkSlidingWindow s key later (elapse e w'))) \<longleftrightarrow> reset \<le> later)"
proof -
  let ?w = "snd (check_run (checkSlidingWindow s key) elapse rs w)"
  let ?c = "rv_clock (view w) + run_span rs"
  have step: "in_step (rv_clock (view w)) rs" "0 < d" "now = ?c + d" "0 < e" "later = now + e"
    using assms(5) by (simp_all add: in_step_append)
  have small: "?c + d + e < 2 ^ 63" using assms(6) by (simp add: run_span_def add.assoc)
  have c: "0 \<le> ?c" "?c < 2 ^ 63" using in_step_span [OF step(1)] assms(3) step(2,4) small by simp_all
  have "log_ok key w {}" using fresh_log assms(1,2,4) by (simp add: log_ok_def in_window_def)
  note run = run_log_ok [OF this step(1) assms(3) c(2)]
  obtain A where A: "log_ok key ?w A" using run(1) by blast
  have clk: "rv_clock (view (elapse d ?w)) = now" using run(2) step(2,3) by simp
  show ?thesis
    using back_after [OF log_ok_elapse [OF A], of d m reset w' e] clk step c(1) small assms(4,7) by simp
qed

end

section \<open>The token bucket\<close>

context token_bucket
begin

lemma refill_ge:
  assumes "0 \<le> g"
  shows "refill_rate s / 1000 * (1 - 1 / 2 ^ 53) ^ 3 * g \<le> fl64 (fl64 (fl64 g / 1000) * refill_rate s)"
proof -
  let ?k = "1 - 1 / 2 ^ 53 :: rat"
  have 1: "g * ?k \<le> fl64 g" "0 \<le> fl64 g" using fl64_ge [OF assms] fl64_nonneg [OF assms] by simp_all
  have "g * ?k / 1000 * ?k \<le> fl64 g / 1000 * ?k" using 1(1) by (intro mult_right_mono divide_right_mono) simp_all
  also have "\<dots> \<le> fl64 (fl64 g / 1000)" using 1(2) by (intro fl64_ge) simp
  finally have "g * ?k / 1000 * ?k * refill_rate s * ?k \<le> fl64 (fl64 g / 1000) * refill_rate s * ?k"
    using refill_rate_pos by (intro mult_right_mono) simp_all
  also have "\<dots> \<le> fl64 (fl64 (fl64 g / 1000) * refill_rate s)"
    using 1(2) refill_rate_pos by (intro fl64_ge mult_nonneg_nonneg fl64_nonneg) simp_all
  finally show ?thesis by (simp add: power3_eq_cube algebra_simps)
qed

text \<open>The milliseconds that the script says a client with \<open>t\<close> tokens has to wait.\<close>

lemma wait_bound:
  assumes "0 \<le> t" and "t < 1"
  defines "wait \<equiv> \<lceil>fl64 (fl64 (fl64 (1 - t) / refill_rate s) * 1000)\<rceil>"
  shows "0 \<le> wait" and "of_int wait \<le> (1 - t) / refill_rate s * 1000 * (1 + 1 / 2 ^ 53) ^ 3 + 1"
proof -
  let ?k = "1 + 1 / 2 ^ 53 :: rat" and ?r = "refill_rate s"
  let ?x = "fl64 (fl64 (fl64 (1 - t) / ?r) * 1000)"
  have 1: "0 \<le> fl64 (1 - t)" "fl64 (1 - t) \<le> (1 - t) * ?k"
    using fl64_le [of "1 - t"] fl64_nonneg [of "1 - t"] assms(2) by simp_all
  have 2: "0 \<le> fl64 (fl64 (1 - t) / ?r)" using 1(1) refill_rate_pos by (intro fl64_nonneg) simp
  then have "0 \<le> ?x" by (intro fl64_nonneg) simp
  then show "0 \<le> wait" by (simp add: wait_def)
  have "fl64 (fl64 (1 - t) / ?r) \<le> fl64 (1 - t) / ?r * ?k"
    using 1(1) refill_rate_pos by (intro fl64_le) simp
  also have "\<dots> \<le> (1 - t) * ?k / ?r * ?k"
    using 1(2) refill_rate_pos by (intro mult_right_mono divide_right_mono) simp_all
  finally have 3: "fl64 (fl64 (1 - t) / ?r) * 1000 * ?k \<le> (1 - t) * ?k / ?r * ?k * 1000 * ?k"
    by (intro mult_right_mono) simp_all
  have eq: "(1 - t) * k / ?r * k * 1000 * k = (1 - t) / ?r * 1000 * k ^ 3" for k
    by (simp add: power3_eq_cube)
  have "?x \<le> fl64 (fl64 (1 - t) / ?r) * 1000 * ?k" using 2 by (intro fl64_le) simp
  also note 3
  also note eq
  finally have "?x \<le> (1 - t) / ?r * 1000 * ?k ^ 3" .
  moreover have "of_int wait \<le> ?x + 1" unfolding wait_def by linarith
  ultimately show "of_int wait \<le> (1 - t) / ?r * 1000 * ?k ^ 3 + 1" by linarith
qed

lemma refused_less:
  assumes "\<not> 1 \<le> refilled s t l n"
  shows "refilled s t l n = fl64 (t + fl64 (fl64 (fl64 (n - l) / 1000) * refill_rate s))"
    and "t + fl64 (fl64 (fl64 (n - l) / 1000) * refill_rate s) < 1"
proof -
  let ?y = "t + fl64 (fl64 (fl64 (n - l) / 1000) * refill_rate s)"
  have "(1 :: rat) \<le> of_int (rl_rate s)" using rate_pos by simp
  then show r: "refilled s t l n = fl64 ?y" using assms by (auto simp: refilled_def min_def)
  show "?y < 1" using assms r fl64.fl_ge_int [of 1 ?y] by force
qed

text \<open>
  The tokens that came back between \<open>l\<close> and \<open>n\<close> count for the announced time, but are not stored.
\<close>

lemma refused_again:
  assumes "0 \<le> t" and "l + 2 \<le> n" and "\<not> 1 \<le> refilled s t l n" and "1 / 2 ^ 30 \<le> refill_rate s"
    and "n \<le> n'" and "n' - n \<le> of_int \<lceil>fl64 (fl64 (fl64 (1 - refilled s t l n) / refill_rate s) * 1000)\<rceil>"
  shows "\<not> 1 \<le> refilled s t n n'"
proof -
  let ?k = "1 + 1 / 2 ^ 53 :: rat" and ?r = "refill_rate s" and ?tok = "refilled s t l n"
  let ?e = "fl64 (fl64 (fl64 (n - l) / 1000) * ?r)" and ?e' = "fl64 (fl64 (fl64 (n' - n) / 1000) * ?r)"
  note less = refused_less [OF assms(3)]
  have e: "0 \<le> ?e" using refill_le(1) assms(2) by simp
  have tok: "t + ?e - 1 / 2 ^ 53 \<le> ?tok" "0 \<le> ?tok" "?tok < 1"
    using fl64_ge [of "t + ?e"] fl64_nonneg [of "t + ?e"] less assms(1,3) e by (simp_all add: algebra_simps)
  have "?e' \<le> refill_bound * (n' - n)" by (rule refill_le(2) [OF assms(5)])
  also have "\<dots> \<le> refill_bound * ((1 - ?tok) / ?r * 1000 * ?k ^ 3 + 1)"
    using assms(6) wait_bound(2) [OF tok(2,3)] refill_bound_nonneg by (intro mult_left_mono) linarith+
  also have "\<dots> = (1 - ?tok) * ?k ^ 6 + ?r / 1000 * ?k ^ 3"
    using refill_rate_pos by (simp add: refill_bound_def field_simps)
  finally have e': "?e' \<le> (1 - ?tok) * ?k ^ 6 + ?r / 1000 * ?k ^ 3" .
  have "(1 - ?tok) * ?k ^ 6 \<le> (1 - ?tok) * (1 + 7 / 2 ^ 53)"
    using tok(3) by (intro mult_left_mono) (simp_all add: power_divide)
  also have "\<dots> = (1 - ?tok) + (1 - ?tok) * (7 / 2 ^ 53)" by (simp only: distrib_left mult_1_right)
  also have "\<dots> \<le> (1 - ?tok) + 7 / 2 ^ 53" using tok(2) by simp
  finally have 1: "(1 - ?tok) * ?k ^ 6 \<le> (1 - ?tok) + 7 / 2 ^ 53" .
  have 2: "?r / 1000 * ?k ^ 3 \<le> ?r / 1000 * (5 / 4)"
    using refill_rate_pos by (intro mult_left_mono) (simp_all add: power_divide)
  have "?r / 1000 * (3 / 4) * 2 \<le> ?r / 1000 * (1 - 1 / 2 ^ 53) ^ 3 * (n - l)"
    using refill_rate_pos assms(2) by (intro mult_mono mult_left_mono) (simp_all add: power_divide)
  also have "\<dots> \<le> ?e" using assms(2) by (intro refill_ge) simp
  finally have 3: "?r / 1000 * (3 / 2) \<le> ?e" by simp
  have "t + ?e' \<le> 1 + 8 / 2 ^ 53 - ?r / 4000" using e' 1 2 3 tok(1) by simp
  then have y: "t + ?e' \<le> 1 - 1 / 2 ^ 43" using assms(4) by simp
  have "0 \<le> t + ?e'" using assms(1,5) refill_le(1) [of n n'] by simp
  from fl64_le [OF this] have "fl64 (t + ?e') \<le> (t + ?e') * ?k" .
  also have "\<dots> \<le> (1 - 1 / 2 ^ 43) * ?k" using y by (intro mult_right_mono) simp_all
  also have "\<dots> < 1" by simp
  finally show ?thesis by (simp add: refilled_def min_def)
qed

lemma reset_wait:
  assumes "0 \<le> t" and "t < 1" and "1 / 2 ^ 30 \<le> refill_rate s" and "\<bar>N\<bar> \<le> 2 ^ 52"
  defines "wait \<equiv> \<lceil>fl64 (fl64 (fl64 (1 - t) / refill_rate s) * 1000)\<rceil>"
  shows "trunc (reset_at s t (of_int N)) = N + wait" and "0 \<le> wait" and "\<bar>N + wait\<bar> \<le> 2 ^ 53"
proof -
  note w = wait_bound [OF assms(1,2), folded wait_def]
  have "(1 - t) / refill_rate s \<le> 1 / (1 / 2 ^ 30)"
    using assms(1-3) refill_rate_pos by (intro frac_le) simp_all
  then have "(1 - t) / refill_rate s * 1000 * (1 + 1 / 2 ^ 53) ^ 3 \<le> 2 ^ 30 * 1000 * 2"
    using assms(2) refill_rate_pos by (intro mult_mono) (simp_all add: power_divide)
  then have "of_int wait \<le> (of_int (2 ^ 52) :: rat)" using w(2) by simp
  then have "wait \<le> 2 ^ 52" by (simp only: of_int_le_iff)
  then show "\<bar>N + wait\<bar> \<le> 2 ^ 53" using assms(4) w(1) by simp
  from fl64.fl_int [OF this] show "trunc (reset_at s t (of_int N)) = N + wait"
    by (simp add: reset_at_def flip: wait_def of_int_add)
  show "0 \<le> wait" by (rule w(1))
qed

lemma back_by:
  assumes "bucket key w t l (Some u)" and "0 \<le> t" and "l + 2 \<le> of_int (unix_milli now)"
    and "\<bar>unix_milli now\<bar> \<le> 2 ^ 52" and "1 / 2 ^ 30 \<le> refill_rate s"
    and "checkTokenBucket s key now w = (Inr (False, m, reset), w')"
    and "now \<le> later" and "later \<le> reset" and "0 \<le> d" and "rv_clock (view w) + d < u"
  shows "\<exists>reset'. fst (checkTokenBucket s key later (elapse d w')) = Inr (False, 0, reset')"
proof -
  let ?N = "unix_milli now"
  have n: "millis now = of_int ?N" using assms(4) by (intro millis_exact) simp
  have no: "\<not> 1 \<le> refilled s t l (of_int ?N)"
    using check_bucket(1) [OF assms(1), of now] assms(6) n by fastforce
  note c = check_bucket(2) [OF assms(1), of now, unfolded n, OF no]
  let ?tok = "refilled s t l (of_int ?N)"
  let ?wait = "\<lceil>fl64 (fl64 (fl64 (1 - ?tok) / refill_rate s) * 1000)\<rceil>"
  have tok: "0 \<le> ?tok" "?tok < 1"
    using refused_less(1) [OF no] refill_le(1) [of l "of_int ?N"] assms(2,3) no
    by (auto intro!: fl64_nonneg)
  note wait = reset_wait [OF tok assms(5,4)]
  have "reset = of_unix_milli (?N + ?wait)" using c assms(6) wait(1) by simp
  then have "unix_milli later \<le> ?N + ?wait" using unix_milli_mono [OF assms(8)] by simp
  moreover have "?N \<le> unix_milli later" by (rule unix_milli_mono [OF assms(7)])
  moreover from calculation have "millis later = of_int (unix_milli later)"
    using assms(4) wait(3) by (intro millis_exact) (simp add: abs_le_iff)
  ultimately have "\<not> 1 \<le> refilled s t (of_int ?N) (millis later)"
    by (intro refused_again [OF assms(2,3) no assms(5)]) (simp_all flip: of_int_diff)
  moreover have "bucket key (elapse d w') t (of_int ?N) (Some u)"
    using bucket_elapse(1) [where w = w' and t = t and l = "of_int ?N" and dl = "Some u" and d = d and key = key] c assms(6,9,10)
      check_bucket(3) [OF assms(1), of now] by simp
  ultimately show ?thesis using check_bucket(2) by blast
qed

end

section \<open>Properties\<close>

text \<open>
  C9: the reset time of a refusal by the sliding window is exact. Under the conditions of
  \<open>sliding_window_exact\<close> and for a positive rate: if a request is refused, its reset time lies ahead,
  and the next request of the key is allowed if it comes at that time or later and refused if it comes
  before.
\<close>

theorem sliding_window_reset:
  assumes "sliding_window view late elapse s ex"
    and "rv_up (view w)" and "rv_keys (view w) (sw_key s key) = None"
    and "0 \<le> rv_clock (view w)" and "0 < rl_rate s"
    and "in_step (rv_clock (view w)) (rs @ [(d, now), (e, later)])"
    and "rv_clock (view w) + run_span (rs @ [(d, now), (e, later)]) < 2 ^ 63"
    and "checkSlidingWindow s key now (elapse d (snd (check_run (checkSlidingWindow s key) elapse rs w))) =
      ((False, remaining, reset), w')"
  shows "now < reset \<and> (fst (fst (checkSlidingWindow s key later (elapse e w'))) \<longleftrightarrow> reset \<le> later)"
  by (rule sliding_window.run_back [OF assms])

theorem sliding_window_reset_witness:
  "\<exists>remaining reset w'. checkSlidingWindow demo_sliding ''ip'' (3 * second) (age late_at second
      (snd (check_run (checkSlidingWindow demo_sliding ''ip'') (age late_at)
        [(second, second), (second, 2 * second)] (empty_server 0)))) = ((False, remaining, reset), w') \<and>
    3 * second < reset \<and>
    (fst (fst (checkSlidingWindow demo_sliding ''ip'' (11 * second) (age late_at (8 * second) w'))) \<longleftrightarrow>
      reset \<le> 11 * second)"
proof -
  let ?rs = "[(second, second), (second, 2 * second)]"
  let ?x = "checkSlidingWindow demo_sliding ''ip'' (3 * second) (age late_at second
      (snd (check_run (checkSlidingWindow demo_sliding ''ip'') (age late_at) ?rs (empty_server 0))))"
  have "fst (fst ?x) = False"
    using demo_sliding.run_spec [OF demo_sliding.fresh_log, of "empty_server 0" "''ip''" three_requests]
      three_ok three_spec by (simp add: three_requests_def check_run_Cons case_prod_unfold)
  then obtain m reset w' where x: "?x = ((False, m, reset), w')" by (metis prod.collapse)
  have "3 * second < reset \<and>
    (fst (fst (checkSlidingWindow demo_sliding ''ip'' (11 * second) (age late_at (8 * second) w'))) \<longleftrightarrow>
      reset \<le> 11 * second)"
    by (rule sliding_window_reset [OF demo_sliding.sliding_window_axioms _ _ _ _ _ _ x])
      (simp_all add: run_span_def second_def)
  with x show ?thesis by blast
qed

text \<open>
  C35: the reset time of a refusal by the token bucket is not kept. Take clocks within 2^52 ms, and a
  bucket whose last request is two milliseconds old or more and which refills at one token in 34 years or faster: if a request is
  refused, then the next request of the key, should it come no later than the reset time announced and
  while the key is alive, is refused as well. (The tokens that came back before the refusal are
  counted for the announcement and then dropped.)
\<close>

theorem token_bucket_reset_unkept:
  assumes "token_bucket view late elapse s rc"
    and "rv_up (view w)" and "rv_keys (view w) (tb_key s key) = Some (RHash h, Some u)"
    and "h ''tokens'' = Some t" and "0 \<le> t"
    and "h ''last_refill'' = Some l" and "l + 2 \<le> of_int (unix_milli now)"
    and "\<bar>unix_milli now\<bar> \<le> 2 ^ 52" and "1 / 2 ^ 30 \<le> refill_rate s"
    and "checkTokenBucket s key now w = (Inr (False, remaining, reset), w')"
    and "now \<le> later" and "later \<le> reset" and "0 \<le> d" and "rv_clock (view w) + d < u"
  shows "\<exists>reset'. fst (checkTokenBucket s key later (elapse d w')) = Inr (False, 0, reset')"
  using token_bucket.back_by [OF assms(1) _ assms(5,7-14)] assms(2-4,6) by blast

text \<open>At one token a second: refused half a second after the last one, and told to come back at 1 s.\<close>

lemma half_second_refusal:
  "fst (checkTokenBucket demo_bucket ''ip'' (500 * millisecond) drained) = Inr (False, 0, second)"
proof -
  have b: "rv_up drained \<and> (\<exists>h. rv_keys drained (tb_key demo_bucket ''ip'') = Some (RHash h, Some (10 * second)) \<and>
      h ''tokens'' = Some 0 \<and> h ''last_refill'' = Some 0)"
    by (simp add: drained_def tb_key_def)
  have n: "millis (500 * millisecond) = 500" using half_second [of 1] by simp
  have fl: "fl64 500 = 500" "fl64 1000 = 1000" using fl64.fl_int [of 500] fl64.fl_int [of 1000] by simp_all
  have ref: "refilled demo_bucket 0 0 500 = 1 / 2" by (simp add: refilled_def fl fl64_half)
  have "reset_at demo_bucket (1 / 2) 500 = of_int 1000" by (simp add: reset_at_def fl fl64_half)
  then have "trunc (reset_at demo_bucket (1 / 2) 500) = 1000" by (simp only: trunc_of_int)
  then show ?thesis
    using demo_bucket.check_bucket(2) [OF b, of "500 * millisecond"]
    by (simp add: n ref of_unix_milli_def second_def)
qed

theorem token_bucket_reset_unkept_witness:
  "\<exists>reset'. fst (checkTokenBucket demo_bucket ''ip'' second (age late_at (500 * millisecond)
      (snd (checkTokenBucket demo_bucket ''ip'' (500 * millisecond) drained)))) = Inr (False, 0, reset')"
proof (rule token_bucket_reset_unkept [OF demo_bucket.token_bucket_axioms,
      where h = "[''tokens'' \<mapsto> 0, ''last_refill'' \<mapsto> 0]" and u = "10 * second" and t = 0 and l = 0])
  show "checkTokenBucket demo_bucket ''ip'' (500 * millisecond) drained =
      (Inr (False, 0, second), snd (checkTokenBucket demo_bucket ''ip'' (500 * millisecond) drained))"
    using half_second_refusal by (metis prod.collapse)
qed (simp_all add: drained_def tb_key_def unix_milli_def millisecond_def second_def)

end
