(* ===== verification/Record_Store.thy ===== *)
theory Record_Store
  imports Storage_Interface
begin

text \<open>
  A store of records over a storage of strings, as the cache and the idempotency store both are:
  a record is encoded and then written, a text is read and then decoded; a failure of either is an
  error. The locale \<open>record_store\<close> has the contract of the backend and the round-trip law of the
  encoding; what a reader sees after a write and any further operations is proved from these.
\<close>

section \<open>Reading and writing\<close>

definition rec_get :: "'w storage_ops \<Rightarrow> (string \<Rightarrow> 'r res) \<Rightarrow> string \<Rightarrow> ('w, 'r option) act" where
  "rec_get ops decode k w =
     (let (r, w') = so_get ops k w
      in (case r of
            Inl err \<Rightarrow> Inl err
          | Inr None \<Rightarrow> Inr None
          | Inr (Some data) \<Rightarrow> (case decode data of Inl err \<Rightarrow> Inl err | Inr x \<Rightarrow> Inr (Some x)), w'))"

definition rec_set ::
  "'w storage_ops \<Rightarrow> ('r \<Rightarrow> string res) \<Rightarrow> string \<Rightarrow> 'r \<Rightarrow> duration \<Rightarrow> ('w, unit) act" where
  "rec_set ops encode k x ttl w =
     (case encode x of Inl err \<Rightarrow> (Inl err, w) | Inr data \<Rightarrow> so_set ops k data ttl w)"

text \<open>Sequences of operations on records.\<close>

datatype 'r record_op =
    RecGet string
  | RecSet string 'r duration
  | RecDelete string
  | RecWait duration

fun rec_step ::
  "'w storage_ops \<Rightarrow> ('r \<Rightarrow> string res) \<Rightarrow> (string \<Rightarrow> 'r res) \<Rightarrow> (duration \<Rightarrow> 'w \<Rightarrow> 'w) \<Rightarrow>
     'r record_op \<Rightarrow> 'w \<Rightarrow> 'w" where
  "rec_step ops encode decode elapse (RecGet k) w = snd (rec_get ops decode k w)"
| "rec_step ops encode decode elapse (RecSet k x ttl) w = snd (rec_set ops encode k x ttl w)"
| "rec_step ops encode decode elapse (RecDelete k) w = snd (so_delete ops k w)"
| "rec_step ops encode decode elapse (RecWait d) w = elapse d w"

definition rec_run ::
  "'w storage_ops \<Rightarrow> ('r \<Rightarrow> string res) \<Rightarrow> (string \<Rightarrow> 'r res) \<Rightarrow> (duration \<Rightarrow> 'w \<Rightarrow> 'w) \<Rightarrow>
     'r record_op list \<Rightarrow> 'w \<Rightarrow> 'w" where
  "rec_run ops encode decode elapse os w = fold (rec_step ops encode decode elapse) os w"

fun rec_waits :: "'r record_op \<Rightarrow> duration" where
  "rec_waits (RecWait d) = d"
| "rec_waits _ = 0"

fun rec_spares :: "string \<Rightarrow> 'r record_op \<Rightarrow> bool" where
  "rec_spares k (RecGet j) = True"
| "rec_spares k (RecSet j x ttl) = (j \<noteq> k \<and> 0 \<le> ttl)"
| "rec_spares k (RecDelete j) = (j \<noteq> k)"
| "rec_spares k (RecWait d) = (0 \<le> d)"

definition rec_waited :: "'r record_op list \<Rightarrow> duration" where
  "rec_waited os = sum_list (map rec_waits os)"

lemma rec_waited_simps [simp]:
  "rec_waited [] = 0"
  "rec_waited (x # os) = rec_waits x + rec_waited os"
  by (simp_all add: rec_waited_def)

section \<open>The contract\<close>

text \<open>
  \<open>stored x y\<close>: the record \<open>x\<close> has a text, and reading that text gives \<open>y\<close>.
\<close>

definition stored :: "('r \<Rightarrow> string res) \<Rightarrow> (string \<Rightarrow> 'r res) \<Rightarrow> 'r \<Rightarrow> 'r \<Rightarrow> bool" where
  "stored encode decode x y \<longleftrightarrow> (\<exists>data. encode x = Inr data \<and> decode data = Inr y)"

locale record_store = kv_storage sview late elapse ops px
  for sview :: "'w \<Rightarrow> storage_view" and late elapse and ops :: "'w storage_ops" and px +
  fixes encode :: "'r \<Rightarrow> string res" and decode :: "string \<Rightarrow> 'r res"
    and ok :: "'r \<Rightarrow> bool" and norm :: "'r \<Rightarrow> 'r"
  assumes stored_norm: "ok x \<Longrightarrow> stored encode decode x (norm x)"
begin

lemma rec_get_reply:
  assumes "sv_ok (sview w)"
  shows "fst (rec_get ops decode k w) =
    (case sv_entries (sview w) k of
       None \<Rightarrow> Inr None
     | Some (data, dl) \<Rightarrow> (case decode data of Inl err \<Rightarrow> Inl err | Inr x \<Rightarrow> Inr (Some x)))"
  using get_reply [OF assms, of k] by (simp add: rec_get_def Let_def case_prod_unfold split: option.split)

lemma rec_get_sview: "sv_ok (sview w) \<Longrightarrow> sview (snd (rec_get ops decode k w)) = sview w"
  by (simp add: rec_get_def Let_def case_prod_unfold get_sview)

lemma rec_set_ok:
  assumes "sv_ok (sview w)" and "ok x" and "0 \<le> ttl"
  shows "fst (rec_set ops encode k x ttl w) = Inr ()"
  using stored_norm [OF assms(2)] set_reply [OF assms(1,3)] by (auto simp: stored_def rec_set_def)

lemma set_quiet_rec_get:
  assumes "sv_ok (sview w)" and "ok x" and "0 \<le> ttl"
    and "quiet sview elapse k t (snd (rec_set ops encode k x ttl w)) w'"
  shows "ttl = 0 \<or> t < px ttl \<Longrightarrow> fst (rec_get ops decode k w') = Inr (Some (norm x))"
    and "0 < ttl \<Longrightarrow> px ttl < t \<Longrightarrow> fst (rec_get ops decode k w') = Inr None"
proof -
  obtain data where data: "encode x = Inr data" "decode data = Inr (norm x)"
    using stored_norm [OF assms(2)] by (auto simp: stored_def)
  then have "quiet sview elapse k t (snd (so_set ops k data ttl w)) w'"
    using assms(4) by (simp add: rec_set_def)
  note get = set_quiet_get [OF assms(1,3) this]
  show "fst (rec_get ops decode k w') = Inr (Some (norm x))" if "ttl = 0 \<or> t < px ttl"
    using get(1) [OF that] data(2) by (simp add: rec_get_def Let_def case_prod_unfold)
  show "fst (rec_get ops decode k w') = Inr None" if "0 < ttl" and "px ttl < t"
    using get(2) [OF that] by (simp add: rec_get_def Let_def case_prod_unfold)
qed

lemma quiet_rec_get: "sv_ok (sview w) \<Longrightarrow> quiet sview elapse k 0 w (snd (rec_get ops decode j w))"
  by (rule quiet_step [OF quiet_start]) (simp_all add: rec_get_sview)

lemma quiet_rec_set:
  "sv_ok (sview w) \<Longrightarrow> 0 \<le> ttl \<Longrightarrow> j \<noteq> k \<Longrightarrow> quiet sview elapse k 0 w (snd (rec_set ops encode j x ttl w))"
  by (auto simp: rec_set_def quiet_start intro: quiet_set split: sum.split)

lemmas quiet_recs = quiet_rec_get quiet_rec_set quiet_delete quiet_elapse

lemma quiet_rec_run:
  assumes "list_all (rec_spares k) os" and "sv_ok (sview w)"
  shows "quiet sview elapse k (rec_waited os) w (rec_run ops encode decode elapse os w)"
  unfolding rec_waited_def rec_run_def
proof (rule quiet_fold [OF _ assms])
  show "quiet sview elapse k (rec_waits x) w (rec_step ops encode decode elapse x w)"
    if "rec_spares k x" and "sv_ok (sview w)" for x w
    using that by (cases x) (auto intro: quiet_recs)
qed

lemma rec_set_sv_ok:
  "sv_ok (sview w) \<Longrightarrow> 0 \<le> ttl \<Longrightarrow> sv_ok (sview (snd (rec_set ops encode k x ttl w)))"
  by (simp add: rec_set_def set_sview split: sum.split)

lemma set_run_get:
  assumes "sv_ok (sview w)" and "ok x" and "0 \<le> ttl" and "list_all (rec_spares k) os"
  shows "ttl = 0 \<or> rec_waited os < px ttl \<Longrightarrow>
      fst (rec_get ops decode k (rec_run ops encode decode elapse os
        (snd (rec_set ops encode k x ttl w)))) = Inr (Some (norm x))"
    and "0 < ttl \<Longrightarrow> px ttl < rec_waited os \<Longrightarrow>
      fst (rec_get ops decode k (rec_run ops encode decode elapse os
        (snd (rec_set ops encode k x ttl w)))) = Inr None"
  by (rule set_quiet_rec_get [OF assms(1-3) quiet_rec_run [OF assms(4) rec_set_sv_ok [OF assms(1,3)]]];
      assumption)+

lemma refused_set: "encode x = Inl err \<Longrightarrow> rec_set ops encode k x ttl w = (Inl err, w)"
  by (simp add: rec_set_def)

end

end
