(* ===== verification/Json.thy ===== *)
theory Json
  imports Utf8
begin

text \<open>
  The part of \<open>encoding/json\<close> that the stores use: a JSON value, its compact text as \<open>Marshal\<close>
  writes it (with the HTML-safe escapes), and the text that \<open>Unmarshal\<close> reads, white space
  and all escapes included. A number keeps its literal, because Go converts it only when it knows the
  type of its destination. Strings are made valid UTF-8 on the way out and on the way in.
\<close>

section \<open>Strings\<close>

abbreviation quote :: char where "quote \<equiv> CHR 0x22"
abbreviation backslash :: char where "backslash \<equiv> CHR 0x5C"

definition hex :: "nat \<Rightarrow> char" where
  "hex n = (if n < 10 then char_of (48 + n) else char_of (87 + n))"

definition unhex :: "char \<Rightarrow> nat option" where
  "unhex c =
     (if 48 \<le> code c \<and> code c \<le> 57 then Some (code c - 48)
      else if 97 \<le> code c \<and> code c \<le> 102 then Some (code c - 87)
      else if 65 \<le> code c \<and> code c \<le> 70 then Some (code c - 55)
      else None)"

definition escape_u :: "nat \<Rightarrow> string" where
  "escape_u n = [backslash, CHR ''u'', hex (n div 4096 mod 16), hex (n div 256 mod 16),
     hex (n div 16 mod 16), hex (n mod 16)]"

definition escape_char :: "char \<Rightarrow> string" where
  "escape_char c =
     (if c = quote \<or> c = backslash then [backslash, c]
      else if code c = 8 then [backslash, CHR ''b'']
      else if code c = 12 then [backslash, CHR ''f'']
      else if code c = 10 then [backslash, CHR ''n'']
      else if code c = 13 then [backslash, CHR ''r'']
      else if code c = 9 then [backslash, CHR ''t'']
      else if code c < 32 \<or> c = CHR ''<'' \<or> c = CHR ''>'' \<or> c = CHR ''&'' then escape_u (code c)
      else [c])"

text \<open>The line separators U+2028 and U+2029 are escaped too.\<close>

fun escape :: "string \<Rightarrow> string" where
  "escape [] = []"
| "escape (c # cs) =
     (case cs of
        d # e # r \<Rightarrow>
          if c = CHR 0xE2 \<and> d = CHR 0x80 \<and> e = CHR 0xA8 then escape_u 0x2028 @ escape r
          else if c = CHR 0xE2 \<and> d = CHR 0x80 \<and> e = CHR 0xA9 then escape_u 0x2029 @ escape r
          else escape_char c @ escape cs
      | _ \<Rightarrow> escape_char c @ escape cs)"

definition print_string :: "string \<Rightarrow> string" where
  "print_string s = quote # escape (to_valid s) @ [quote]"

text \<open>Four hexadecimal digits, and the rune of an escape, which may be a surrogate pair.\<close>

definition read_hex4 :: "string \<Rightarrow> (nat \<times> string) option" where
  "read_hex4 s = (case s of
     a # b # c # d # r \<Rightarrow>
       (case (unhex a, unhex b, unhex c, unhex d) of
          (Some a, Some b, Some c, Some d) \<Rightarrow> Some (a * 4096 + b * 256 + c * 16 + d, r)
        | _ \<Rightarrow> None)
   | _ \<Rightarrow> None)"

definition encode_rune :: "nat \<Rightarrow> string" where
  "encode_rune n =
     (if n < 0x80 then [char_of n]
      else if n < 0x800 then [char_of (0xC0 + n div 64), char_of (0x80 + n mod 64)]
      else if 0xD800 \<le> n \<and> n < 0xE000 then rune_error
      else if n < 0x10000 then
        [char_of (0xE0 + n div 4096), char_of (0x80 + n div 64 mod 64), char_of (0x80 + n mod 64)]
      else [char_of (0xF0 + n div 262144), char_of (0x80 + n div 4096 mod 64),
            char_of (0x80 + n div 64 mod 64), char_of (0x80 + n mod 64)])"

definition read_rune :: "string \<Rightarrow> (string \<times> string) option" where
  "read_rune s = (case read_hex4 s of
     None \<Rightarrow> None
   | Some (n, r) \<Rightarrow>
       if 0xD800 \<le> n \<and> n < 0xDC00
       then (case r of
               x # y # r1 \<Rightarrow>
                 if x = backslash \<and> y = CHR ''u''
                 then (case read_hex4 r1 of
                         Some (m, r2) \<Rightarrow>
                           if 0xDC00 \<le> m \<and> m < 0xE000
                           then Some (encode_rune (0x10000 + (n - 0xD800) * 0x400 + (m - 0xDC00)), r2)
                           else Some (rune_error, r)
                       | None \<Rightarrow> None)
                 else Some (rune_error, r)
             | _ \<Rightarrow> Some (rune_error, r))
       else Some (encode_rune n, r))"

definition unescape_char :: "char \<Rightarrow> char option" where
  "unescape_char e =
     (if e = quote \<or> e = backslash \<or> e = CHR ''/'' then Some e
      else if e = CHR ''b'' then Some (char_of (8 :: nat))
      else if e = CHR ''f'' then Some (char_of (12 :: nat))
      else if e = CHR ''n'' then Some (char_of (10 :: nat))
      else if e = CHR ''r'' then Some (char_of (13 :: nat))
      else if e = CHR ''t'' then Some (char_of (9 :: nat))
      else None)"

definition prepend :: "string \<Rightarrow> (string \<times> string) option \<Rightarrow> (string \<times> string) option" where
  "prepend x r = map_option (\<lambda>(s, r). (x @ s, r)) r"

lemma read_hex4_shorter: "read_hex4 s = Some (n, r) \<Longrightarrow> length r < length s"
  by (auto simp: read_hex4_def split: list.splits option.splits)

lemma read_rune_shorter: "read_rune s = Some (x, r) \<Longrightarrow> length r < length s"
  by (auto simp: read_rune_def dest!: read_hex4_shorter split: option.splits list.splits if_splits)

text \<open>The rest of a string literal, after its opening quote.\<close>

function parse_string :: "string \<Rightarrow> (string \<times> string) option" where
  "parse_string [] = None"
| "parse_string (c # cs) =
     (if c = quote then Some ([], cs)
      else if c = backslash
      then (case cs of
              [] \<Rightarrow> None
            | e # r \<Rightarrow>
                if e = CHR ''u''
                then (case read_rune r of None \<Rightarrow> None | Some (x, r1) \<Rightarrow> prepend x (parse_string r1))
                else (case unescape_char e of None \<Rightarrow> None | Some x \<Rightarrow> prepend [x] (parse_string r)))
      else if code c < 32 then None
      else prepend [c] (parse_string cs))"
  by pat_completeness auto

termination by (relation "measure length") (auto dest: read_rune_shorter)

declare parse_string.simps(2) [simp del]

lemma unhex_hex [simp]: "n < 16 \<Longrightarrow> unhex (hex n) = Some n"
  by (auto simp: hex_def unhex_def)

lemma unhex_mod: "unhex (hex (n mod 16)) = Some (n mod 16)"
  by simp

lemma read_escape_u:
  assumes "n < 0x10000"
  shows "read_hex4 (hex (n div 4096 mod 16) # hex (n div 256 mod 16) # hex (n div 16 mod 16) # hex (n mod 16) # r) =
    Some (n, r)"
proof -
  have d: "n div 256 = n div 16 div 16" "n div 4096 = n div 16 div 16 div 16"
    by (simp_all flip: div_mult2_eq)
  have "n div 16 div 16 div 16 < 16" using assms by (simp flip: div_mult2_eq)
  then have "n div 4096 mod 16 * 4096 + n div 256 mod 16 * 256 + n div 16 mod 16 * 16 + n mod 16 = n"
    using div_mult_mod_eq [of n 16] div_mult_mod_eq [of "n div 16" 16]
      div_mult_mod_eq [of "n div 16 div 16" 16]
    unfolding d by (simp only: mod_less)
  then show ?thesis by (simp only: read_hex4_def list.case unhex_mod prod.case option.case)
qed

lemma parse_escape_u:
  assumes "n < 0x10000" and "\<not> (0xD800 \<le> n \<and> n < 0xDC00)"
  shows "parse_string (escape_u n @ r) = prepend (encode_rune n) (parse_string r)"
proof -
  have "read_rune (hex (n div 4096 mod 16) # hex (n div 256 mod 16) # hex (n div 16 mod 16) # hex (n mod 16) # r) =
      Some (encode_rune n, r)"
    using assms(2) unfolding read_rune_def read_escape_u [OF assms(1)] by auto
  then show ?thesis by (simp only: escape_u_def parse_string.simps(2) append_Cons append_Nil) simp
qed

lemma parse_escape_named:
  assumes "escape_char c = [backslash, e]" and "e \<noteq> CHR ''u''" and "unescape_char e = Some c"
  shows "parse_string (escape_char c @ r) = prepend [c] (parse_string r)"
  using assms by (simp add: parse_string.simps(2))

lemma parse_escape_hex:
  assumes "escape_char c = escape_u (code c)" and "code c < 128"
  shows "parse_string (escape_char c @ r) = prepend [c] (parse_string r)"
  using assms by (simp add: parse_escape_u encode_rune_def)

lemma parse_escape_char: "parse_string (escape_char c @ r) = prepend [c] (parse_string r)"
proof -
  have eq: "char_of n = c" if "code c = n" for n using that by (metis char_of_char)
  have code: "c \<noteq> quote" "c \<noteq> backslash" if "code c < 32" using that by auto
  consider "c = quote \<or> c = backslash" | "code c = 8" | "code c = 12" | "code c = 10" | "code c = 13" | "code c = 9"
    | "c = CHR ''<'' \<or> c = CHR ''>'' \<or> c = CHR ''&''"
    | "code c < 32" "code c \<notin> {8, 9, 10, 12, 13}"
    | "\<not> code c < 32" "c \<notin> {quote, backslash, CHR ''<'', CHR ''>'', CHR ''&''}"
    by blast
  then show ?thesis
  proof cases
    case 1
    then show ?thesis by (intro parse_escape_named [of c c]) (auto simp: escape_char_def unescape_char_def)
  next
    case 2
    then show ?thesis
      using code eq by (intro parse_escape_named [of c "CHR ''b''"]) (auto simp: escape_char_def unescape_char_def)
  next
    case 3
    then show ?thesis
      using code eq by (intro parse_escape_named [of c "CHR ''f''"]) (auto simp: escape_char_def unescape_char_def)
  next
    case 4
    then show ?thesis
      using code eq by (intro parse_escape_named [of c "CHR ''n''"]) (auto simp: escape_char_def unescape_char_def)
  next
    case 5
    then show ?thesis
      using code eq by (intro parse_escape_named [of c "CHR ''r''"]) (auto simp: escape_char_def unescape_char_def)
  next
    case 6
    then show ?thesis
      using code eq by (intro parse_escape_named [of c "CHR ''t''"]) (auto simp: escape_char_def unescape_char_def)
  next
    case 7
    then show ?thesis by (intro parse_escape_hex) (auto simp: escape_char_def)
  next
    case 8
    then show ?thesis using code by (intro parse_escape_hex) (auto simp: escape_char_def)
  next
    case 9
    then have "escape_char c = [c]" by (auto simp: escape_char_def)
    then show ?thesis using 9 by (simp add: parse_string.simps(2))
  qed
qed

lemma prepend_prepend [simp]: "prepend x (prepend y r) = prepend (x @ y) r"
  by (cases r) (auto simp: prepend_def)

lemma encode_separators:
  "encode_rune 0x2028 = [CHR 0xE2, CHR 0x80, CHR 0xA8]"
  "encode_rune 0x2029 = [CHR 0xE2, CHR 0x80, CHR 0xA9]"
  using char_of_char [of "CHR 0xE2", where 'a = nat] char_of_char [of "CHR 0x80", where 'a = nat]
    char_of_char [of "CHR 0xA8", where 'a = nat] char_of_char [of "CHR 0xA9", where 'a = nat]
  by (simp_all add: encode_rune_def)

declare escape.simps(2) [simp del]

lemma escape_Cons:
  "escape (c # CHR 0x80 # CHR 0xA8 # t) = (if c = CHR 0xE2 then escape_u 0x2028 @ escape t
     else escape_char c @ escape (CHR 0x80 # CHR 0xA8 # t))"
  "escape (c # CHR 0x80 # CHR 0xA9 # t) = (if c = CHR 0xE2 then escape_u 0x2029 @ escape t
     else escape_char c @ escape (CHR 0x80 # CHR 0xA9 # t))"
  by (simp_all add: escape.simps(2) [of c])

lemma escape_cases:
  obtains t where "cs = CHR 0x80 # CHR 0xA8 # t" "c = CHR 0xE2"
  | t where "cs = CHR 0x80 # CHR 0xA9 # t" "c = CHR 0xE2"
  | "escape (c # cs) = escape_char c @ escape cs"
proof (cases cs)
  case Nil
  then show ?thesis using that(3) by (simp add: escape.simps(2) [of c])
next
  case (Cons d u)
  show ?thesis
  proof (cases u)
    case Nil
    then show ?thesis using that(3) \<open>cs = d # u\<close> by (simp add: escape.simps(2) [of c])
  next
    case (Cons e t)
    then have cs: "cs = d # e # t" using \<open>cs = d # u\<close> by simp
    have "escape (c # cs) = escape_char c @ escape cs"
      if "\<not> (c = CHR 0xE2 \<and> d = CHR 0x80 \<and> e = CHR 0xA8)" "\<not> (c = CHR 0xE2 \<and> d = CHR 0x80 \<and> e = CHR 0xA9)"
      using that unfolding cs escape.simps(2) [of c] by auto
    then show ?thesis using that cs by blast
  qed
qed

lemma parse_escape: "parse_string (escape s @ r) = prepend s (parse_string r)"
proof (induction s rule: length_induct)
  case (1 s)
  show ?case
  proof (cases s)
    case Nil
    then show ?thesis by (cases "parse_string r") (simp_all add: prepend_def)
  next
    case (Cons c cs)
    show ?thesis
    proof (cases rule: escape_cases [of cs c])
      case (1 t)
      then have "escape s = escape_u 0x2028 @ escape t" by (simp add: Cons escape_Cons)
      then show ?thesis
        using "1.IH" [rule_format, of t] 1 by (simp add: Cons parse_escape_u encode_separators)
    next
      case (2 t)
      then have "escape s = escape_u 0x2029 @ escape t" by (simp add: Cons escape_Cons)
      then show ?thesis
        using "1.IH" [rule_format, of t] 2 by (simp add: Cons parse_escape_u encode_separators)
    next
      case 3
      have "parse_string (escape cs @ r) = prepend cs (parse_string r)"
        using "1.IH" [rule_format, of cs] by (simp add: Cons)
      then show ?thesis by (simp add: Cons 3 parse_escape_char)
    qed
  qed
qed

lemma parse_print_string:
  "parse_string (escape (to_valid s) @ quote # r) = Some (to_valid s, r)"
  by (simp add: parse_escape prepend_def parse_string.simps(2))

end
