(* ===== verification/Json_Value.thy ===== *)
theory Json_Value
  imports Json
begin

text \<open>
  JSON values: their compact text and the parser, with the round trip. The parser takes fuel,
  twice the length of the text plus one, which \<open>need_bound\<close> shows to be enough for every text that
  the printer writes; each level of nesting and each element uses one unit.
\<close>

datatype json =
    JNull
  | JBool bool
  | JNum string
  | JStr string
  | JArr "json list"
  | JObj "(string \<times> json) list"

section \<open>Printing\<close>

fun print_json :: "json \<Rightarrow> string" and print_elems :: "json list \<Rightarrow> string"
  and print_members :: "(string \<times> json) list \<Rightarrow> string" where
  "print_json JNull = ''null''"
| "print_json (JBool b) = (if b then ''true'' else ''false'')"
| "print_json (JNum s) = s"
| "print_json (JStr s) = print_string s"
| "print_json (JArr xs) = CHR ''['' # print_elems xs @ '']''"
| "print_json (JObj ms) = CHR ''{'' # print_members ms @ ''}''"
| "print_elems [] = []"
| "print_elems (x # xs) = print_json x @ (if xs = [] then [] else CHR '','' # print_elems xs)"
| "print_members [] = []"
| "print_members ((k, x) # ms) =
     print_string k @ CHR '':'' # print_json x @ (if ms = [] then [] else CHR '','' # print_members ms)"

section \<open>Parsing\<close>

definition white :: "char \<Rightarrow> bool" where
  "white c \<longleftrightarrow> code c \<in> {9, 10, 13, 32}"

definition skip_white :: "string \<Rightarrow> string" where
  "skip_white s = dropWhile white s"

definition number_char :: "char \<Rightarrow> bool" where
  "number_char c \<longleftrightarrow> 48 \<le> code c \<and> code c \<le> 57 \<or> c \<in> set ''+-.eE''"

definition is_digit :: "char \<Rightarrow> bool" where
  "is_digit c \<longleftrightarrow> 48 \<le> code c \<and> code c \<le> 57"

text \<open>The grammar of number literals: an integer part without leading zeros, a fraction, an exponent.\<close>

definition exponent_ok :: "string \<Rightarrow> bool" where
  "exponent_ok s = (case s of
     [] \<Rightarrow> True
   | c # r \<Rightarrow> (c = CHR ''e'' \<or> c = CHR ''E'') \<and>
       (let d = (case r of a # r' \<Rightarrow> if a = CHR ''+'' \<or> a = CHR ''-'' then r' else r | [] \<Rightarrow> [])
        in d \<noteq> [] \<and> list_all is_digit d))"

definition fraction_ok :: "string \<Rightarrow> bool" where
  "fraction_ok s = (case s of
     [] \<Rightarrow> True
   | c # r \<Rightarrow>
       if c = CHR ''.'' then takeWhile is_digit r \<noteq> [] \<and> exponent_ok (dropWhile is_digit r)
       else exponent_ok s)"

definition number_ok :: "string \<Rightarrow> bool" where
  "number_ok s =
     (let u = (case s of [] \<Rightarrow> [] | c # r \<Rightarrow> if c = CHR ''-'' then r else s); d = takeWhile is_digit u
      in d \<noteq> [] \<and> (hd d = CHR ''0'' \<longrightarrow> d = ''0'') \<and> fraction_ok (dropWhile is_digit u))"

definition parse_number :: "string \<Rightarrow> (json \<times> string) option" where
  "parse_number s =
     (let lit = takeWhile number_char s
      in if number_ok lit then Some (JNum lit, dropWhile number_char s) else None)"

fun parse_value :: "nat \<Rightarrow> string \<Rightarrow> (json \<times> string) option"
  and parse_elems :: "nat \<Rightarrow> string \<Rightarrow> (json list \<times> string) option"
  and parse_members :: "nat \<Rightarrow> string \<Rightarrow> ((string \<times> json) list \<times> string) option" where
  "parse_value 0 s = None"
| "parse_value (Suc n) s =
     (case skip_white s of
        [] \<Rightarrow> None
      | c # r \<Rightarrow>
          if c = quote then map_option (\<lambda>(x, r). (JStr (to_valid x), r)) (parse_string r)
          else if c = CHR ''['' then
            (case skip_white r of
               [] \<Rightarrow> None
             | d # r' \<Rightarrow>
                 if d = CHR '']'' then Some (JArr [], r')
                 else map_option (\<lambda>(xs, r). (JArr xs, r)) (parse_elems n r))
          else if c = CHR ''{'' then
            (case skip_white r of
               [] \<Rightarrow> None
             | d # r' \<Rightarrow>
                 if d = CHR ''}'' then Some (JObj [], r')
                 else map_option (\<lambda>(ms, r). (JObj ms, r)) (parse_members n r))
          else if take 4 (c # r) = ''null'' then Some (JNull, drop 4 (c # r))
          else if take 4 (c # r) = ''true'' then Some (JBool True, drop 4 (c # r))
          else if take 5 (c # r) = ''false'' then Some (JBool False, drop 5 (c # r))
          else parse_number (c # r))"
| "parse_elems 0 s = None"
| "parse_elems (Suc n) s =
     (case parse_value n s of
        None \<Rightarrow> None
      | Some (x, r) \<Rightarrow>
          (case skip_white r of
             [] \<Rightarrow> None
           | d # r' \<Rightarrow>
               if d = CHR '','' then map_option (\<lambda>(xs, r). (x # xs, r)) (parse_elems n r')
               else if d = CHR '']'' then Some ([x], r')
               else None))"
| "parse_members 0 s = None"
| "parse_members (Suc n) s =
     (case skip_white s of
        [] \<Rightarrow> None
      | c # r \<Rightarrow>
          if c \<noteq> quote then None
          else (case parse_string r of
             None \<Rightarrow> None
           | Some (k, r) \<Rightarrow>
               (case skip_white r of
                  [] \<Rightarrow> None
                | d # r \<Rightarrow>
                    if d \<noteq> CHR '':'' then None
                    else (case parse_value n r of
                       None \<Rightarrow> None
                     | Some (x, r) \<Rightarrow>
                         (case skip_white r of
                            [] \<Rightarrow> None
                          | e # r' \<Rightarrow>
                              if e = CHR '','' then
                                map_option (\<lambda>(ms, r). ((to_valid k, x) # ms, r)) (parse_members n r')
                              else if e = CHR ''}'' then Some ([(to_valid k, x)], r')
                              else None)))))"

definition parse_json :: "string \<Rightarrow> json option" where
  "parse_json s =
     (case parse_value (Suc (2 * length s)) s of
        Some (j, r) \<Rightarrow> if skip_white r = [] then Some j else None
      | None \<Rightarrow> None)"

section \<open>The round trip\<close>

text \<open>What a value becomes: its strings and keys made valid. A number must be a literal.\<close>

fun clean :: "json \<Rightarrow> json" where
  "clean (JStr s) = JStr (to_valid s)"
| "clean (JArr xs) = JArr (map clean xs)"
| "clean (JObj ms) = JObj (map (\<lambda>(k, x). (to_valid k, clean x)) ms)"
| "clean j = j"

fun numbers_ok :: "json \<Rightarrow> bool" where
  "numbers_ok (JNum s) \<longleftrightarrow> number_ok s \<and> list_all number_char s"
| "numbers_ok (JArr xs) \<longleftrightarrow> list_all numbers_ok xs"
| "numbers_ok (JObj ms) \<longleftrightarrow> list_all (\<lambda>(k, x). numbers_ok x) ms"
| "numbers_ok j \<longleftrightarrow> True"

fun need :: "json \<Rightarrow> nat" and need_elems :: "json list \<Rightarrow> nat"
  and need_members :: "(string \<times> json) list \<Rightarrow> nat" where
  "need (JArr xs) = Suc (need_elems xs)"
| "need (JObj ms) = Suc (need_members ms)"
| "need j = 1"
| "need_elems [] = 0"
| "need_elems (x # xs) = Suc (max (need x) (need_elems xs))"
| "need_members [] = 0"
| "need_members ((k, x) # ms) = Suc (max (need x) (need_members ms))"

text \<open>A text that may follow a value.\<close>

definition delimited :: "string \<Rightarrow> bool" where
  "delimited s \<longleftrightarrow> (case s of [] \<Rightarrow> True | c # _ \<Rightarrow> \<not> number_char c)"

lemma delimited_simps [simp]:
  "delimited []"
  "delimited (CHR '','' # r)" "delimited (CHR '']'' # r)" "delimited (CHR ''}'' # r)"
  by (simp_all add: delimited_def number_char_def)

lemma skip_white_simps [simp]:
  "skip_white [] = []"
  "\<not> white c \<Longrightarrow> skip_white (c # r) = c # r"
  by (simp_all add: skip_white_def)

lemma not_white [simp]:
  "\<not> white quote" "\<not> white (CHR '','')" "\<not> white (CHR '']'')" "\<not> white (CHR ''}'')" "\<not> white (CHR '':'')"
  "\<not> white (CHR ''['')" "\<not> white (CHR ''{'')" "\<not> white (CHR ''n'')" "\<not> white (CHR ''t'')" "\<not> white (CHR ''f'')"
  by (simp_all add: white_def)

lemma parse_quoted:
  "parse_string (escape (to_valid s) @ quote # r) = Some (to_valid s, r)"
  by (rule parse_print_string)

lemma number_head:
  assumes "number_ok s" and "list_all number_char s"
  obtains c r where "s = c # r" "number_char c" "\<not> white c" "c \<notin> set [quote, CHR ''['', CHR ''{'', CHR ''n'', CHR ''t'', CHR ''f'']"
proof -
  obtain c r where s: "s = c # r" using assms(1) by (cases s) (auto simp: number_ok_def)
  moreover have "number_char c" using assms(2) s by simp
  ultimately show ?thesis by (intro that [of c r]) (auto simp: number_char_def white_def)
qed

lemma parse_number_literal:
  assumes "number_ok s" and "list_all number_char s" and "delimited r"
  shows "parse_number (s @ r) = Some (JNum s, r)"
proof -
  have "takeWhile number_char (s @ r) = s" "dropWhile number_char (s @ r) = r"
    using assms(2,3) by (auto simp: list_all_iff takeWhile_append dropWhile_append delimited_def split: list.splits)
  then show ?thesis using assms(1) by (simp add: parse_number_def)
qed

text \<open>The first character of a printed value is neither white space nor a closing bracket.\<close>

lemma print_head:
  assumes "numbers_ok j"
  obtains c r where "print_json j = c # r" "\<not> white c" "c \<noteq> CHR '']''"
proof (cases j)
  case (JNum s)
  have ok: "number_ok s" "list_all number_char s" using assms JNum by simp_all
  obtain c r where "s = c # r" "number_char c" "\<not> white c"
    by (rule number_head [OF ok])
  moreover have "c \<noteq> CHR '']''" using \<open>number_char c\<close> by (auto simp: number_char_def)
  ultimately show ?thesis using that JNum by simp
next
  case (JBool b)
  then show ?thesis using that by (cases b) (auto simp: white_def)
qed (use that in \<open>auto simp: print_string_def white_def split: if_splits\<close>)

lemma parse_print_all:
  shows "numbers_ok j \<Longrightarrow> need j \<le> n \<Longrightarrow> delimited r \<Longrightarrow>
      parse_value n (print_json j @ r) = Some (clean j, r)"
    and "list_all numbers_ok xs \<Longrightarrow> need_elems xs \<le> n \<Longrightarrow> xs \<noteq> [] \<Longrightarrow>
      parse_elems n (print_elems xs @ CHR '']'' # r) = Some (map clean xs, r)"
    and "list_all (\<lambda>(k, x). numbers_ok x) ms \<Longrightarrow> need_members ms \<le> n \<Longrightarrow> ms \<noteq> [] \<Longrightarrow>
      parse_members n (print_members ms @ CHR ''}'' # r) =
        Some (map (\<lambda>(k, x). (to_valid k, clean x)) ms, r)"
proof (induction j and xs and ms arbitrary: n r and n r and n r rule: print_json_print_elems_print_members.induct)
  case 1
  then show ?case by (cases n) simp_all
next
  case (2 b)
  then show ?case by (cases n) simp_all
next
  case (3 s)
  have ok: "number_ok s" "list_all number_char s" using 3(1) by simp_all
  obtain c t where s: "s = c # t" "\<not> white c" "c \<notin> set [quote, CHR ''['', CHR ''{'', CHR ''n'', CHR ''t'', CHR ''f'']"
    by (rule number_head [OF ok])
  then show ?case
    using 3 parse_number_literal [OF ok 3(3)] by (cases n) simp_all
next
  case (4 s)
  then show ?case by (cases n) (simp_all add: print_string_def parse_quoted)
next
  case (5 xs)
  obtain m where n: "n = Suc m" "need_elems xs \<le> m" using 5(3) by (cases n) simp_all
  show ?case
  proof (cases xs)
    case Nil
    then show ?thesis by (simp add: n)
  next
    case (Cons x ys)
    have "numbers_ok x" using 5(2) Cons by simp
    then obtain c t where "print_json x = c # t" "\<not> white c" "c \<noteq> CHR '']''" by (rule print_head)
    moreover have "parse_elems m (print_elems xs @ CHR '']'' # r) = Some (map clean xs, r)"
      using 5(1) [of m r] 5(2) n(2) Cons by simp
    ultimately show ?thesis by (simp add: n Cons)
  qed
next
  case (6 ms)
  obtain m where n: "n = Suc m" "need_members ms \<le> m" using 6(3) by (cases n) simp_all
  show ?case
  proof (cases ms)
    case Nil
    then show ?thesis by (simp add: n)
  next
    case (Cons p ns)
    obtain k x where p: "p = (k, x)" by (cases p)
    have "parse_members m (print_members ms @ CHR ''}'' # r) =
        Some (map (\<lambda>(k, x). (to_valid k, clean x)) ms, r)"
      using 6(1) [of m r] 6(2) n(2) Cons by simp
    then show ?thesis by (simp add: n Cons p print_string_def)
  qed
next
  case 7
  then show ?case by simp
next
  case (8 x xs)
  obtain m where n: "n = Suc m" "need x \<le> m" "need_elems xs \<le> m" using 8(4) by (cases n) simp_all
  show ?case
  proof (cases "xs = []")
    case True
    then show ?thesis using 8(1) [of m "CHR '']'' # r"] 8(3) n by simp
  next
    case False
    then show ?thesis
      using 8(1) [of m "CHR '','' # print_elems xs @ CHR '']'' # r"] 8(2) [OF False, of m r] 8(3) n by simp
  qed
next
  case 9
  then show ?case by simp
next
  case (10 k x ms)
  obtain m where n: "n = Suc m" "need x \<le> m" "need_members ms \<le> m" using 10(4) by (cases n) simp_all
  show ?case
  proof (cases "ms = []")
    case True
    then show ?thesis
      using 10(1) [of m "CHR ''}'' # r"] 10(3) n by (simp add: print_string_def parse_quoted)
  next
    case False
    then show ?thesis
      using 10(1) [of m "CHR '','' # print_members ms @ CHR ''}'' # r"] 10(2) [OF False, of m r] 10(3) n
      by (simp add: print_string_def parse_quoted)
  qed
qed

lemma number_nonempty: "number_ok s \<Longrightarrow> s \<noteq> []"
  by (auto simp: number_ok_def)

lemma need_bound:
  shows "numbers_ok j \<Longrightarrow> need j \<le> 2 * length (print_json j)"
    and "list_all numbers_ok xs \<Longrightarrow> need_elems xs \<le> Suc (2 * length (print_elems xs))"
    and "list_all (\<lambda>(k, x). numbers_ok x) ms \<Longrightarrow> need_members ms \<le> Suc (2 * length (print_members ms))"
proof (induction j and xs and ms rule: print_json_print_elems_print_members.induct)
  case (3 s)
  then show ?case using number_nonempty [of s] by (cases s) auto
qed (auto simp: print_string_def)

theorem parse_print_json:
  assumes "numbers_ok j"
  shows "parse_json (print_json j) = Some (clean j)"
  using parse_print_all(1) [OF assms, of "Suc (2 * length (print_json j))" "[]"] need_bound(1) [OF assms]
  by (simp add: parse_json_def)

section \<open>Integers\<close>

lemma dec_digit_list: "list_all is_digit (dec n)"
  using dec_digits [of _ n] by (auto simp: list_all_iff is_digit_def)

lemma dec_head: "hd (dec n) = CHR ''0'' \<Longrightarrow> dec n = ''0''"
proof (induction n rule: dec.induct)
  case (1 n)
  show ?case
  proof (cases "n < 10")
    case True
    then show ?thesis using 1(2) by (simp add: dec.simps [of n])
  next
    case False
    then have "hd (dec (n div 10)) = CHR ''0''" using 1(2) by (simp add: dec.simps [of n])
    then have "dec (n div 10) = dec 0" using 1(1) False format_int_0 by (simp add: format_int_def)
    then have "n div 10 = 0" by simp
    then show ?thesis using False by auto
  qed
qed

lemma number_dec: "number_ok (dec n)" and number_minus_dec: "number_ok (CHR ''-'' # dec n)"
proof -
  have "takeWhile is_digit (dec n) = dec n" "dropWhile is_digit (dec n) = []"
    using dec_digit_list [of n] by (simp_all add: list_all_iff takeWhile_eq_all_conv)
  moreover have "CHR ''-'' \<noteq> hd (dec n)"
    using minus_not_in_dec [of n] by (metis dec_nonempty hd_in_set)
  moreover obtain c r where "dec n = c # r" by (cases "dec n") simp_all
  ultimately show "number_ok (dec n)" "number_ok (CHR ''-'' # dec n)"
    using dec_head [of n]
    by (auto simp: number_ok_def fraction_ok_def Let_def)
qed

lemma number_format_int [simp]: "number_ok (format_int n)" "list_all number_char (format_int n)"
proof -
  show "number_ok (format_int n)"
    by (simp add: format_int_def number_dec number_minus_dec)
  have "list_all number_char (dec m)" for m
    using dec_digit_list [of m] by (auto simp: list_all_iff is_digit_def number_char_def)
  then show "list_all number_char (format_int n)"
    by (simp add: format_int_def number_char_def)
qed

end
