(* ===== verification/Base64.thy ===== *)
theory Base64
  imports Utf8
begin

text \<open>
  Standard base64 with padding, as \<open>encoding/json\<close> writes and reads a \<open>[]byte\<close>. The decoder skips
  line breaks and does not look at the unused low bits before the padding.
\<close>

definition b64_char :: "nat \<Rightarrow> char" where
  "b64_char n =
     (if n < 26 then char_of (65 + n) else if n < 52 then char_of (71 + n)
      else if n < 62 then char_of (n - 4) else if n = 62 then CHR ''+'' else CHR ''/'')"

definition b64_value :: "char \<Rightarrow> nat option" where
  "b64_value c =
     (if 65 \<le> code c \<and> code c \<le> 90 then Some (code c - 65)
      else if 97 \<le> code c \<and> code c \<le> 122 then Some (code c - 71)
      else if 48 \<le> code c \<and> code c \<le> 57 then Some (code c + 4)
      else if c = CHR ''+'' then Some 62 else if c = CHR ''/'' then Some 63 else None)"

fun b64_encode :: "string \<Rightarrow> string" where
  "b64_encode [] = []"
| "b64_encode [a] = [b64_char (code a div 4), b64_char (code a mod 4 * 16), CHR ''='', CHR ''='']"
| "b64_encode [a, b] =
     [b64_char (code a div 4), b64_char (code a mod 4 * 16 + code b div 16),
      b64_char (code b mod 16 * 4), CHR ''='']"
| "b64_encode (a # b # c # r) =
     b64_char (code a div 4) # b64_char (code a mod 4 * 16 + code b div 16) #
     b64_char (code b mod 16 * 4 + code c div 64) # b64_char (code c mod 64) # b64_encode r"

fun b64_read :: "string \<Rightarrow> string option" where
  "b64_read [] = Some []"
| "b64_read (p # q # r # s # t) =
     (case (b64_value p, b64_value q) of
        (Some p, Some q) \<Rightarrow>
          if r = CHR ''='' then
            (if s = CHR ''='' \<and> t = [] then Some [char_of (p * 4 + q div 16)] else None)
          else (case b64_value r of
            None \<Rightarrow> None
          | Some r \<Rightarrow>
              if s = CHR ''='' then
                (if t = [] then Some [char_of (p * 4 + q div 16), char_of (q mod 16 * 16 + r div 4)] else None)
              else (case (b64_value s, b64_read t) of
                (Some s, Some u) \<Rightarrow>
                  Some (char_of (p * 4 + q div 16) # char_of (q mod 16 * 16 + r div 4) #
                        char_of (r mod 4 * 64 + s) # u)
              | _ \<Rightarrow> None))
      | _ \<Rightarrow> None)"
| "b64_read _ = None"

definition b64_decode :: "string \<Rightarrow> string option" where
  "b64_decode s = b64_read (filter (\<lambda>c. code c \<noteq> 10 \<and> code c \<noteq> 13) s)"

lemma code_b64_char:
  assumes "n < 64"
  shows "b64_value (b64_char n) = Some n" and "b64_char n \<noteq> CHR ''=''"
    and "43 \<le> code (b64_char n)" and "code (b64_char n) < 128"
proof -
  have c: "code (char_of m) = m" if "m < 256" for m :: nat using that by simp
  consider "n < 26" | "26 \<le> n" "n < 52" | "52 \<le> n" "n < 62" | "n = 62" | "n = 63" using assms by linarith
  then have "b64_value (b64_char n) = Some n \<and> code (b64_char n) \<noteq> 61 \<and>
    43 \<le> code (b64_char n) \<and> code (b64_char n) < 128"
    by cases (auto simp: b64_char_def b64_value_def)
  then show "b64_value (b64_char n) = Some n" "b64_char n \<noteq> CHR ''=''"
    "43 \<le> code (b64_char n)" "code (b64_char n) < 128" by auto
qed

lemma code_less [simp]: "code c < 256"
  using of_char_of [where 'a = nat] by (metis char_of_char mod_less_divisor of_char_mod_256 zero_less_numeral)

lemma byte_split:
  assumes "n < (256 :: nat)"
  shows "n div 4 < 64" "n mod 4 * 16 < 64" "n mod 16 * 4 < 64" "n mod 64 < 64"
  using assms by auto

lemma b64_read_encode: "b64_read (b64_encode s) = Some s"
proof (induction s rule: b64_encode.induct)
  case (2 a)
  have "code a div 4 * 4 + code a mod 4 * 16 div 16 = code a" by simp
  then show ?case
    using code_b64_char [OF byte_split(1) [OF code_less [of a]]] code_b64_char [OF byte_split(2) [OF code_less [of a]]]
    by simp
next
  case (3 a b)
  have q: "code a mod 4 * 16 + code b div 16 < 64" using code_less [of b] by linarith
  have "code b div 16 < 16" using code_less [of b] by linarith
  then have "code a div 4 * 4 + (code a mod 4 * 16 + code b div 16) div 16 = code a"
    "(code a mod 4 * 16 + code b div 16) mod 16 * 16 + code b mod 16 * 4 div 4 = code b"
    by simp_all
  then show ?case
    using code_b64_char [OF byte_split(1) [OF code_less [of a]]] code_b64_char [OF q]
      code_b64_char [OF byte_split(3) [OF code_less [of b]]]
    by simp
next
  case (4 a b c r)
  have q: "code a mod 4 * 16 + code b div 16 < 64" using code_less [of b] by linarith
  have q': "code b mod 16 * 4 + code c div 64 < 64" using code_less [of c] by linarith
  have "code b div 16 < 16" "code c div 64 < 4" using code_less [of b] code_less [of c] by linarith+
  then have "code a div 4 * 4 + (code a mod 4 * 16 + code b div 16) div 16 = code a"
    "(code a mod 4 * 16 + code b div 16) mod 16 * 16 + (code b mod 16 * 4 + code c div 64) div 4 = code b"
    "(code b mod 16 * 4 + code c div 64) mod 4 * 64 + code c mod 64 = code c"
    by simp_all
  then show ?case
    using 4 code_b64_char [OF byte_split(1) [OF code_less [of a]]] code_b64_char [OF q] code_b64_char [OF q']
      code_b64_char [OF byte_split(4) [OF code_less [of c]]]
    by simp
qed simp

lemma b64_encode_chars: "x \<in> set (b64_encode s) \<Longrightarrow> 43 \<le> code x \<and> code x < 128"
proof (induction s rule: b64_encode.induct)
  case (2 a)
  then show ?case using code_b64_char(3,4) [OF byte_split(1) [OF code_less [of a]]]
    code_b64_char(3,4) [OF byte_split(2) [OF code_less [of a]]] by auto
next
  case (3 a b)
  have q: "code a mod 4 * 16 + code b div 16 < 64" using code_less [of b] by linarith
  show ?case using 3 code_b64_char(3,4) [OF byte_split(1) [OF code_less [of a]]]
    code_b64_char(3,4) [OF q] code_b64_char(3,4) [OF byte_split(3) [OF code_less [of b]]] by auto
next
  case (4 a b c r)
  have q: "code a mod 4 * 16 + code b div 16 < 64" using code_less [of b] by linarith
  have q': "code b mod 16 * 4 + code c div 64 < 64" using code_less [of c] by linarith
  show ?case using 4 code_b64_char(3,4) [OF byte_split(1) [OF code_less [of a]]]
    code_b64_char(3,4) [OF q] code_b64_char(3,4) [OF q'] code_b64_char(3,4) [OF byte_split(4) [OF code_less [of c]]]
    by auto
qed simp

lemma b64_decode_encode [simp]: "b64_decode (b64_encode s) = Some s"
proof -
  have "filter (\<lambda>c. code c \<noteq> 10 \<and> code c \<noteq> 13) (b64_encode s) = b64_encode s"
    using b64_encode_chars by (intro filter_True) fastforce
  then show ?thesis by (simp add: b64_decode_def b64_read_encode)
qed

lemma b64_valid [simp]: "to_valid (b64_encode s) = b64_encode s"
  using ascii_valid [of "b64_encode s"] b64_encode_chars by (auto simp: valid_utf8_def list_all_iff)

end
