(* ===== verification/Go_Time.thy ===== *)
theory Go_Time
  imports Prelude Utf8 "HOL-Library.Monad_Syntax"
begin

text \<open>
  A \<open>time.Time\<close> in JSON: its instant and the offset of its zone in seconds, its text in RFC 3339 with
  nanoseconds (trailing zeros dropped), and the parser of that text. The calendar is Go's proleptic
  Gregorian one; a time outside the years 0 to 9999, or a zone of 24 hours or more, is an error. A
  monotonic clock reading is not part of the text and not of the model.
\<close>

record go_time =
  gt_instant :: instant
  gt_offset :: int

section \<open>The calendar\<close>

text \<open>Days from the first day of year 0 to the first day of year \<open>y\<close>.\<close>

definition days_before :: "nat \<Rightarrow> int" where
  "days_before y = 365 * int y + int ((y + 3) div 4) - int ((y + 99) div 100) + int ((y + 399) div 400)"

definition leap :: "nat \<Rightarrow> bool" where
  "leap y \<longleftrightarrow> y mod 4 = 0 \<and> (y mod 100 \<noteq> 0 \<or> y mod 400 = 0)"

definition month_start :: "bool \<Rightarrow> nat \<Rightarrow> int" where
  "month_start lp m =
     (if m \<le> 1 then 0 else if m = 2 then 31
      else (if lp then 1 else 0) +
        (if m = 3 then 59 else if m = 4 then 90 else if m = 5 then 120 else if m = 6 then 151
         else if m = 7 then 181 else if m = 8 then 212 else if m = 9 then 243 else if m = 10 then 273
         else if m = 11 then 304 else if m = 12 then 334 else 365))"

definition days_in :: "nat \<Rightarrow> nat \<Rightarrow> int" where
  "days_in y m = month_start (leap y) (Suc m) - month_start (leap y) m"

text \<open>The last year up to \<open>n\<close> that starts on or before day \<open>d\<close>, and the like for months.\<close>

fun year_down :: "nat \<Rightarrow> int \<Rightarrow> nat" where
  "year_down 0 d = 0"
| "year_down (Suc y) d = (if days_before (Suc y) \<le> d then Suc y else year_down y d)"

fun month_down :: "bool \<Rightarrow> nat \<Rightarrow> int \<Rightarrow> nat" where
  "month_down lp 0 d = 1"
| "month_down lp (Suc m) d = (if month_start lp (Suc m) \<le> d then Suc m else month_down lp m d)"

definition year_of :: "int \<Rightarrow> nat" where
  "year_of d = year_down (nat (d div 365)) d"

definition epoch_days :: int where
  "epoch_days = 719528"

lemma days_before_Suc: "days_before (Suc y) = days_before y + (if leap y then 366 else 365)"
proof -
  have step: "(Suc y + n) div k = (y + n) div k + (if (y + n + 1) mod k = 0 then 1 else 0)" for n k
    by (simp add: div_Suc)
  have "(y + 3 + 1) mod 4 = y mod 4" "(y + 99 + 1) mod 100 = y mod 100" "(y + 399 + 1) mod 400 = y mod 400"
    by simp_all
  moreover have "y mod 400 = 0 \<longrightarrow> y mod 100 = 0" "y mod 100 = 0 \<longrightarrow> y mod 4 = 0" by presburger+
  ultimately show ?thesis
    unfolding days_before_def step leap_def by (simp add: algebra_simps)
qed

lemma days_before_mono: "x \<le> y \<Longrightarrow> days_before x \<le> days_before y"
  by (induction y rule: nat_induct) (auto simp: days_before_Suc le_Suc_eq split: if_splits)

lemma days_before_ge: "365 * int y \<le> days_before y"
  by (induction y) (auto simp: days_before_Suc days_before_def)

lemma year_down_bounds:
  assumes "0 \<le> d" and "d < days_before (Suc n)"
  shows "days_before (year_down n d) \<le> d" and "d < days_before (Suc (year_down n d))"
  using assms by (induction n) (auto simp: days_before_def)

lemma year_of_bounds:
  assumes "0 \<le> d"
  shows "days_before (year_of d) \<le> d" and "d < days_before (Suc (year_of d))"
proof -
  have "int (Suc (nat (d div 365))) = d div 365 + 1" using assms by (simp add: pos_imp_zdiv_nonneg_iff)
  then have "d < 365 * int (Suc (nat (d div 365)))"
    using div_mult_mod_eq [of d 365] pos_mod_bound [of 365 d] by simp
  then have "d < days_before (Suc (nat (d div 365)))"
    using days_before_ge [of "Suc (nat (d div 365))"] by linarith
  from year_down_bounds [OF assms this]
  show "days_before (year_of d) \<le> d" and "d < days_before (Suc (year_of d))"
    by (simp_all add: year_of_def)
qed

lemma year_of_range: "0 \<le> d \<Longrightarrow> d < days_before 10000 \<Longrightarrow> year_of d < 10000"
  using year_of_bounds(1) [of d] days_before_mono [of 10000 "year_of d"] by linarith

lemma month_down_bounds:
  assumes "0 \<le> d" and "d < month_start lp (Suc m)" and "1 \<le> m"
  shows "month_start lp (month_down lp m d) \<le> d \<and> d < month_start lp (Suc (month_down lp m d)) \<and>
    1 \<le> month_down lp m d \<and> month_down lp m d \<le> m"
  using assms(2,3)
proof (induction m)
  case (Suc m)
  show ?case
  proof (cases "month_start lp (Suc m) \<le> d")
    case True
    then show ?thesis using Suc.prems by simp
  next
    case False
    then have "1 \<le> m" using assms(1) by (cases m) (auto simp: month_start_def)
    then show ?thesis using Suc.IH False by auto
  qed
qed simp

section \<open>Printing\<close>

definition pad2 :: "nat \<Rightarrow> string" where
  "pad2 n = [digit (n div 10), digit (n mod 10)]"

definition pad4 :: "nat \<Rightarrow> string" where
  "pad4 n = pad2 (n div 100) @ pad2 (n mod 100)"

definition pad9 :: "nat \<Rightarrow> string" where
  "pad9 n = [digit (n div 100000000)] @ pad4 (n div 10000 mod 10000) @ pad4 (n mod 10000)"

definition trim_zeros :: "string \<Rightarrow> string" where
  "trim_zeros s = rev (dropWhile (\<lambda>c. c = digit 0) (rev s))"

definition print_fraction :: "nat \<Rightarrow> string" where
  "print_fraction n = (if n = 0 then [] else CHR ''.'' # trim_zeros (pad9 n))"

definition print_zone :: "int \<Rightarrow> string" where
  "print_zone off =
     (if off = 0 then ''Z''
      else (let z = nat (\<bar>off\<bar> div 60)
            in (if off \<le> - 60 then ''-'' else ''+'') @ pad2 (z div 60) @ '':'' @ pad2 (z mod 60)))"

text \<open>The local day number and the nanosecond of the day.\<close>

definition local_day :: "go_time \<Rightarrow> int" where
  "local_day t = (gt_instant t + gt_offset t * 1000000000) div 86400000000000 + epoch_days"

definition local_nanos :: "go_time \<Rightarrow> nat" where
  "local_nanos t = nat ((gt_instant t + gt_offset t * 1000000000) mod 86400000000000)"

definition print_time :: "go_time \<Rightarrow> string option" where
  "print_time t =
     (let d = local_day t; ns = local_nanos t
      in if d < 0 \<or> days_before 10000 \<le> d \<or> 86400 \<le> \<bar>gt_offset t\<bar> then None
         else (let y = year_of d; doy = d - days_before y; m = month_down (leap y) 12 doy;
                   day = nat (doy - month_start (leap y) m + 1); s = ns div 1000000000
               in Some (pad4 y @ ''-'' @ pad2 m @ ''-'' @ pad2 day @ ''T'' @ pad2 (s div 3600) @ '':'' @
                    pad2 (s div 60 mod 60) @ '':'' @ pad2 (s mod 60) @ print_fraction (ns mod 1000000000) @
                    print_zone (gt_offset t))))"

section \<open>Parsing\<close>

definition is_dec :: "char \<Rightarrow> bool" where
  "is_dec c \<longleftrightarrow> 48 \<le> code c \<and> code c \<le> 57"

definition read_digits :: "nat \<Rightarrow> string \<Rightarrow> (nat \<times> string) option" where
  "read_digits n s =
     (if length (take n s) = n \<and> list_all is_dec (take n s) then Some (undec (take n s), drop n s) else None)"

definition read_char :: "char \<Rightarrow> string \<Rightarrow> string option" where
  "read_char c s = (case s of [] \<Rightarrow> None | d # r \<Rightarrow> if d = c then Some r else None)"

definition read_fraction :: "string \<Rightarrow> (nat \<times> string) option" where
  "read_fraction s =
     (case s of
        [] \<Rightarrow> Some (0, s)
      | c # r \<Rightarrow>
          if c \<noteq> CHR ''.'' then Some (0, s)
          else (let ds = takeWhile is_dec r
                in if ds = [] then None
                   else Some (undec (take 9 (ds @ replicate 9 (digit 0))), dropWhile is_dec r)))"

definition read_zone :: "string \<Rightarrow> int option" where
  "read_zone s =
     (if s = ''Z'' then Some 0
      else case s of
        [] \<Rightarrow> None
      | c # r \<Rightarrow>
          if c = CHR ''+'' \<or> c = CHR ''-'' then
            do {
              (h, r) \<leftarrow> read_digits 2 r;
              r \<leftarrow> read_char (CHR '':'') r;
              (m, r) \<leftarrow> read_digits 2 r;
              if r = [] \<and> h < 24 \<and> m < 60
              then Some ((if c = CHR ''-'' then - 1 else 1) * (int h * 3600 + int m * 60))
              else None
            }
          else None)"

definition parse_time :: "string \<Rightarrow> go_time option" where
  "parse_time s =
     do {
       (y, s) \<leftarrow> read_digits 4 s; s \<leftarrow> read_char (CHR ''-'') s;
       (m, s) \<leftarrow> read_digits 2 s; s \<leftarrow> read_char (CHR ''-'') s;
       (d, s) \<leftarrow> read_digits 2 s; s \<leftarrow> read_char (CHR ''T'') s;
       (h, s) \<leftarrow> read_digits 2 s; s \<leftarrow> read_char (CHR '':'') s;
       (mi, s) \<leftarrow> read_digits 2 s; s \<leftarrow> read_char (CHR '':'') s;
       (sec, s) \<leftarrow> read_digits 2 s;
       (ns, s) \<leftarrow> read_fraction s;
       off \<leftarrow> read_zone s;
       if 1 \<le> m \<and> m \<le> 12 \<and> 1 \<le> d \<and> int d \<le> days_in y m \<and> h < 24 \<and> mi < 60 \<and> sec < 60
       then Some \<lparr>gt_instant = (days_before y + month_start (leap y) m + int d - 1 - epoch_days) * 86400000000000
                + (int h * 3600 + int mi * 60 + int sec) * 1000000000 + int ns - off * 1000000000,
              gt_offset = off\<rparr>
       else None
     }"

section \<open>The round trip\<close>

lemma code_digit [simp]: "n < 10 \<Longrightarrow> code (digit n) = 48 + n"
  by (rule of_char_digit)

lemma is_dec_digit [simp]: "n < 10 \<Longrightarrow> is_dec (digit n)"
  by (simp add: is_dec_def)

lemma read_pad2 [simp]: "n < 100 \<Longrightarrow> read_digits 2 (pad2 n @ r) = Some (n, r)"
  by (simp add: read_digits_def pad2_def undec_def)

lemma read_pad4 [simp]: "n < 10000 \<Longrightarrow> read_digits 4 (pad4 n @ r) = Some (n, r)"
  by (simp add: read_digits_def pad4_def pad2_def undec_def)

lemma read_char_same [simp]: "read_char c (c # r) = Some r"
  by (simp add: read_char_def)

lemma pad9_props:
  assumes "n < 1000000000"
  shows "length (pad9 n) = 9" and "list_all is_dec (pad9 n)" and "undec (pad9 n) = n"
proof -
  show "length (pad9 n) = 9" by (simp add: pad9_def pad4_def pad2_def)
  show "list_all is_dec (pad9 n)" using assms by (simp add: pad9_def pad4_def pad2_def)
  have d: "undec (pad9 n) = n div 100000000 * 100000000 + n div 10000 mod 10000 * 10000 + n mod 10000"
    using assms by (simp add: pad9_def pad4_def pad2_def undec_def)
  have "n div 10000 = n div 100000000 * 10000 + n div 10000 mod 10000"
    using div_mult_mod_eq [of "n div 10000" 10000] by (simp flip: div_mult2_eq)
  then show "undec (pad9 n) = n" unfolding d using div_mult_mod_eq [of n 10000] by linarith
qed

lemma trim_zeros_pad: "trim_zeros s @ replicate (length s - length (trim_zeros s)) (digit 0) = s"
proof -
  let ?z = "\<lambda>c. c = digit 0"
  have "takeWhile ?z (rev s) = replicate (length (takeWhile ?z (rev s))) (digit 0)"
    by (metis (mono_tags) replicate_eqI set_takeWhileD)
  then have "rev (takeWhile ?z (rev s)) = replicate (length (takeWhile ?z (rev s))) (digit 0)"
    by (metis rev_replicate)
  moreover have "s = rev (dropWhile ?z (rev s)) @ rev (takeWhile ?z (rev s))"
    by (metis rev_append rev_rev_ident takeWhile_dropWhile_id)
  moreover have "length s - length (trim_zeros s) = length (takeWhile ?z (rev s))"
    using length_rev [of s] by (metis add_diff_cancel_right' length_append length_rev takeWhile_dropWhile_id trim_zeros_def)
  ultimately show ?thesis by (metis trim_zeros_def)
qed

lemma trim_zeros_nonempty:
  assumes "undec s \<noteq> 0"
  shows "trim_zeros s \<noteq> []"
proof
  assume "trim_zeros s = []"
  then have "s = replicate (length s) (digit 0)" using trim_zeros_pad [of s] by simp
  moreover have "foldl (\<lambda>a c. a * 10 + (code c - 48)) 0 (replicate n (digit 0)) = (0 :: nat)" for n
    by (induction n) simp_all
  ultimately have "undec s = 0" unfolding undec_def by metis
  then show False using assms by simp
qed

lemma set_trim_zeros: "list_all is_dec s \<Longrightarrow> list_all is_dec (trim_zeros s)"
  by (metis list_all_append trim_zeros_pad)

lemma print_zone_head: "\<exists>c r. print_zone off = c # r \<and> \<not> is_dec c \<and> c \<noteq> CHR ''.''"
  by (simp add: print_zone_def is_dec_def Let_def)

lemma read_print_fraction:
  assumes "n < 1000000000" and "r = c # u" and "\<not> is_dec c" and "c \<noteq> CHR ''.''"
  shows "read_fraction (print_fraction n @ r) = Some (n, r)"
proof (cases "n = 0")
  case True
  then show ?thesis using assms by (simp add: print_fraction_def read_fraction_def)
next
  case False
  note p = pad9_props [OF assms(1)]
  let ?t = "trim_zeros (pad9 n)"
  have dec: "list_all is_dec ?t" by (rule set_trim_zeros [OF p(2)])
  have ne: "?t \<noteq> []" by (rule trim_zeros_nonempty) (simp add: p(3) False)
  have "takeWhile is_dec (?t @ r) = ?t" "dropWhile is_dec (?t @ r) = r"
    using dec assms(2,3) by (auto simp: list_all_iff takeWhile_append dropWhile_append)
  moreover have "take 9 (?t @ replicate 9 (digit 0)) = pad9 n"
  proof -
    have "replicate 9 (digit 0) = replicate (9 - length ?t) (digit 0) @ replicate (length ?t) (digit 0)"
      using trim_zeros_pad [of "pad9 n"] p(1) by (metis le_add1 le_add_diff_inverse2 length_append replicate_add)
    then show ?thesis using trim_zeros_pad [of "pad9 n"] p(1) by (metis append.assoc append_eq_conv_conj)
  qed
  ultimately show ?thesis using False ne p(3) by (simp add: print_fraction_def read_fraction_def Let_def)
qed

lemma read_zone_digits:
  assumes "h < 24" and "m < 60" and "c = CHR ''+'' \<or> c = CHR ''-''"
  shows "read_zone (c # pad2 h @ CHR '':'' # pad2 m) =
    Some ((if c = CHR ''-'' then - 1 else 1) * (int h * 3600 + int m * 60))"
proof -
  have h: "read_digits 2 (pad2 h @ CHR '':'' # pad2 m) = Some (h, CHR '':'' # pad2 m)"
    and m: "read_digits 2 (pad2 m) = Some (m, [])"
    using assms(1,2) read_pad2 [of h] read_pad2 [of m "[]"] by simp_all
  show ?thesis unfolding read_zone_def using assms by (auto simp: h m)
qed

lemma read_print_zone:
  assumes "\<bar>off\<bar> < 86400" and "60 dvd off"
  shows "read_zone (print_zone off) = Some off"
proof (cases "off = 0")
  case True
  then show ?thesis by (simp add: print_zone_def read_zone_def)
next
  case False
  obtain k where k: "off = 60 * k" using assms(2) by blast
  define z where "z = nat (\<bar>off\<bar> div 60)"
  have z: "int z = \<bar>k\<bar>" using k by (simp add: z_def abs_mult)
  then have b: "z div 60 < 24" "z mod 60 < 60" using assms(1) k by auto
  have "int (z div 60 * 60 + z mod 60) = int z" by simp
  then have sum: "int (z div 60) * 3600 + int (z mod 60) * 60 = \<bar>off\<bar>"
    unfolding of_nat_add of_nat_mult using z k by simp
  show ?thesis
  proof (cases "k < 0")
    case True
    then have "print_zone off = CHR ''-'' # pad2 (z div 60) @ CHR '':'' # pad2 (z mod 60)"
      using k by (simp add: print_zone_def z_def Let_def)
    then show ?thesis using read_zone_digits [OF b, of "CHR ''-''"] sum True k by simp
  next
    case neg: False
    then have "print_zone off = CHR ''+'' # pad2 (z div 60) @ CHR '':'' # pad2 (z mod 60)"
      using k False by (simp add: print_zone_def z_def Let_def)
    then show ?thesis using read_zone_digits [OF b, of "CHR ''+''"] sum neg k by simp
  qed
qed

lemma parse_time_text:
  assumes "y < 10000" and "1 \<le> m" and "m \<le> 12" and "1 \<le> d" and "d < 100" and "int d \<le> days_in y m"
    and "h < 24" and "mi < 60" and "sec < 60" and "ns < 1000000000"
    and "\<bar>off\<bar> < 86400" and "60 dvd off"
  shows "parse_time (pad4 y @ ''-'' @ pad2 m @ ''-'' @ pad2 d @ ''T'' @ pad2 h @ '':'' @ pad2 mi @ '':'' @
      pad2 sec @ print_fraction ns @ print_zone off) =
    Some \<lparr>gt_instant = (days_before y + month_start (leap y) m + int d - 1 - epoch_days) * 86400000000000
            + (int h * 3600 + int mi * 60 + int sec) * 1000000000 + int ns - off * 1000000000,
          gt_offset = off\<rparr>"
proof -
  obtain c u where z: "print_zone off = c # u" "\<not> is_dec c" "c \<noteq> CHR ''.''"
    using print_zone_head by blast
  have two: "m < 100" "h < 100" "mi < 100" "sec < 100" using assms by simp_all
  show ?thesis
    using assms by (simp add: parse_time_def two read_print_fraction [OF assms(10) z] read_print_zone)
qed

text \<open>A time that survives: in the years 0 to 9999, in a zone of whole minutes below 24 hours.\<close>

definition time_ok :: "go_time \<Rightarrow> bool" where
  "time_ok t \<longleftrightarrow> 0 \<le> local_day t \<and> local_day t < days_before 10000 \<and>
     \<bar>gt_offset t\<bar> < 86400 \<and> 60 dvd gt_offset t"

lemma text_bounds:
  fixes t
  defines "d \<equiv> local_day t" and "ns \<equiv> local_nanos t"
  defines "y \<equiv> year_of d" and "s \<equiv> ns div 1000000000"
  defines "m \<equiv> month_down (leap y) 12 (d - days_before y)"
  defines "day \<equiv> nat (d - days_before y - month_start (leap y) m + 1)"
  assumes "0 \<le> d" and "d < days_before 10000"
  shows "y < 10000" and "1 \<le> m" and "m \<le> 12" and "1 \<le> day" and "day < 100"
    and "int day = d - days_before y - month_start (leap y) m + 1" and "int day \<le> days_in y m"
    and "s div 3600 < 24" and "s div 60 mod 60 < 60" and "s mod 60 < 60"
proof -
  show "y < 10000" using assms by (simp add: year_of_range)
  note y = year_of_bounds [OF assms(7)]
  have "d - days_before y < month_start (leap y) (Suc 12)"
    using y(2) by (simp add: y_def days_before_Suc month_start_def split: if_splits)
  then have m: "month_start (leap y) m \<le> d - days_before y" "d - days_before y < month_start (leap y) (Suc m)"
    "1 \<le> m" "m \<le> 12"
    using month_down_bounds [of "d - days_before y" "leap y" 12] y(1) by (simp_all add: m_def y_def)
  then show "1 \<le> m" and "m \<le> 12" by blast+
  show "int day = d - days_before y - month_start (leap y) m + 1" and "int day \<le> days_in y m"
    using m by (simp_all add: day_def days_in_def)
  have "month_start (leap y) (Suc m) - month_start (leap y) m \<le> 31"
    using m(3,4) by (auto simp: month_start_def)
  then show "1 \<le> day" and "day < 100" using m by (auto simp: day_def)
  have "ns < 86400000000000" by (simp add: ns_def local_nanos_def nat_less_iff)
  then have "s < 86400" unfolding s_def by linarith
  then show "s div 3600 < 24" "s div 60 mod 60 < 60" "s mod 60 < 60"
    by (auto simp: less_mult_imp_div_less)
qed

theorem parse_print_time:
  assumes "time_ok t"
  shows "\<exists>s. print_time t = Some s \<and> parse_time s = Some t"
proof -
  let ?L = "gt_instant t + gt_offset t * 1000000000"
  let ?d = "local_day t" and ?ns = "local_nanos t"
  let ?y = "year_of ?d"
  let ?doy = "?d - days_before ?y"
  let ?m = "month_down (leap ?y) 12 ?doy"
  let ?day = "nat (?doy - month_start (leap ?y) ?m + 1)"
  let ?s = "?ns div 1000000000"
  have d: "0 \<le> ?d" "?d < days_before 10000" using assms by (simp_all add: time_ok_def)
  note b = text_bounds [OF d]
  have ns: "int ?ns = ?L mod 86400000000000"
    by (simp add: local_nanos_def)
  have s_eq: "int (?s div 3600) * 3600 + int (?s div 60 mod 60) * 60 + int (?s mod 60) = int ?s"
  proof -
    have "?s div 3600 = ?s div 60 div 60" by (simp flip: div_mult2_eq)
    then have "?s div 3600 * 3600 + ?s div 60 mod 60 * 60 + ?s mod 60 = ?s"
      using div_mult_mod_eq [of ?s 60] div_mult_mod_eq [of "?s div 60" 60] by linarith
    then have "int (?s div 3600 * 3600 + ?s div 60 mod 60 * 60 + ?s mod 60) = int ?s" by (rule arg_cong)
    then show ?thesis by (simp only: of_nat_add of_nat_mult of_nat_numeral)
  qed
  have ns_eq: "int ?ns = int ?s * 1000000000 + int (?ns mod 1000000000)"
    by (metis div_mult_mod_eq of_nat_add of_nat_mult of_nat_numeral)
  have inst: "(days_before ?y + month_start (leap ?y) ?m + int ?day - 1 - epoch_days) * 86400000000000 +
      (int (?s div 3600) * 3600 + int (?s div 60 mod 60) * 60 + int (?s mod 60)) * 1000000000 +
      int (?ns mod 1000000000) - gt_offset t * 1000000000 = gt_instant t"
  proof -
    have "days_before ?y + month_start (leap ?y) ?m + int ?day - 1 - epoch_days = ?L div 86400000000000"
      using b(6) by (simp add: local_day_def)
    then show ?thesis
      using s_eq ns_eq ns div_mult_mod_eq [of ?L 86400000000000] by simp
  qed
  let ?text = "pad4 ?y @ ''-'' @ pad2 ?m @ ''-'' @ pad2 ?day @ ''T'' @ pad2 (?s div 3600) @ '':'' @
    pad2 (?s div 60 mod 60) @ '':'' @ pad2 (?s mod 60) @ print_fraction (?ns mod 1000000000) @
    print_zone (gt_offset t)"
  have "print_time t = Some ?text"
    using assms by (simp add: print_time_def time_ok_def Let_def)
  moreover have "parse_time ?text = Some t"
    using parse_time_text [OF b(1-5,7-10), of "?ns mod 1000000000" "gt_offset t"] inst assms
    by (simp add: time_ok_def)
  ultimately show ?thesis by blast
qed

section \<open>The text is ASCII\<close>

abbreviation ascii :: "string \<Rightarrow> bool" where
  "ascii s \<equiv> list_all (\<lambda>c. code c < 0x80) s"

lemma ascii_pad: "n < 100 \<Longrightarrow> ascii (pad2 n)" "k < 10000 \<Longrightarrow> ascii (pad4 k)"
proof -
  have two: "ascii (pad2 j)" if "j < 100" for j
  proof -
    have "j div 10 < 10" "j mod 10 < 10" using that by linarith+
    then show ?thesis by (simp add: pad2_def)
  qed
  show "ascii (pad2 n)" if "n < 100" by (rule two [OF that])
  have "k div 100 < 100" if "k < 10000" using that by linarith
  then show "ascii (pad4 k)" if "k < 10000" using that by (simp add: pad4_def two)
qed

lemma ascii_dec: "list_all is_dec s \<Longrightarrow> ascii s"
  by (auto simp: list_all_iff is_dec_def)

lemma ascii_fraction: "n < 1000000000 \<Longrightarrow> ascii (print_fraction n)"
  using set_trim_zeros [OF pad9_props(2), of n] by (simp add: print_fraction_def ascii_dec)

lemma ascii_zone: "\<bar>off\<bar> < 86400 \<Longrightarrow> ascii (print_zone off)"
proof -
  assume "\<bar>off\<bar> < 86400"
  then have "\<bar>off\<bar> div 60 < 1440" by linarith
  then have "nat (\<bar>off\<bar> div 60) < 1440" by simp
  then have "nat (\<bar>off\<bar> div 60) div 60 < 100" "nat (\<bar>off\<bar> div 60) mod 60 < 100"
    using mod_less_divisor [of 60 "nat (\<bar>off\<bar> div 60)"] by linarith+
  then show ?thesis by (simp add: print_zone_def Let_def ascii_pad)
qed

lemma ascii_time:
  assumes "print_time t = Some s"
  shows "ascii s"
proof -
  have d: "0 \<le> local_day t" "local_day t < days_before 10000" and z: "\<bar>gt_offset t\<bar> < 86400"
    using assms by (auto simp: print_time_def Let_def split: if_splits)
  note b = text_bounds [OF d]
  have two: "n < 100" if "n \<le> 12 \<or> n < 24 \<or> n < 60" for n :: nat using that by linarith
  show ?thesis
    using assms d z
    by (simp add: print_time_def Let_def) (auto simp: ascii_pad ascii_fraction ascii_zone two b)
qed

end
