(* ===== verification/Json_Struct.thy ===== *)
theory Json_Struct
  imports Json_Value Base64 Go_Time "HOL-Library.AList" "HOL-Library.List_Lexorder" "HOL-Library.Char_ord"
begin

text \<open>
  How \<open>encoding/json\<close> turns the Go values of the stores' records into JSON and back: integers,
  strings, slices and maps that may be nil, byte slices, times, and the fields of a struct. A decoder
  takes the value that its destination holds already: JSON's null leaves an integer, a string, a
  time or a struct as it is and makes a slice or a map nil; a map is extended. A map is an association
  list without repeated keys; Marshal prints its keys in order.
\<close>

section \<open>Values\<close>

definition integer_literal :: "string \<Rightarrow> bool" where
  "integer_literal s \<longleftrightarrow> list_all is_digit (case s of [] \<Rightarrow> [] | c # r \<Rightarrow> if c = CHR ''-'' then r else s)"

fun enc_strings :: "string list option \<Rightarrow> json" where
  "enc_strings None = JNull"
| "enc_strings (Some xs) = JArr (map JStr xs)"

fun enc_bytes :: "string option \<Rightarrow> json" where
  "enc_bytes None = JNull"
| "enc_bytes (Some b) = JStr (b64_encode b)"

fun enc_map :: "('v \<Rightarrow> json) \<Rightarrow> (string \<times> 'v) list option \<Rightarrow> json" where
  "enc_map f None = JNull"
| "enc_map f (Some m) = JObj (map (\<lambda>(k, v). (k, f v)) (sort_key fst m))"

fun dec_int :: "int \<Rightarrow> json \<Rightarrow> int option" where
  "dec_int old (JNum s) = (if integer_literal s \<and> in_i64 (parse_int s) then Some (parse_int s) else None)"
| "dec_int old JNull = Some old"
| "dec_int old _ = None"

fun dec_string :: "string \<Rightarrow> json \<Rightarrow> string option" where
  "dec_string old (JStr s) = Some s"
| "dec_string old JNull = Some old"
| "dec_string old _ = None"

fun dec_all :: "('a \<Rightarrow> 'b option) \<Rightarrow> 'a list \<Rightarrow> 'b list option" where
  "dec_all f [] = Some []"
| "dec_all f (x # xs) = do { y \<leftarrow> f x; ys \<leftarrow> dec_all f xs; Some (y # ys) }"

fun dec_strings :: "json \<Rightarrow> string list option option" where
  "dec_strings (JArr xs) = map_option Some (dec_all (dec_string '''') xs)"
| "dec_strings JNull = Some None"
| "dec_strings _ = None"

fun dec_byte :: "json \<Rightarrow> char option" where
  "dec_byte (JNum s) =
     (if integer_literal s \<and> 0 \<le> parse_int s \<and> parse_int s < 256 then Some (char_of (nat (parse_int s))) else None)"
| "dec_byte JNull = Some (char_of (0 :: nat))"
| "dec_byte _ = None"

fun dec_bytes :: "json \<Rightarrow> string option option" where
  "dec_bytes (JStr s) = map_option Some (b64_decode s)"
| "dec_bytes (JArr xs) = map_option Some (dec_all dec_byte xs)"
| "dec_bytes JNull = Some None"
| "dec_bytes _ = None"

fun dec_members ::
  "(json \<Rightarrow> 'v option) \<Rightarrow> (string \<times> json) list \<Rightarrow> (string \<times> 'v) list \<Rightarrow> (string \<times> 'v) list option" where
  "dec_members f [] m = Some m"
| "dec_members f ((k, x) # ms) m = do { v \<leftarrow> f x; dec_members f ms (AList.update k v m) }"

fun dec_map ::
  "(json \<Rightarrow> 'v option) \<Rightarrow> (string \<times> 'v) list option \<Rightarrow> json \<Rightarrow> (string \<times> 'v) list option option" where
  "dec_map f old (JObj ms) = map_option Some (dec_members f ms (case old of None \<Rightarrow> [] | Some m \<Rightarrow> m))"
| "dec_map f old JNull = Some None"
| "dec_map f old _ = None"

fun dec_time :: "go_time \<Rightarrow> json \<Rightarrow> go_time option" where
  "dec_time old (JStr s) = parse_time s"
| "dec_time old JNull = Some old"
| "dec_time old _ = None"

text \<open>The zero \<open>time.Time\<close> is the first instant of year 1, in UTC.\<close>

definition zero_time :: go_time where
  "zero_time = \<lparr>gt_instant = - 62135596800 * 1000000000, gt_offset = 0\<rparr>"

text \<open>
  A struct: each member of the object goes to the field with its name, whatever the case of the
  letters; members without a field are skipped, and of two members for one field the later wins.
\<close>

definition lower :: "string \<Rightarrow> string" where
  "lower s = map (\<lambda>c. if 65 \<le> code c \<and> code c \<le> 90 then char_of (code c + 32) else c) s"

fun dec_fields :: "(string \<Rightarrow> json \<Rightarrow> 'r \<Rightarrow> 'r option) \<Rightarrow> (string \<times> json) list \<Rightarrow> 'r \<Rightarrow> 'r option" where
  "dec_fields f [] r = Some r"
| "dec_fields f ((k, x) # ms) r = do { r \<leftarrow> f (lower k) x r; dec_fields f ms r }"

definition dec_struct :: "(string \<Rightarrow> json \<Rightarrow> 'r \<Rightarrow> 'r option) \<Rightarrow> 'r \<Rightarrow> json \<Rightarrow> 'r option" where
  "dec_struct f zero j = (case j of JObj ms \<Rightarrow> dec_fields f ms zero | JNull \<Rightarrow> Some zero | _ \<Rightarrow> None)"

text \<open>\<open>json.Unmarshal\<close> into a struct that holds \<open>zero\<close>; the text of its error is not modelled.\<close>

definition json_error :: go_error where
  "json_error = NewError ''json''"

definition unmarshal :: "(string \<Rightarrow> json \<Rightarrow> 'r \<Rightarrow> 'r option) \<Rightarrow> 'r \<Rightarrow> string \<Rightarrow> 'r res" where
  "unmarshal f zero data =
     (case parse_json data of
        None \<Rightarrow> Inl json_error
      | Some j \<Rightarrow> (case dec_struct f zero j of None \<Rightarrow> Inl json_error | Some r \<Rightarrow> Inr r))"

text \<open>\<open>json.Marshal\<close> of a value: \<open>None\<close> if a part of it has no text.\<close>

definition marshal :: "json option \<Rightarrow> string res" where
  "marshal j = (case j of None \<Rightarrow> Inl json_error | Some j \<Rightarrow> Inr (print_json j))"

section \<open>Round trips\<close>

text \<open>
  A map without repeated keys, in the order of its keys; cleaning it, which keeps the map when all
  strings in it are valid.
\<close>

definition sorted_map :: "(string \<times> 'v) list \<Rightarrow> bool" where
  "sorted_map m \<longleftrightarrow> sorted (map fst m) \<and> distinct (map fst m)"

lemma sort_sorted_map [simp]: "sorted_map m \<Longrightarrow> sort_key fst m = m"
  by (simp add: sorted_map_def sort_key_id_if_sorted)

lemma integer_format_int [simp]: "integer_literal (format_int n)"
proof -
  have "CHR ''-'' \<noteq> c" if "dec m = c # r" for m c r using minus_not_in_dec [of m] that by auto
  then show ?thesis
    using dec_digit_list [of "nat n"] dec_digit_list [of "nat (- n)"]
    by (auto simp: integer_literal_def format_int_def split: list.split)
qed

lemma dec_int_format [simp]: "in_i64 n \<Longrightarrow> dec_int old (JNum (format_int n)) = Some n"
  by simp

lemma dec_all_strings [simp]: "dec_all (dec_string old) (map (\<lambda>s. JStr (g s)) xs) = Some (map g xs)"
  by (induction xs) simp_all

lemma update_fresh: "k \<notin> fst ` set m \<Longrightarrow> AList.update k v m = m @ [(k, v)]"
  by (induction m) auto

lemma dec_members_encoded:
  assumes "\<And>v. v \<in> snd ` set m \<Longrightarrow> f (clean (e v)) = Some (g v)"
    and "distinct (map fst m)" and "\<And>k. k \<in> fst ` set m \<Longrightarrow> valid_utf8 k" and "fst ` set m \<inter> fst ` set m0 = {}"
  shows "dec_members f (map (\<lambda>(k, x). (to_valid k, clean x)) (map (\<lambda>(k, v). (k, e v)) m)) m0 =
    Some (m0 @ map (\<lambda>(k, v). (k, g v)) m)"
  using assms
proof (induction m arbitrary: m0)
  case (Cons p m)
  obtain k v where p: "p = (k, v)" by (cases p)
  have k: "to_valid k = k" using Cons.prems(3) [of k] by (simp add: p valid_utf8_def)
  have "dec_members f (map (\<lambda>(k, x). (to_valid k, clean x)) (map (\<lambda>(k, v). (k, e v)) m)) (m0 @ [(k, g v)]) =
      Some ((m0 @ [(k, g v)]) @ map (\<lambda>(k, v). (k, g v)) m)"
    using Cons.prems by (intro Cons.IH) (auto simp: p)
  then show ?case
    using Cons.prems(1) [of v] Cons.prems(4) k by (simp add: p update_fresh)
qed simp

lemma dec_map_encoded:
  assumes "\<And>v. v \<in> snd ` set m \<Longrightarrow> f (clean (e v)) = Some (g v)"
    and "sorted_map m" and "\<And>k. k \<in> fst ` set m \<Longrightarrow> valid_utf8 k"
  shows "dec_map f None (clean (enc_map e (Some m))) = Some (Some (map (\<lambda>(k, v). (k, g v)) m))"
  using dec_members_encoded [of m f e g "[]"] assms
  by (simp add: sorted_map_def sort_key_id_if_sorted)

definition clean_strings :: "string list option \<Rightarrow> string list option" where
  "clean_strings = map_option (map to_valid)"

lemma dec_strings_encoded [simp]: "dec_strings (clean (enc_strings xs)) = Some (clean_strings xs)"
  by (cases xs) (simp_all add: clean_strings_def comp_def)

lemma dec_bytes_encoded [simp]: "dec_bytes (clean (enc_bytes b)) = Some b"
  by (cases b) simp_all

lemma numbers_ok_strings [simp]: "numbers_ok (enc_strings xs)"
  by (cases xs) (simp_all add: list_all_iff)

lemma numbers_ok_bytes [simp]: "numbers_ok (enc_bytes b)"
  by (cases b) simp_all

lemma numbers_ok_map: "(\<And>v. numbers_ok (e v)) \<Longrightarrow> numbers_ok (enc_map e m)"
  by (cases m) (auto simp: list_all_iff)

lemma valid_time: "print_time t = Some s \<Longrightarrow> to_valid s = s"
  using ascii_valid [OF ascii_time] by (simp add: valid_utf8_def)

text \<open>A struct read back field by field.\<close>

lemma unmarshal_print:
  assumes "numbers_ok (JObj ms)"
    and "dec_fields f (map (\<lambda>(k, x). (to_valid k, clean x)) ms) zero = Some r"
  shows "unmarshal f zero (print_json (JObj ms)) = Inr r"
  using parse_print_json [OF assms(1)] assms(2) by (simp add: unmarshal_def dec_struct_def)

lemma valid_name: "ascii k \<Longrightarrow> to_valid k = k"
  using ascii_valid by (simp add: valid_utf8_def)

end
