(* ===== verification/Cache.thy ===== *)
theory Cache
  imports Redis_Server Keyed_Redis Record_Store Json_Struct
begin

text \<open>
  \<open>middleware/cache/store.go\<close>: the response cache on Redis. \<open>cache_Record\<close> is the record of zerohttp
  (the fields that the store copies), \<open>cacheRecord\<close> its JSON twin. Go maps are association lists; the
  properties take them sorted by key and without repetitions, one list for each map.
\<close>

section \<open>The store\<close>

record cache_store_config =
  csc_KeyPrefix :: string

record 'w cache_store =
  cs_client :: "'w cache_client"
  cs_prefix :: string

type_synonym header_map = "(string \<times> string list option) list option"

record cache_Record =
  Rec_StatusCode :: int
  Rec_Headers :: header_map
  Rec_Body :: "string option"
  Rec_ETag :: string
  Rec_LastModified :: go_time
  Rec_VaryHeaders :: "(string \<times> string) list option"

record cacheRecord =
  cr_StatusCode :: int
  cr_Headers :: header_map
  cr_Body :: "string option"
  cr_ETag :: string
  cr_LastModified :: go_time
  cr_VaryHeaders :: "(string \<times> string) list option"

definition DefaultCacheStoreConfig :: cache_store_config where
  "DefaultCacheStoreConfig = \<lparr>csc_KeyPrefix = ''''\<rparr>"

definition NewCacheStore :: "'w cache_client \<Rightarrow> cache_store_config list \<Rightarrow> 'w cache_store" where
  "NewCacheStore client cfg =
     (let c = DefaultCacheStoreConfig;
          c = (case cfg of
                 [] \<Rightarrow> c
               | userCfg # _ \<Rightarrow>
                   if csc_KeyPrefix userCfg \<noteq> '''' then c\<lparr>csc_KeyPrefix := csc_KeyPrefix userCfg\<rparr> else c)
      in \<lparr>cs_client = client, cs_prefix = csc_KeyPrefix c\<rparr>)"

definition Cache_makeKey :: "'w cache_store \<Rightarrow> string \<Rightarrow> string" where
  "Cache_makeKey s key = (if cs_prefix s \<noteq> '''' then cs_prefix s @ '':'' @ key else key)"

section \<open>The record in JSON\<close>

definition json_of_cacheRecord :: "cacheRecord \<Rightarrow> json option" where
  "json_of_cacheRecord r =
     do {
       t \<leftarrow> print_time (cr_LastModified r);
       Some (JObj [(''status_code'', JNum (format_int (cr_StatusCode r))),
         (''headers'', enc_map enc_strings (cr_Headers r)),
         (''body'', enc_bytes (cr_Body r)),
         (''etag'', JStr (cr_ETag r)),
         (''last_modified'', JStr t),
         (''vary_headers'', enc_map JStr (cr_VaryHeaders r))])
     }"

definition cacheRecord_field :: "string \<Rightarrow> json \<Rightarrow> cacheRecord \<Rightarrow> cacheRecord option" where
  "cacheRecord_field name x r =
     (if name = ''status_code'' then map_option (\<lambda>v. r\<lparr>cr_StatusCode := v\<rparr>) (dec_int (cr_StatusCode r) x)
      else if name = ''headers'' then map_option (\<lambda>v. r\<lparr>cr_Headers := v\<rparr>) (dec_map dec_strings (cr_Headers r) x)
      else if name = ''body'' then map_option (\<lambda>v. r\<lparr>cr_Body := v\<rparr>) (dec_bytes x)
      else if name = ''etag'' then map_option (\<lambda>v. r\<lparr>cr_ETag := v\<rparr>) (dec_string (cr_ETag r) x)
      else if name = ''last_modified'' then
        map_option (\<lambda>v. r\<lparr>cr_LastModified := v\<rparr>) (dec_time (cr_LastModified r) x)
      else if name = ''vary_headers'' then
        map_option (\<lambda>v. r\<lparr>cr_VaryHeaders := v\<rparr>) (dec_map (dec_string '''') (cr_VaryHeaders r) x)
      else Some r)"

definition zero_cacheRecord :: cacheRecord where
  "zero_cacheRecord = \<lparr>cr_StatusCode = 0, cr_Headers = None, cr_Body = None, cr_ETag = '''',
     cr_LastModified = zero_time, cr_VaryHeaders = None\<rparr>"

definition encode_cache :: "cache_Record \<Rightarrow> string res" where
  "encode_cache record =
     (let redisRecord = \<lparr>cr_StatusCode = Rec_StatusCode record, cr_Headers = Rec_Headers record,
            cr_Body = Rec_Body record, cr_ETag = Rec_ETag record,
            cr_LastModified = Rec_LastModified record, cr_VaryHeaders = Rec_VaryHeaders record\<rparr>
      in case marshal (json_of_cacheRecord redisRecord) of
           Inl err \<Rightarrow> Inl (Wrapf ''failed to marshal cache record'' err)
         | Inr data \<Rightarrow> Inr data)"

definition decode_cache :: "string \<Rightarrow> cache_Record res" where
  "decode_cache data =
     (case unmarshal cacheRecord_field zero_cacheRecord data of
        Inl err \<Rightarrow> Inl (Wrapf ''failed to unmarshal cache record'' err)
      | Inr r \<Rightarrow> Inr \<lparr>Rec_StatusCode = cr_StatusCode r, Rec_Headers = cr_Headers r, Rec_Body = cr_Body r,
          Rec_ETag = cr_ETag r, Rec_LastModified = cr_LastModified r, Rec_VaryHeaders = cr_VaryHeaders r\<rparr>)"

section \<open>Operations\<close>

definition Cache_Get :: "'w cache_store \<Rightarrow> string \<Rightarrow> ('w, cache_Record option) act" where
  "Cache_Get s key w =
     (let (r, w') = c_get (cs_client s) (Cache_makeKey s key) w
      in (case r of
            Inl err \<Rightarrow> if errors_is err RedisNil then Inr None else Inl err
          | Inr data \<Rightarrow> (case decode_cache data of Inl err \<Rightarrow> Inl err | Inr x \<Rightarrow> Inr (Some x)), w'))"

definition Cache_Set :: "'w cache_store \<Rightarrow> string \<Rightarrow> cache_Record \<Rightarrow> duration \<Rightarrow> ('w, unit) act" where
  "Cache_Set s key record ttl w =
     (case encode_cache record of
        Inl err \<Rightarrow> (Inl err, w)
      | Inr data \<Rightarrow> c_set (cs_client s) (Cache_makeKey s key) data ttl w)"

definition Cache_Delete :: "'w cache_store \<Rightarrow> string \<Rightarrow> ('w, unit) act" where
  "Cache_Delete s key w =
     (let (r, w') = c_del (cs_client s) [Cache_makeKey s key] w
      in (case r of Inl err \<Rightarrow> Inl err | Inr _ \<Rightarrow> Inr (), w'))"

definition Cache_Close :: "'w cache_store \<Rightarrow> ('w, unit) act" where
  "Cache_Close s w = c_close (cs_client s) w"

section \<open>The store as a record store\<close>

abbreviation Cache_strings :: "'w cache_store \<Rightarrow> 'w storage_ops" where
  "Cache_strings s \<equiv> raw_ops (cs_client s) (Cache_makeKey s)"

lemma Cache_key_inj: "inj (Cache_makeKey s)"
  by (simp add: inj_def Cache_makeKey_def)

lemma Cache_Get_rec: "Cache_Get s k = rec_get (Cache_strings s) decode_cache k"
  by (simp add: fun_eq_iff Cache_Get_def rec_get_def raw_get_def Let_def case_prod_unfold split: sum.split)

lemma Cache_Set_rec: "Cache_Set s k = rec_set (Cache_strings s) encode_cache k"
  by (simp add: fun_eq_iff Cache_Set_def rec_set_def split: sum.split)

lemma Cache_Delete_rec: "Cache_Delete s k = so_delete (Cache_strings s) k"
  by (simp add: fun_eq_iff Cache_Delete_def nx_unlock_def)

text \<open>
  A record with a text: an integer in range, a time with an RFC 3339 text, maps in their canonical form
  whose keys are valid UTF-8. Reading its text cleans the strings in it.
\<close>

definition clean_map :: "('v \<Rightarrow> 'v) \<Rightarrow> (string \<times> 'v) list option \<Rightarrow> (string \<times> 'v) list option" where
  "clean_map f = map_option (map (\<lambda>(k, v). (k, f v)))"

definition map_ok :: "(string \<times> 'v) list option \<Rightarrow> bool" where
  "map_ok m = (case m of None \<Rightarrow> True | Some m \<Rightarrow> sorted_map m \<and> (\<forall>k \<in> fst ` set m. valid_utf8 k))"

definition cache_record_ok :: "cache_Record \<Rightarrow> bool" where
  "cache_record_ok r \<longleftrightarrow> in_i64 (Rec_StatusCode r) \<and> time_ok (Rec_LastModified r) \<and>
     map_ok (Rec_Headers r) \<and> map_ok (Rec_VaryHeaders r)"

definition clean_cache_record :: "cache_Record \<Rightarrow> cache_Record" where
  "clean_cache_record r = r\<lparr>Rec_Headers := clean_map clean_strings (Rec_Headers r),
     Rec_ETag := to_valid (Rec_ETag r), Rec_VaryHeaders := clean_map to_valid (Rec_VaryHeaders r)\<rparr>"

lemma cache_names:
  "lower ''status_code'' = ''status_code''" "lower ''headers'' = ''headers''" "lower ''body'' = ''body''"
  "lower ''etag'' = ''etag''" "lower ''last_modified'' = ''last_modified''"
  "lower ''vary_headers'' = ''vary_headers''"
  by code_simp+

lemma dec_enc_map:
  assumes "map_ok m" and "\<And>v. f (clean (e v)) = Some (g v)"
  shows "dec_map f None (clean (enc_map e m)) = Some (clean_map g m)"
  using dec_map_encoded [of _ f e g] assms by (cases m) (auto simp: map_ok_def clean_map_def)

lemma decode_encode_cache:
  assumes "cache_record_ok r"
  shows "stored encode_cache decode_cache r (clean_cache_record r)"
proof -
  obtain t where t: "print_time (Rec_LastModified r) = Some t" "parse_time t = Some (Rec_LastModified r)"
    using parse_print_time assms by (auto simp: cache_record_ok_def)
  let ?ms = "[(''status_code'', JNum (format_int (Rec_StatusCode r))),
         (''headers'', enc_map enc_strings (Rec_Headers r)), (''body'', enc_bytes (Rec_Body r)),
         (''etag'', JStr (Rec_ETag r)), (''last_modified'', JStr t),
         (''vary_headers'', enc_map JStr (Rec_VaryHeaders r))]"
  let ?r = "\<lparr>cr_StatusCode = Rec_StatusCode r, cr_Headers = clean_map clean_strings (Rec_Headers r),
    cr_Body = Rec_Body r, cr_ETag = to_valid (Rec_ETag r), cr_LastModified = Rec_LastModified r,
    cr_VaryHeaders = clean_map to_valid (Rec_VaryHeaders r)\<rparr>"
  have "encode_cache r = Inr (print_json (JObj ?ms))"
    by (simp add: encode_cache_def marshal_def json_of_cacheRecord_def t(1))
  moreover have "unmarshal cacheRecord_field zero_cacheRecord (print_json (JObj ?ms)) = Inr ?r"
    using assms t(2)
    by (intro unmarshal_print)
      (simp_all add: cache_names valid_name valid_time [OF t(1)] cacheRecord_field_def
        zero_cacheRecord_def cache_record_ok_def dec_enc_map numbers_ok_map del: enc_map.simps dec_int.simps)
  ultimately show ?thesis
    by (simp add: stored_def decode_cache_def clean_cache_record_def)
qed

section \<open>Over any Redis client\<close>

locale cache_backed = redis_kv view late elapse "cs_client st" px
  for view :: "'w \<Rightarrow> redis_view" and late elapse and st :: "'w cache_store" and px

sublocale cache_backed \<subseteq> keyed: keyed_redis view late elapse "cs_client st" px "Cache_makeKey st"
  by unfold_locales (rule Cache_key_inj)

sublocale cache_backed \<subseteq> records: record_store "\<lambda>w. keyed_view (Cache_makeKey st) (view w)" late elapse
    "Cache_strings st" px encode_cache decode_cache cache_record_ok clean_cache_record
  by (intro record_store.intro record_store_axioms.intro keyed.is_storage decode_encode_cache)

context cache_backed
begin

lemma is_records:
  "record_store (\<lambda>w. keyed_view (Cache_makeKey st) (view w)) late elapse (Cache_strings st) px
     encode_cache decode_cache cache_record_ok clean_cache_record"
  by (rule records.record_store_axioms)

end

text \<open>What the cache shows of the server, and a run of its operations.\<close>

abbreviation cache_view :: "'w cache_store \<Rightarrow> redis_view \<Rightarrow> storage_view" where
  "cache_view s \<equiv> keyed_view (Cache_makeKey s)"

fun cache_step ::
  "'w cache_store \<Rightarrow> (duration \<Rightarrow> 'w \<Rightarrow> 'w) \<Rightarrow> cache_Record record_op \<Rightarrow> 'w \<Rightarrow> 'w" where
  "cache_step s elapse (RecGet k) w = snd (Cache_Get s k w)"
| "cache_step s elapse (RecSet k x ttl) w = snd (Cache_Set s k x ttl w)"
| "cache_step s elapse (RecDelete k) w = snd (Cache_Delete s k w)"
| "cache_step s elapse (RecWait d) w = elapse d w"

lemma cache_step_rec:
  "cache_step s elapse = rec_step (Cache_strings s) encode_cache decode_cache elapse"
proof (intro ext)
  show "cache_step s elapse x w = rec_step (Cache_strings s) encode_cache decode_cache elapse x w" for x w
    by (cases x) (simp_all add: Cache_Get_rec Cache_Set_rec Cache_Delete_rec)
qed

definition cache_run ::
  "'w cache_store \<Rightarrow> (duration \<Rightarrow> 'w \<Rightarrow> 'w) \<Rightarrow> cache_Record record_op list \<Rightarrow> 'w \<Rightarrow> 'w" where
  "cache_run s elapse os w = fold (cache_step s elapse) os w"

lemma cache_run_rec: "cache_run s elapse = rec_run (Cache_strings s) encode_cache decode_cache elapse"
  by (simp add: fun_eq_iff cache_run_def rec_run_def cache_step_rec)

context cache_backed
begin

lemma cache_step_changes:
  assumes "rv_up (view w)" and "\<forall>k x ttl. op = RecSet k x ttl \<longrightarrow> 0 \<le> ttl" and "\<forall>d. op \<noteq> RecWait d"
  shows "changes_under (Cache_makeKey st) (view w) (view (cache_step st elapse op w))"
proof (cases op)
  case (RecGet k)
  then show ?thesis
    by (simp add: Cache_Get_def Let_def case_prod_unfold get_view [OF assms(1)])
next
  case (RecSet k x ttl)
  then show ?thesis
    using assms(2) by (auto simp: Cache_Set_def set_view [OF assms(1)] split: sum.split)
next
  case (RecDelete k)
  then show ?thesis
    by (simp add: Cache_Delete_def Let_def case_prod_unfold del_view [OF assms(1)])
qed (use assms(3) in simp)

end

section \<open>A cache on the concrete server\<close>

text \<open>The cache of \<open>examples/middleware/cache\<close>.\<close>

definition demo_cache :: "redis_view cache_store" where
  "demo_cache = NewCacheStore srv_cache_client [\<lparr>csc_KeyPrefix = ''zerohttp:cache''\<rparr>]"

lemma demo_cache_sel [simp]: "cs_client demo_cache = srv_cache_client" "cs_prefix demo_cache = ''zerohttp:cache''"
  by (simp_all add: demo_cache_def NewCacheStore_def Let_def)

interpretation demo_cache: cache_backed "\<lambda>v. v" late_at "age late_at" demo_cache wire_ms
  unfolding cache_backed_def demo_cache_sel by (rule srv_cache.redis_kv_axioms)

lemma demo_cache_ok [simp]: "sv_ok (cache_view s (empty_server t))"
  by (simp add: keyed_view_def)

end
