(* ===== verification/Cache_Properties.thy ===== *)
theory Cache_Properties
  imports Cache
begin

text \<open>The properties of the response cache.\<close>

text \<open>All strings of a record are valid UTF-8.\<close>

definition cache_strings_valid :: "cache_Record \<Rightarrow> bool" where
  "cache_strings_valid r \<longleftrightarrow> valid_utf8 (Rec_ETag r) \<and>
     (case Rec_Headers r of None \<Rightarrow> True | Some m \<Rightarrow>
        \<forall>(k, vs) \<in> set m. case vs of None \<Rightarrow> True | Some vs \<Rightarrow> list_all valid_utf8 vs) \<and>
     (case Rec_VaryHeaders r of None \<Rightarrow> True | Some m \<Rightarrow> \<forall>(k, v) \<in> set m. valid_utf8 v)"

lemma map_eq_same: "map f xs = xs \<longleftrightarrow> (\<forall>x \<in> set xs. f x = x)"
  by (induction xs) auto

lemma clean_map_same: "clean_map f m = m \<longleftrightarrow> (case m of None \<Rightarrow> True | Some m \<Rightarrow> \<forall>(k, v) \<in> set m. f v = v)"
  by (cases m) (auto simp: clean_map_def map_eq_same)

lemma clean_strings_same: "clean_strings vs = vs \<longleftrightarrow> (case vs of None \<Rightarrow> True | Some vs \<Rightarrow> list_all valid_utf8 vs)"
  by (cases vs) (auto simp: clean_strings_def map_eq_same list_all_iff valid_utf8_def)

lemma clean_cache_same: "clean_cache_record r = r \<longleftrightarrow> cache_strings_valid r"
  by (cases r) (auto simp: clean_cache_record_def cache_strings_valid_def clean_map_same
      clean_strings_same valid_utf8_def split: option.split)

definition demo_response :: "string \<Rightarrow> cache_Record" where
  "demo_response v = \<lparr>Rec_StatusCode = 200, Rec_Headers = Some [(''X-Name'', Some [v])], Rec_Body = Some ''{}'',
     Rec_ETag = ''v1'', Rec_LastModified = zero_time, Rec_VaryHeaders = None\<rparr>"

lemma zero_time_ok: "time_ok zero_time"
  by (simp add: time_ok_def zero_time_def local_day_def epoch_days_def days_before_def)

lemma demo_response_ok [simp]: "cache_record_ok (demo_response v)"
proof -
  have "valid_utf8 ''X-Name''" by (rule ascii_valid) simp
  then show ?thesis
    by (simp add: cache_record_ok_def demo_response_def zero_time_ok map_ok_def sorted_map_def in_i64_def)
qed

text \<open>
  C14: what a reader of the cache sees. If a record's status fits 64 bits, its time has an RFC 3339
  text and its maps have valid UTF-8 keys, Set stores it; and after any sequence of Get, Set and
  Delete on other keys, Get on its key returns it, with U+FFFD in the place of every byte of a header
  value or of the ETag that is not part of valid UTF-8, if the time to live is 0 or has not passed,
  and a miss once it has passed.
\<close>

theorem cache_set_get:
  assumes "cache_backed view late elapse s px" and "sv_ok (cache_view s (view w))"
    and "cache_record_ok r" and "0 \<le> ttl" and "list_all (rec_spares k) os"
  shows "fst (Cache_Set s k r ttl w) = Inr () \<and>
    (ttl = 0 \<or> rec_waited os < px ttl \<longrightarrow>
      fst (Cache_Get s k (cache_run s elapse os (snd (Cache_Set s k r ttl w)))) =
        Inr (Some (clean_cache_record r))) \<and>
    (0 < ttl \<and> px ttl < rec_waited os \<longrightarrow>
      fst (Cache_Get s k (cache_run s elapse os (snd (Cache_Set s k r ttl w)))) = Inr None)"
  using record_store.rec_set_ok [OF cache_backed.is_records [OF assms(1)] assms(2-4)]
    record_store.set_run_get [OF cache_backed.is_records [OF assms(1)] assms(2-5)]
  by (simp add: Cache_Get_rec Cache_Set_rec cache_run_rec)

theorem cache_set_get_witness:
  "fst (Cache_Get demo_cache ''/a'' (cache_run demo_cache (age late_at)
     [RecWait second, RecSet ''/b'' (demo_response ''y'') 0, RecGet ''/c'', RecDelete ''/d'']
     (snd (Cache_Set demo_cache ''/a'' (demo_response ''x'') (30 * second) (empty_server 0))))) =
     Inr (Some (clean_cache_record (demo_response ''x'')))"
  using cache_set_get [OF demo_cache.cache_backed_axioms, of "empty_server 0" "demo_response ''x''" "30 * second"
    "''/a''" "[RecWait second, RecSet ''/b'' (demo_response ''y'') 0, RecGet ''/c'', RecDelete ''/d'']"]
  by (simp add: wire_ms_exact duration_defs)

text \<open>
  C37: when the cache is faithful. A record read straight after it was written is the record that was
  written exactly if every header value, the ETag and every Vary value is valid UTF-8; otherwise the
  response that is served from the cache differs from the one that was cached, and no error says so.
\<close>

theorem cache_faithful_iff_utf8:
  assumes "cache_backed view late elapse s px" and "sv_ok (cache_view s (view w))"
    and "cache_record_ok r" and "0 \<le> ttl"
  shows "fst (Cache_Set s k r ttl w) = Inr () \<and>
    (fst (Cache_Get s k (snd (Cache_Set s k r ttl w))) = Inr (Some r) \<longleftrightarrow> cache_strings_valid r)"
proof -
  note R = cache_backed.is_records [OF assms(1)]
  have "0 < px ttl" if "0 < ttl"
    using kv_storage.px_pos [OF record_store.axioms(1) [OF R] that] .
  then have "ttl = 0 \<or> rec_waited ([] :: cache_Record record_op list) < px ttl"
    using assms(4) by (cases "ttl = 0") simp_all
  from record_store.set_run_get(1) [OF R assms(2-4) _ this, of k]
  show ?thesis
    using record_store.rec_set_ok [OF R assms(2-4)]
    by (simp add: Cache_Get_rec Cache_Set_rec rec_run_def clean_cache_same [symmetric])
qed

theorem cache_faithful_iff_utf8_witness:
  "fst (Cache_Get demo_cache ''/a''
     (snd (Cache_Set demo_cache ''/a'' (demo_response [CHR 0xE9]) second (empty_server 0)))) \<noteq>
     Inr (Some (demo_response [CHR 0xE9]))"
proof -
  have "\<not> valid_utf8 [CHR 0xE9]" by code_simp
  then have "\<not> cache_strings_valid (demo_response [CHR 0xE9])"
    by (simp add: cache_strings_valid_def demo_response_def)
  then show ?thesis
    using cache_faithful_iff_utf8 [OF demo_cache.cache_backed_axioms, of "empty_server 0"
      "demo_response [CHR 0xE9]" second "''/a''"]
    by (simp add: second_def)
qed

text \<open>
  Errors are neither misses nor hits, for any client whatever. Get reports a miss exactly if the
  client said \<open>redis.Nil\<close>, a hit exactly if it gave a text that decodes to the record; anything else is
  an error. Set of a record whose time has no RFC 3339 text fails without a command, and otherwise
  answers what the client's SET answers.
\<close>

theorem cache_errors:
  "(fst (Cache_Get s k w) = Inr None \<longleftrightarrow>
      (\<exists>e. fst (c_get (cs_client s) (Cache_makeKey s k) w) = Inl e \<and> errors_is e RedisNil)) \<and>
   (fst (Cache_Get s k w) = Inr (Some r) \<longleftrightarrow>
      (\<exists>data. fst (c_get (cs_client s) (Cache_makeKey s k) w) = Inr data \<and> decode_cache data = Inr r)) \<and>
   (print_time (Rec_LastModified r) = None \<longrightarrow>
      Cache_Set s k r ttl w = (Inl (Wrapf ''failed to marshal cache record'' json_error), w)) \<and>
   (print_time (Rec_LastModified r) \<noteq> None \<longrightarrow>
      (\<exists>data. Cache_Set s k r ttl w = c_set (cs_client s) (Cache_makeKey s k) data ttl w))"
  by (auto simp: Cache_Get_def Cache_Set_def Let_def case_prod_unfold encode_cache_def marshal_def
      json_of_cacheRecord_def split: sum.splits if_splits option.split)

text \<open>A year with five digits.\<close>

definition far_future :: cache_Record where
  "far_future = (demo_response '''')\<lparr>Rec_LastModified :=
     \<lparr>gt_instant = 400000000000 * second, gt_offset = 0\<rparr>\<rparr>"

theorem cache_errors_witness:
  "Cache_Set demo_cache ''/a'' far_future second (empty_server 0) =
     (Inl (Wrapf ''failed to marshal cache record'' json_error), empty_server 0)"
proof -
  have "print_time (Rec_LastModified far_future) = None"
    by (simp add: far_future_def print_time_def local_day_def epoch_days_def days_before_def second_def)
  then show ?thesis
    using cache_errors [where r = far_future and s = demo_cache and k = "''/a''" and w = "empty_server 0"
        and ttl = second]
    by simp
qed

end
