(* ===== verification/Idempotency.thy ===== *)
theory Idempotency
  imports Redis_Server Keyed_Redis Record_Store Json_Struct
begin

text \<open>
  \<open>middleware/idempotency/store.go\<close>: the idempotency store on Redis, records in JSON under the
  prefixed key and a lock under the same key with the suffix ":lock". \<open>idempotency_Record\<close> is the
  record of zerohttp (the fields that the store copies), \<open>redisRecord\<close> its JSON twin.
\<close>

section \<open>The store\<close>

record idempotency_store_config =
  isc_KeyPrefix :: string
  isc_LockTTL :: duration

record 'w idempotency_store =
  is_client :: "'w idempotency_client"
  is_keyPrefix :: string
  is_lockTTL :: duration

record idempotency_Record =
  IRec_StatusCode :: int
  IRec_Headers :: "string list option"
  IRec_Body :: "string option"
  IRec_CreatedAt :: go_time

record redisRecord =
  ir_StatusCode :: int
  ir_Headers :: "string list option"
  ir_Body :: "string option"
  ir_CreatedAt :: go_time

definition DefaultIdempotencyStoreConfig :: idempotency_store_config where
  "DefaultIdempotencyStoreConfig = \<lparr>isc_KeyPrefix = '''', isc_LockTTL = 30 * second\<rparr>"

definition NewIdempotencyStore ::
  "'w idempotency_client \<Rightarrow> idempotency_store_config list \<Rightarrow> 'w idempotency_store" where
  "NewIdempotencyStore client cfg =
     (let c = DefaultIdempotencyStoreConfig;
          c = (case cfg of
                 [] \<Rightarrow> c
               | u # _ \<Rightarrow>
                   (let c = (if isc_KeyPrefix u \<noteq> '''' then c\<lparr>isc_KeyPrefix := isc_KeyPrefix u\<rparr> else c)
                    in if isc_LockTTL u \<noteq> 0 then c\<lparr>isc_LockTTL := isc_LockTTL u\<rparr> else c))
      in \<lparr>is_client = client, is_keyPrefix = isc_KeyPrefix c, is_lockTTL = isc_LockTTL c\<rparr>)"

definition Idempotency_makeKey :: "'w idempotency_store \<Rightarrow> string \<Rightarrow> string" where
  "Idempotency_makeKey s key = (if is_keyPrefix s \<noteq> '''' then is_keyPrefix s @ '':'' @ key else key)"

definition Idempotency_makeLockKey :: "'w idempotency_store \<Rightarrow> string \<Rightarrow> string" where
  "Idempotency_makeLockKey s key = Idempotency_makeKey s key @ '':lock''"

section \<open>The record in JSON\<close>

definition json_of_redisRecord :: "redisRecord \<Rightarrow> json option" where
  "json_of_redisRecord r =
     do {
       t \<leftarrow> print_time (ir_CreatedAt r);
       Some (JObj [(''status_code'', JNum (format_int (ir_StatusCode r))),
         (''headers'', enc_strings (ir_Headers r)), (''body'', enc_bytes (ir_Body r)),
         (''created_at'', JStr t)])
     }"

definition redisRecord_field :: "string \<Rightarrow> json \<Rightarrow> redisRecord \<Rightarrow> redisRecord option" where
  "redisRecord_field name x r =
     (if name = ''status_code'' then map_option (\<lambda>v. r\<lparr>ir_StatusCode := v\<rparr>) (dec_int (ir_StatusCode r) x)
      else if name = ''headers'' then map_option (\<lambda>v. r\<lparr>ir_Headers := v\<rparr>) (dec_strings x)
      else if name = ''body'' then map_option (\<lambda>v. r\<lparr>ir_Body := v\<rparr>) (dec_bytes x)
      else if name = ''created_at'' then map_option (\<lambda>v. r\<lparr>ir_CreatedAt := v\<rparr>) (dec_time (ir_CreatedAt r) x)
      else Some r)"

definition zero_redisRecord :: redisRecord where
  "zero_redisRecord = \<lparr>ir_StatusCode = 0, ir_Headers = None, ir_Body = None, ir_CreatedAt = zero_time\<rparr>"

definition encode_idempotency :: "idempotency_Record \<Rightarrow> string res" where
  "encode_idempotency record =
     (let redisRecord = \<lparr>ir_StatusCode = IRec_StatusCode record, ir_Headers = IRec_Headers record,
            ir_Body = IRec_Body record, ir_CreatedAt = IRec_CreatedAt record\<rparr>
      in case marshal (json_of_redisRecord redisRecord) of
           Inl err \<Rightarrow> Inl (Wrapf ''failed to marshal idempotency record'' err)
         | Inr data \<Rightarrow> Inr data)"

definition decode_idempotency :: "string \<Rightarrow> idempotency_Record res" where
  "decode_idempotency data =
     (case unmarshal redisRecord_field zero_redisRecord data of
        Inl err \<Rightarrow> Inl (Wrapf ''failed to unmarshal idempotency record'' err)
      | Inr r \<Rightarrow> Inr \<lparr>IRec_StatusCode = ir_StatusCode r, IRec_Headers = ir_Headers r, IRec_Body = ir_Body r,
          IRec_CreatedAt = ir_CreatedAt r\<rparr>)"

section \<open>Operations\<close>

definition Idempotency_Get ::
  "'w idempotency_store \<Rightarrow> string \<Rightarrow> ('w, idempotency_Record option) act" where
  "Idempotency_Get s key w =
     (let (r, w') = c_get (is_client s) (Idempotency_makeKey s key) w
      in (case r of
            Inl err \<Rightarrow> if errors_is err RedisNil then Inr None else Inl err
          | Inr data \<Rightarrow> (case decode_idempotency data of Inl err \<Rightarrow> Inl err | Inr x \<Rightarrow> Inr (Some x)), w'))"

definition Idempotency_Set ::
  "'w idempotency_store \<Rightarrow> string \<Rightarrow> idempotency_Record \<Rightarrow> duration \<Rightarrow> ('w, unit) act" where
  "Idempotency_Set s key record ttl w =
     (case encode_idempotency record of
        Inl err \<Rightarrow> (Inl err, w)
      | Inr data \<Rightarrow> c_set (is_client s) (Idempotency_makeKey s key) data ttl w)"

definition Idempotency_Lock :: "'w idempotency_store \<Rightarrow> string \<Rightarrow> ('w, bool) act" where
  "Idempotency_Lock s key w =
     (let lockKey = Idempotency_makeLockKey s key;
          (r, w') = c_set_args (is_client s) lockKey ''1'' \<lparr>sa_mode = ''NX'', sa_ttl = is_lockTTL s\<rparr> w
      in (case r of
            Inl err \<Rightarrow> if errors_is err RedisNil then Inr False else Inl err
          | Inr _ \<Rightarrow> Inr True, w'))"

definition Idempotency_Unlock :: "'w idempotency_store \<Rightarrow> string \<Rightarrow> ('w, unit) act" where
  "Idempotency_Unlock s key w =
     (let lockKey = Idempotency_makeLockKey s key;
          (r, w') = c_del (is_client s) [lockKey] w
      in (case r of Inl err \<Rightarrow> Inl err | Inr _ \<Rightarrow> Inr (), w'))"

definition Idempotency_Close :: "'w idempotency_store \<Rightarrow> ('w, unit) act" where
  "Idempotency_Close s w = c_close (is_client s) w"

section \<open>The store as a record store with a lock\<close>

abbreviation Idempotency_strings :: "'w idempotency_store \<Rightarrow> 'w storage_ops" where
  "Idempotency_strings s \<equiv> raw_ops (is_client s) (Idempotency_makeKey s)"

abbreviation idempotency_view :: "'w idempotency_store \<Rightarrow> redis_view \<Rightarrow> storage_view" where
  "idempotency_view s \<equiv> keyed_view (Idempotency_makeKey s)"

lemma Idempotency_key_inj: "inj (Idempotency_makeKey s)"
  by (simp add: inj_def Idempotency_makeKey_def)

lemma Idempotency_lock_key: "Idempotency_makeLockKey s k = Idempotency_makeKey s (k @ '':lock'')"
  by (simp add: Idempotency_makeLockKey_def Idempotency_makeKey_def)

lemma Idempotency_Get_rec:
  "Idempotency_Get s k = rec_get (Idempotency_strings s) decode_idempotency k"
  by (simp add: fun_eq_iff Idempotency_Get_def rec_get_def raw_get_def Let_def case_prod_unfold
      split: sum.split)

lemma Idempotency_Set_rec:
  "Idempotency_Set s k = rec_set (Idempotency_strings s) encode_idempotency k"
  by (simp add: fun_eq_iff Idempotency_Set_def rec_set_def split: sum.split)

lemma Idempotency_Lock_nx:
  "Idempotency_Lock s k = nx_lock (is_client s) (Idempotency_makeLockKey s k) (is_lockTTL s)"
  by (simp add: fun_eq_iff Idempotency_Lock_def nx_lock_def)

lemma Idempotency_Unlock_nx:
  "Idempotency_Unlock s k = nx_unlock (is_client s) (Idempotency_makeLockKey s k)"
  by (simp add: fun_eq_iff Idempotency_Unlock_def nx_unlock_def)

definition idempotency_record_ok :: "idempotency_Record \<Rightarrow> bool" where
  "idempotency_record_ok r \<longleftrightarrow> in_i64 (IRec_StatusCode r) \<and> time_ok (IRec_CreatedAt r)"

definition clean_idempotency_record :: "idempotency_Record \<Rightarrow> idempotency_Record" where
  "clean_idempotency_record r = r\<lparr>IRec_Headers := clean_strings (IRec_Headers r)\<rparr>"

lemma idempotency_names:
  "lower ''status_code'' = ''status_code''" "lower ''headers'' = ''headers''" "lower ''body'' = ''body''"
  "lower ''created_at'' = ''created_at''"
  by code_simp+

lemma decode_encode_idempotency:
  assumes "idempotency_record_ok r"
  shows "stored encode_idempotency decode_idempotency r (clean_idempotency_record r)"
proof -
  obtain t where t: "print_time (IRec_CreatedAt r) = Some t" "parse_time t = Some (IRec_CreatedAt r)"
    using parse_print_time assms by (auto simp: idempotency_record_ok_def)
  let ?ms = "[(''status_code'', JNum (format_int (IRec_StatusCode r))),
         (''headers'', enc_strings (IRec_Headers r)), (''body'', enc_bytes (IRec_Body r)),
         (''created_at'', JStr t)]"
  let ?r = "\<lparr>ir_StatusCode = IRec_StatusCode r, ir_Headers = clean_strings (IRec_Headers r),
    ir_Body = IRec_Body r, ir_CreatedAt = IRec_CreatedAt r\<rparr>"
  have "encode_idempotency r = Inr (print_json (JObj ?ms))"
    by (simp add: encode_idempotency_def marshal_def json_of_redisRecord_def t(1))
  moreover have "unmarshal redisRecord_field zero_redisRecord (print_json (JObj ?ms)) = Inr ?r"
    using assms t(2)
    by (intro unmarshal_print)
      (simp_all add: idempotency_names valid_name valid_time [OF t(1)] redisRecord_field_def
        zero_redisRecord_def idempotency_record_ok_def del: dec_int.simps)
  ultimately show ?thesis
    by (simp add: stored_def decode_idempotency_def clean_idempotency_record_def)
qed

section \<open>Over any Redis client\<close>

locale idempotency_backed = redis_nx view late elapse "is_client st" px
  for view :: "'w \<Rightarrow> redis_view" and late elapse and st :: "'w idempotency_store" and px

sublocale idempotency_backed \<subseteq> keyed: keyed_redis view late elapse "is_client st" px
    "Idempotency_makeKey st"
  by unfold_locales (rule Idempotency_key_inj)

sublocale idempotency_backed \<subseteq> records: record_store "\<lambda>w. idempotency_view st (view w)" late elapse
    "Idempotency_strings st" px encode_idempotency decode_idempotency idempotency_record_ok
    clean_idempotency_record
  by (intro record_store.intro record_store_axioms.intro keyed.is_storage decode_encode_idempotency)

context idempotency_backed
begin

lemma is_records:
  "record_store (\<lambda>w. idempotency_view st (view w)) late elapse (Idempotency_strings st) px
     encode_idempotency decode_idempotency idempotency_record_ok clean_idempotency_record"
  by (rule records.record_store_axioms)

lemma is_nx: "redis_nx view late elapse (is_client st) px"
  by unfold_locales

lemma is_lock:
  "0 < is_lockTTL st \<Longrightarrow> millisecond dvd is_lockTTL st \<Longrightarrow>
     redis_lock view late elapse (is_client st) px (is_lockTTL st)"
  by unfold_locales

end

text \<open>
  A run of the store: records are read and written, keys locked and unlocked, time passes. A step
  spares a key if it neither writes a record to it nor is about a lock that has it as its key.
\<close>

datatype idempotency_op =
    IGet string
  | ISet string idempotency_Record duration
  | ILock string
  | IUnlock string
  | IWait duration

fun idempotency_step ::
  "'w idempotency_store \<Rightarrow> (duration \<Rightarrow> 'w \<Rightarrow> 'w) \<Rightarrow> idempotency_op \<Rightarrow> 'w \<Rightarrow> 'w" where
  "idempotency_step s elapse (IGet k) w = snd (Idempotency_Get s k w)"
| "idempotency_step s elapse (ISet k x ttl) w = snd (Idempotency_Set s k x ttl w)"
| "idempotency_step s elapse (ILock k) w = snd (Idempotency_Lock s k w)"
| "idempotency_step s elapse (IUnlock k) w = snd (Idempotency_Unlock s k w)"
| "idempotency_step s elapse (IWait d) w = elapse d w"

definition idempotency_run ::
  "'w idempotency_store \<Rightarrow> (duration \<Rightarrow> 'w \<Rightarrow> 'w) \<Rightarrow> idempotency_op list \<Rightarrow> 'w \<Rightarrow> 'w" where
  "idempotency_run s elapse os w = fold (idempotency_step s elapse) os w"

fun idempotency_waits :: "idempotency_op \<Rightarrow> duration" where
  "idempotency_waits (IWait d) = d"
| "idempotency_waits _ = 0"

fun idempotency_spares :: "string \<Rightarrow> idempotency_op \<Rightarrow> bool" where
  "idempotency_spares k (IGet j) = True"
| "idempotency_spares k (ISet j x ttl) = (j \<noteq> k \<and> 0 \<le> ttl)"
| "idempotency_spares k (ILock j) = (j @ '':lock'' \<noteq> k)"
| "idempotency_spares k (IUnlock j) = (j @ '':lock'' \<noteq> k)"
| "idempotency_spares k (IWait d) = (0 \<le> d)"

definition idempotency_waited :: "idempotency_op list \<Rightarrow> duration" where
  "idempotency_waited os = sum_list (map idempotency_waits os)"

context idempotency_backed
begin

abbreviation iview :: "'w \<Rightarrow> storage_view" where
  "iview w \<equiv> idempotency_view st (view w)"

text \<open>Lock writes the entry of its lock key or nothing, Unlock deletes it.\<close>

lemma lock_iview:
  assumes "sv_ok (iview w)"
  shows "iview (snd (Idempotency_Lock st k w)) = iview w \<or>
    (\<exists>e. iview (snd (Idempotency_Lock st k w)) = put_entry (k @ '':lock'') e (iview w))"
proof (cases "rv_keys (view w) (Idempotency_makeLockKey st k)")
  case None
  then show ?thesis
    using nx_lock_free(2) [OF keyed_view_up [OF assms] None] assms keyed.mk_inj
    by (auto simp: Idempotency_Lock_nx Idempotency_lock_key)
next
  case (Some y)
  then show ?thesis
    using nx_lock_held(2) [OF keyed_view_up [OF assms] Some] by (simp add: Idempotency_Lock_nx)
qed

lemma quiet_lock:
  assumes "sv_ok (iview w)" and "j @ '':lock'' \<noteq> k"
  shows "quiet iview elapse k 0 w (snd (Idempotency_Lock st j w))"
  by (rule quiet_step [OF quiet_start])
    (use lock_iview [OF assms(1), of j] assms in \<open>auto simp del: keyed_view_now\<close>)

lemma quiet_unlock:
  assumes "sv_ok (iview w)" and "j @ '':lock'' \<noteq> k"
  shows "quiet iview elapse k 0 w (snd (Idempotency_Unlock st j w))"
  using keyed.storage.quiet_delete [OF assms] by (simp add: Idempotency_Unlock_nx Idempotency_lock_key)

lemma quiet_idempotency_run:
  assumes "list_all (idempotency_spares k) os" and "sv_ok (iview w)"
  shows "quiet iview elapse k (idempotency_waited os) w (idempotency_run st elapse os w)"
  unfolding idempotency_waited_def idempotency_run_def
proof (rule keyed.storage.quiet_fold [OF _ assms])
  show "quiet iview elapse k (idempotency_waits x) w (idempotency_step st elapse x w)"
    if "idempotency_spares k x" and "sv_ok (iview w)" for x w
    using that records.quiet_rec_get [OF that(2)] records.quiet_rec_set [OF that(2)] keyed.storage.quiet_elapse
      quiet_lock [OF that(2)] quiet_unlock [OF that(2)]
    by (cases x) (auto simp: Idempotency_Get_rec Idempotency_Set_rec)
qed

lemma set_run_get:
  assumes "sv_ok (iview w)" and "idempotency_record_ok x" and "0 \<le> ttl"
    and "list_all (idempotency_spares k) os"
  shows "fst (Idempotency_Set st k x ttl w) = Inr ()"
    and "ttl = 0 \<or> idempotency_waited os < px ttl \<Longrightarrow>
      fst (Idempotency_Get st k (idempotency_run st elapse os (snd (Idempotency_Set st k x ttl w)))) =
        Inr (Some (clean_idempotency_record x))"
    and "0 < ttl \<Longrightarrow> px ttl < idempotency_waited os \<Longrightarrow>
      fst (Idempotency_Get st k (idempotency_run st elapse os (snd (Idempotency_Set st k x ttl w)))) = Inr None"
proof -
  show "fst (Idempotency_Set st k x ttl w) = Inr ()"
    using records.rec_set_ok [OF assms(1-3)] by (simp add: Idempotency_Set_rec)
  note q = quiet_idempotency_run [OF assms(4) records.rec_set_sv_ok [OF assms(1,3)]]
  note get = records.set_quiet_rec_get [OF assms(1-3) q]
  show "fst (Idempotency_Get st k (idempotency_run st elapse os (snd (Idempotency_Set st k x ttl w)))) =
      Inr (Some (clean_idempotency_record x))" if "ttl = 0 \<or> idempotency_waited os < px ttl"
    using get(1) [OF that] by (simp add: Idempotency_Get_rec Idempotency_Set_rec)
  show "fst (Idempotency_Get st k (idempotency_run st elapse os (snd (Idempotency_Set st k x ttl w)))) = Inr None"
    if "0 < ttl" and "px ttl < idempotency_waited os"
    using get(2) [OF that] by (simp add: Idempotency_Get_rec Idempotency_Set_rec)
qed

end

context idempotency_backed
begin

lemma idempotency_step_changes:
  assumes "rv_up (view w)" and "\<forall>k x ttl. op = ISet k x ttl \<longrightarrow> 0 \<le> ttl" and "\<forall>d. op \<noteq> IWait d"
  shows "changes_under (Idempotency_makeKey st) (view w) (view (idempotency_step st elapse op w))"
proof (cases op)
  case (IGet k)
  then show ?thesis
    by (simp add: Idempotency_Get_def Let_def case_prod_unfold get_view [OF assms(1)])
next
  case (ISet k x ttl)
  then show ?thesis
    using assms(2) by (auto simp: Idempotency_Set_def set_view [OF assms(1)] split: sum.split)
next
  case (ILock k)
  then show ?thesis
    using nx_lock_free(2) [OF assms(1)] nx_lock_held(2) [OF assms(1)]
    by (cases "rv_keys (view w) (Idempotency_makeLockKey st k)")
      (auto simp: Idempotency_Lock_nx Idempotency_lock_key)
next
  case (IUnlock k)
  then show ?thesis
    using nx_unlock_frees(2) [OF assms(1)] by (simp add: Idempotency_Unlock_nx Idempotency_lock_key)
qed (use assms(3) in simp)

end

section \<open>A store on the concrete server\<close>

definition demo_idempotency :: "redis_view idempotency_store" where
  "demo_idempotency = NewIdempotencyStore srv_idempotency_client
     [\<lparr>isc_KeyPrefix = ''idempotency'', isc_LockTTL = 0\<rparr>]"

lemma demo_idempotency_sel [simp]:
  "is_client demo_idempotency = srv_idempotency_client" "is_keyPrefix demo_idempotency = ''idempotency''"
  "is_lockTTL demo_idempotency = 30 * second"
  by (simp_all add: demo_idempotency_def NewIdempotencyStore_def DefaultIdempotencyStoreConfig_def Let_def)

interpretation demo_idempotency: idempotency_backed "\<lambda>v. v" late_at "age late_at" demo_idempotency wire_ms
  unfolding idempotency_backed_def demo_idempotency_sel by (rule srv_nx.redis_nx_axioms)

lemma decode_lock_value:
  "decode_idempotency ''1'' = Inl (Wrapf ''failed to unmarshal idempotency record'' json_error)"
  by code_simp

end
