(* ===== verification/Idempotency_Properties.thy ===== *)
theory Idempotency_Properties
  imports Idempotency
begin

text \<open>The properties of the idempotency store.\<close>

definition demo_reply :: "string list \<Rightarrow> idempotency_Record" where
  "demo_reply hs = \<lparr>IRec_StatusCode = 201, IRec_Headers = Some hs, IRec_Body = Some ''{}'',
     IRec_CreatedAt = zero_time\<rparr>"

lemma demo_reply_ok [simp]: "idempotency_record_ok (demo_reply hs)"
  by (simp add: idempotency_record_ok_def demo_reply_def time_ok_def zero_time_def local_day_def
      epoch_days_def days_before_def in_i64_def)

lemma demo_iview_ok [simp]: "sv_ok (idempotency_view s (empty_server t))"
  by (simp add: keyed_view_def)

text \<open>
  C15: a stored reply is replayed. If the record's status fits 64 bits and its time has an RFC 3339
  text, Set stores it; and after any sequence of Get, Set, Lock and Unlock, by any number of
  processes, that neither sets its key nor locks one whose lock key it is, Get returns the record
  (with U+FFFD for each byte of a header that is not part of valid UTF-8) if the time to live is 0 or
  has not passed, and "not found" once it has passed.
\<close>

theorem idempotency_set_get:
  assumes "idempotency_backed view late elapse s px" and "sv_ok (idempotency_view s (view w))"
    and "idempotency_record_ok r" and "0 \<le> ttl" and "list_all (idempotency_spares k) os"
  shows "fst (Idempotency_Set s k r ttl w) = Inr () \<and>
    (ttl = 0 \<or> idempotency_waited os < px ttl \<longrightarrow>
      fst (Idempotency_Get s k (idempotency_run s elapse os (snd (Idempotency_Set s k r ttl w)))) =
        Inr (Some (clean_idempotency_record r))) \<and>
    (0 < ttl \<and> px ttl < idempotency_waited os \<longrightarrow>
      fst (Idempotency_Get s k (idempotency_run s elapse os (snd (Idempotency_Set s k r ttl w)))) = Inr None)"
  using idempotency_backed.set_run_get [OF assms] by blast

theorem idempotency_set_get_witness:
  "fst (Idempotency_Get demo_idempotency ''r1'' (idempotency_run demo_idempotency (age late_at)
     [ILock ''r1'', IWait second, ISet ''r2'' (demo_reply []) 0, IUnlock ''r1'', IGet ''r3'']
     (snd (Idempotency_Set demo_idempotency ''r1'' (demo_reply [''A'', ''b'']) (60 * second) (empty_server 0))))) =
     Inr (Some (clean_idempotency_record (demo_reply [''A'', ''b''])))"
  using idempotency_set_get [OF demo_idempotency.idempotency_backed_axioms, of "empty_server 0"
    "demo_reply [''A'', ''b'']" "60 * second" "''r1''"
    "[ILock ''r1'', IWait second, ISet ''r2'' (demo_reply []) 0, IUnlock ''r1'', IGet ''r3'']"]
  by (simp add: idempotency_waited_def wire_ms_exact duration_defs)

text \<open>
  C6: one request at a time. Processes that lock and unlock one key through the store, with a lock
  time to live of a positive number of whole milliseconds, and that unlock only while their lease
  runs: in every reachable state at most one of them holds an unexpired lease.
\<close>

theorem idempotency_lock_exclusive:
  assumes "idempotency_backed view late elapse s px"
    and "0 < is_lockTTL s" and "millisecond dvd is_lockTTL s"
    and "lock_ready (Idempotency_makeLockKey s k) (view w)"
    and "(lease_step (Idempotency_Lock s k) (Idempotency_Unlock s k) elapse
           (\<lambda>w. rv_clock (view w)) (is_lockTTL s))\<^sup>*\<^sup>* (lease_start w) c"
    and "holds_lease (\<lambda>w. rv_clock (view w)) c p" and "holds_lease (\<lambda>w. rv_clock (view w)) c q"
  shows "p = q"
  using redis_lock.one_lock [OF idempotency_backed.is_lock [OF assms(1-3)] assms(4) _ assms(6,7)] assms(5)
  by (simp add: Idempotency_Lock_nx Idempotency_Unlock_nx)

theorem idempotency_lock_exclusive_witness:
  "\<exists>c. (lease_step (Idempotency_Lock demo_idempotency ''r1'') (Idempotency_Unlock demo_idempotency ''r1'')
        (age late_at) rv_clock (30 * second))\<^sup>*\<^sup>* (lease_start (empty_server 0)) c \<and>
      holds_lease rv_clock c 7 \<and> \<not> holds_lease rv_clock c 8"
proof -
  let ?L = "Idempotency_Lock demo_idempotency ''r1''" and ?U = "Idempotency_Unlock demo_idempotency ''r1''"
  let ?c = "\<lparr>ls_world = snd (?L (empty_server 0)), ls_until = [7 \<mapsto> 30 * second]\<rparr>"
  have step: "lease_step ?L ?U (age late_at) rv_clock (30 * second) (lease_start (empty_server 0)) ?c"
    using lease_step.acquire [of ?L "lease_start (empty_server 0)" "snd (?L (empty_server 0))" ?U
        "age late_at" rv_clock "30 * second" 7]
    by (simp add: lease_start_def Idempotency_Lock_nx srv_nx.nx_lock_free(1) prod_eq_iff)
  have seven: "holds_lease rv_clock ?c 7"
    by (simp add: holds_lease_def Idempotency_Lock_nx srv_nx.nx_lock_clock duration_defs)
  have "lock_ready (Idempotency_makeLockKey demo_idempotency ''r1'') (empty_server 0)"
    by (simp add: lock_ready_def)
  then have "\<not> holds_lease rv_clock ?c 8"
    using idempotency_lock_exclusive [OF demo_idempotency.idempotency_backed_axioms, of "''r1''"
        "empty_server 0" ?c 7 8] step seven
    by (auto simp: duration_defs)
  then show ?thesis using step seven by blast
qed

text \<open>
  C21: a crashed holder does not block a key for ever, unless the lock has no time to live. A process
  takes the lock and never unlocks. With a positive LockTTL, every attempt to lock during that time
  is refused, and whoever polls for longer than that gets the lock; with a negative LockTTL, which the
  constructor accepts, every attempt is refused for ever.
\<close>

theorem idempotency_lock_liveness:
  assumes "idempotency_backed view late elapse s px" and "rv_up (view w)"
    and "rv_keys (view w) (Idempotency_makeLockKey s k) = None" and "list_all (\<lambda>d. 0 \<le> d) ds"
  shows "fst (Idempotency_Lock s k w) = Inr True \<and>
    (0 < is_lockTTL s \<and> px (is_lockTTL s) < sum_list ds \<longrightarrow>
      Inr True \<in> set (lock_polls (Idempotency_Lock s k) elapse ds (snd (Idempotency_Lock s k w)))) \<and>
    (0 < is_lockTTL s \<and> sum_list ds < px (is_lockTTL s) \<or> is_lockTTL s \<le> 0 \<longrightarrow>
      set (lock_polls (Idempotency_Lock s k) elapse ds (snd (Idempotency_Lock s k w))) \<subseteq> {Inr False})"
proof -
  note nx = idempotency_backed.is_nx [OF assms(1)]
  let ?w = "snd (Idempotency_Lock s k w)" and ?lk = "Idempotency_makeLockKey s k"
  let ?dl = "if 0 < is_lockTTL s then Some (rv_clock (view w) + px (is_lockTTL s)) else None"
  note lock = redis_nx.nx_lock_free [OF nx assms(2,3), of "is_lockTTL s"]
  have v: "view ?w = put_key ?lk (RString ''1'', ?dl) (view w)"
    by (simp add: Idempotency_Lock_nx lock(2) entry_until_def)
  then have up: "rv_up (view ?w)" and key: "rv_keys (view ?w) ?lk = Some (RString ''1'', ?dl)"
    and clk: "rv_clock (view ?w) = rv_clock (view w)"
    using assms(2) by simp_all
  have "Inr True \<in> set (lock_polls (Idempotency_Lock s k) elapse ds ?w)"
    if "0 < is_lockTTL s" and "px (is_lockTTL s) < sum_list ds"
    using redis_nx.polls_succeed [OF nx up, of ?lk "RString ''1''" "rv_clock (view w) + px (is_lockTTL s)" ds]
      that key clk assms(4) redis_kv.px_pos [OF redis_nx.axioms(1) [OF nx] that(1)]
    by (simp add: Idempotency_Lock_nx)
  moreover have "set (lock_polls (Idempotency_Lock s k) elapse ds ?w) \<subseteq> {Inr False}"
    if "0 < is_lockTTL s \<and> sum_list ds < px (is_lockTTL s) \<or> is_lockTTL s \<le> 0"
  proof -
    have "set (lock_polls (nx_lock (is_client s) ?lk (is_lockTTL s)) elapse ds ?w) \<subseteq> {Inr False}"
      by (rule redis_nx.polls_refused [OF nx up key assms(4)]) (use that clk in auto)
    then show ?thesis by (simp only: Idempotency_Lock_nx)
  qed
  ultimately show ?thesis using lock(1) by (simp add: Idempotency_Lock_nx)
qed

theorem idempotency_lock_liveness_witness:
  "Inr True \<in> set (lock_polls (Idempotency_Lock demo_idempotency ''r1'') (age late_at)
     (replicate 4 (10 * second)) (snd (Idempotency_Lock demo_idempotency ''r1'' (empty_server 0))))"
  using idempotency_lock_liveness [OF demo_idempotency.idempotency_backed_axioms, of "empty_server 0" "''r1''"
    "replicate 4 (10 * second)"]
  by (simp add: wire_ms_exact duration_defs sum_list_replicate list_all_iff)

text \<open>
  Lock keys live among the record keys. While k is locked, Get of the key "k:lock" is an error
  and neither a record nor "not found"; storing a record under "k:lock" makes Lock of k fail; and
  Unlock of k then deletes that record.
\<close>

theorem idempotency_lock_key_is_record_key:
  assumes "idempotency_backed view late elapse s px" and "sv_ok (idempotency_view s (view w))"
    and "rv_keys (view w) (Idempotency_makeLockKey s k) = None"
    and "idempotency_record_ok r" and "0 \<le> ttl"
  shows "fst (Idempotency_Get s (k @ '':lock'') (snd (Idempotency_Lock s k w))) =
      Inl (Wrapf ''failed to unmarshal idempotency record'' json_error) \<and>
    fst (Idempotency_Lock s k (snd (Idempotency_Set s (k @ '':lock'') r ttl w))) = Inr False \<and>
    fst (Idempotency_Get s (k @ '':lock'')
      (snd (Idempotency_Unlock s k (snd (Idempotency_Set s (k @ '':lock'') r ttl w))))) = Inr None"
proof -
  note nx = idempotency_backed.is_nx [OF assms(1)] and R = idempotency_backed.is_records [OF assms(1)]
  note K = record_store.axioms(1) [OF R] and up = keyed_view_up [OF assms(2)]
  let ?lk = "k @ '':lock''"
  let ?w = "snd (Idempotency_Lock s k w)" and ?u = "snd (Idempotency_Set s ?lk r ttl w)"
  have inj: "inj (Idempotency_makeKey s)" by (rule Idempotency_key_inj)
  have v: "idempotency_view s (view ?w) = put_entry ?lk
      (''1'', entry_until px (rv_clock (view w)) (is_lockTTL s)) (idempotency_view s (view w))"
    using redis_nx.nx_lock_free(2) [OF nx up assms(3), of "is_lockTTL s"] assms(2) inj
    by (simp add: Idempotency_Lock_nx Idempotency_lock_key)
  have "fst (Idempotency_Get s ?lk ?w) = Inl (Wrapf ''failed to unmarshal idempotency record'' json_error)"
    using record_store.rec_get_reply [OF R, of ?w ?lk] assms(2) v
    by (simp add: Idempotency_Get_rec decode_lock_value)
  moreover obtain data where u: "Idempotency_Set s ?lk r ttl w = c_set (is_client s) (Idempotency_makeLockKey s k) data ttl w"
    using record_store.stored_norm [OF R assms(4)]
    by (auto simp: stored_def Idempotency_Set_def Idempotency_lock_key)
  note set = redis_kv.set_view [OF redis_nx.axioms(1) [OF nx] up assms(5)]
  have u_ok: "sv_ok (idempotency_view s (view ?u))"
    using record_store.rec_set_sv_ok [OF R assms(2,5)] by (simp add: Idempotency_Set_rec)
  have key: "rv_keys (view ?u) (Idempotency_makeLockKey s k) = Some (RString data, expiry_at px (view w) ttl)"
    and up': "rv_up (view ?u)"
    using up by (simp_all add: u set)
  note held = redis_nx.nx_lock_held(1) [OF nx]
  have lock: "fst (Idempotency_Lock s k ?u) = Inr False"
    unfolding Idempotency_Lock_nx by (rule held [OF up' key])
  moreover have "fst (Idempotency_Get s ?lk (snd (Idempotency_Unlock s k ?u))) = Inr None"
  proof -
    define w' where "w' = ?u"
    have ok: "sv_ok (idempotency_view s (view w'))" unfolding w'_def by (rule u_ok)
    have "idempotency_view s (view (snd (Idempotency_Unlock s k w'))) = drop_entry ?lk (idempotency_view s (view w'))"
      using kv_storage.delete_sview [OF K ok, of ?lk] by (simp add: Idempotency_Unlock_nx Idempotency_lock_key)
    then show ?thesis
      using record_store.rec_get_reply [OF R, of "snd (Idempotency_Unlock s k w')" ?lk] ok
      by (simp add: Idempotency_Get_rec flip: w'_def)
  qed
  ultimately show ?thesis using lock by blast
qed

theorem idempotency_lock_key_is_record_key_witness:
  "fst (Idempotency_Lock demo_idempotency ''r1''
     (snd (Idempotency_Set demo_idempotency ''r1:lock'' (demo_reply []) second (empty_server 0)))) = Inr False"
  using idempotency_lock_key_is_record_key [OF demo_idempotency.idempotency_backed_axioms, of "empty_server 0"
    "''r1''" "demo_reply []" second]
  by (simp add: second_def)

text \<open>
  Errors are neither "not found" nor "not acquired", for any client whatever. Get answers "not
  found" and Lock "not acquired" exactly if the client said \<open>redis.Nil\<close>, Get answers with a record
  exactly if the client gave a text that decodes to it, and Set of a record whose time has no RFC 3339
  text fails without a command.
\<close>

theorem idempotency_errors:
  "(fst (Idempotency_Get s k w) = Inr None \<longleftrightarrow>
      (\<exists>e. fst (c_get (is_client s) (Idempotency_makeKey s k) w) = Inl e \<and> errors_is e RedisNil)) \<and>
   (fst (Idempotency_Lock s k w) = Inr False \<longleftrightarrow>
      (\<exists>e. fst (c_set_args (is_client s) (Idempotency_makeLockKey s k) ''1''
        \<lparr>sa_mode = ''NX'', sa_ttl = is_lockTTL s\<rparr> w) = Inl e \<and> errors_is e RedisNil)) \<and>
   (fst (Idempotency_Get s k w) = Inr (Some r) \<longleftrightarrow>
      (\<exists>data. fst (c_get (is_client s) (Idempotency_makeKey s k) w) = Inr data \<and>
        decode_idempotency data = Inr r)) \<and>
   (print_time (IRec_CreatedAt r) = None \<longrightarrow>
      Idempotency_Set s k r ttl w = (Inl (Wrapf ''failed to marshal idempotency record'' json_error), w))"
  by (auto simp: Idempotency_Get_def Idempotency_Lock_def Idempotency_Set_def Let_def case_prod_unfold
      encode_idempotency_def marshal_def json_of_redisRecord_def split: sum.splits if_splits option.split)

theorem idempotency_errors_witness:
  "fst (Idempotency_Get demo_idempotency ''r1'' ((empty_server 0)\<lparr>rv_up := False\<rparr>)) \<noteq> Inr None"
  using idempotency_errors [of demo_idempotency "''r1''" "(empty_server 0)\<lparr>rv_up := False\<rparr>"]
  by (auto simp: srv_defs refused_def srv_idempotency_client_def idempotency_client.truncate_def)

end
