(* ===== verification/Zerolog.thy ===== *)
theory Zerolog
  imports Prelude "HOL-Library.Word"
begin

text \<open>
  \<open>adapters/zerolog/logger.go\<close>: the adapter of zerolog to the logging interface of zerohttp. The
  zerolog package is a parameter, the record \<open>zerolog_lib\<close> of the functions that the adapter calls, on
  arbitrary loggers \<open>'l\<close>, events \<open>'e\<close>, contexts \<open>'c\<close> and outside world \<open>'w\<close>. The dynamic types that the
  adapter tells apart are the constructors of \<open>log_value\<close>; floating-point numbers \<open>'f\<close> and values of
  other types \<open>'x\<close> are passed on as they are.
\<close>

section \<open>The logging interface and zerolog\<close>

datatype ('f, 'x) log_value =
    LError go_error
  | LString string
  | LInt "64 word"
  | LInt8 "8 word"
  | LInt16 "16 word"
  | LInt32 "32 word"
  | LInt64 "64 word"
  | LUint "64 word"
  | LUint8 "8 word"
  | LUint16 "16 word"
  | LUint32 "32 word"
  | LUint64 "64 word"
  | LFloat32 'f
  | LFloat64 'f
  | LBool bool
  | LBytes string
  | LStrs "string list"
  | LInts "64 word list"
  | LInts64 "64 word list"
  | LOther 'x

record ('f, 'x) log_field =
  lf_Key :: string
  lf_Value :: "('f, 'x) log_value"

datatype level = DebugLevel | InfoLevel | WarnLevel | ErrorLevel | FatalLevel | PanicLevel

datatype writer = Stdout | ConsoleStdout

text \<open>A call returns, panics with a message, or ends the process with an exit code.\<close>

datatype outcome = Returned | Panics string | Exits int

text \<open>
  To make an event may already panic or end the process (zerolog does so for a disabled panic or fatal
  level), so the six makers of events are actions.
\<close>

type_synonym ('l, 'e, 'w) event_maker = "'l \<Rightarrow> 'w \<Rightarrow> (outcome + 'e) \<times> 'w"

record ('l, 'e, 'c, 'w, 'f, 'x) zerolog_lib =
  zl_New :: "writer \<Rightarrow> 'l"
  zl_Level :: "level \<Rightarrow> 'l \<Rightarrow> 'l"
  zl_Debug :: "('l, 'e, 'w) event_maker"
  zl_Info :: "('l, 'e, 'w) event_maker"
  zl_Warn :: "('l, 'e, 'w) event_maker"
  zl_Error :: "('l, 'e, 'w) event_maker"
  zl_Panic :: "('l, 'e, 'w) event_maker"
  zl_Fatal :: "('l, 'e, 'w) event_maker"
  zl_With :: "'l \<Rightarrow> 'c"
  zc_Timestamp :: "'c \<Rightarrow> 'c"
  zc_Interface :: "string \<Rightarrow> ('f, 'x) log_value \<Rightarrow> 'c \<Rightarrow> 'c"
  zc_Ctx :: "'x \<Rightarrow> 'c \<Rightarrow> 'c"
  zc_Logger :: "'c \<Rightarrow> 'l"
  ze_Err :: "go_error \<Rightarrow> 'e \<Rightarrow> 'e"
  ze_Str :: "string \<Rightarrow> string \<Rightarrow> 'e \<Rightarrow> 'e"
  ze_Int :: "string \<Rightarrow> 64 word \<Rightarrow> 'e \<Rightarrow> 'e"
  ze_Int8 :: "string \<Rightarrow> 8 word \<Rightarrow> 'e \<Rightarrow> 'e"
  ze_Int16 :: "string \<Rightarrow> 16 word \<Rightarrow> 'e \<Rightarrow> 'e"
  ze_Int32 :: "string \<Rightarrow> 32 word \<Rightarrow> 'e \<Rightarrow> 'e"
  ze_Int64 :: "string \<Rightarrow> 64 word \<Rightarrow> 'e \<Rightarrow> 'e"
  ze_Uint :: "string \<Rightarrow> 64 word \<Rightarrow> 'e \<Rightarrow> 'e"
  ze_Uint8 :: "string \<Rightarrow> 8 word \<Rightarrow> 'e \<Rightarrow> 'e"
  ze_Uint16 :: "string \<Rightarrow> 16 word \<Rightarrow> 'e \<Rightarrow> 'e"
  ze_Uint32 :: "string \<Rightarrow> 32 word \<Rightarrow> 'e \<Rightarrow> 'e"
  ze_Uint64 :: "string \<Rightarrow> 64 word \<Rightarrow> 'e \<Rightarrow> 'e"
  ze_Float32 :: "string \<Rightarrow> 'f \<Rightarrow> 'e \<Rightarrow> 'e"
  ze_Float64 :: "string \<Rightarrow> 'f \<Rightarrow> 'e \<Rightarrow> 'e"
  ze_Bool :: "string \<Rightarrow> bool \<Rightarrow> 'e \<Rightarrow> 'e"
  ze_Bytes :: "string \<Rightarrow> string \<Rightarrow> 'e \<Rightarrow> 'e"
  ze_Strs :: "string \<Rightarrow> string list \<Rightarrow> 'e \<Rightarrow> 'e"
  ze_Ints :: "string \<Rightarrow> 64 word list \<Rightarrow> 'e \<Rightarrow> 'e"
  ze_Ints64 :: "string \<Rightarrow> 64 word list \<Rightarrow> 'e \<Rightarrow> 'e"
  ze_Interface :: "string \<Rightarrow> ('f, 'x) log_value \<Rightarrow> 'e \<Rightarrow> 'e"
  ze_Msg :: "'e \<Rightarrow> string \<Rightarrow> 'w \<Rightarrow> outcome \<times> 'w"

section \<open>The adapter\<close>

record 'l logger =
  lg_logger :: 'l

definition NewLogger :: "'l \<Rightarrow> 'l logger" where
  "NewLogger l = \<lparr>lg_logger = l\<rparr>"

definition NewDefaultLogger :: "('l, 'e, 'c, 'w, 'f, 'x) zerolog_lib \<Rightarrow> 'l logger" where
  "NewDefaultLogger lib =
     \<lparr>lg_logger = zc_Logger lib (zc_Timestamp lib (zl_With lib (zl_New lib Stdout)))\<rparr>"

definition NewConsole :: "('l, 'e, 'c, 'w, 'f, 'x) zerolog_lib \<Rightarrow> 'l logger" where
  "NewConsole lib =
     \<lparr>lg_logger = zc_Logger lib (zc_Timestamp lib (zl_With lib (zl_New lib ConsoleStdout)))\<rparr>"

definition NewConsoleWithLevel :: "('l, 'e, 'c, 'w, 'f, 'x) zerolog_lib \<Rightarrow> level \<Rightarrow> 'l logger" where
  "NewConsoleWithLevel lib lvl =
     \<lparr>lg_logger = zc_Logger lib (zc_Timestamp lib (zl_With lib (zl_Level lib lvl (zl_New lib ConsoleStdout))))\<rparr>"

definition add_field ::
  "('l, 'e, 'c, 'w, 'f, 'x) zerolog_lib \<Rightarrow> ('f, 'x) log_field \<Rightarrow> 'e \<Rightarrow> 'e" where
  "add_field lib field =
     (case lf_Value field of
        LError v \<Rightarrow> ze_Err lib v
      | LString v \<Rightarrow> ze_Str lib (lf_Key field) v
      | LInt v \<Rightarrow> ze_Int lib (lf_Key field) v
      | LInt8 v \<Rightarrow> ze_Int8 lib (lf_Key field) v
      | LInt16 v \<Rightarrow> ze_Int16 lib (lf_Key field) v
      | LInt32 v \<Rightarrow> ze_Int32 lib (lf_Key field) v
      | LInt64 v \<Rightarrow> ze_Int64 lib (lf_Key field) v
      | LUint v \<Rightarrow> ze_Uint lib (lf_Key field) v
      | LUint8 v \<Rightarrow> ze_Uint8 lib (lf_Key field) v
      | LUint16 v \<Rightarrow> ze_Uint16 lib (lf_Key field) v
      | LUint32 v \<Rightarrow> ze_Uint32 lib (lf_Key field) v
      | LUint64 v \<Rightarrow> ze_Uint64 lib (lf_Key field) v
      | LFloat32 v \<Rightarrow> ze_Float32 lib (lf_Key field) v
      | LFloat64 v \<Rightarrow> ze_Float64 lib (lf_Key field) v
      | LBool v \<Rightarrow> ze_Bool lib (lf_Key field) v
      | LBytes v \<Rightarrow> ze_Bytes lib (lf_Key field) v
      | LStrs v \<Rightarrow> ze_Strs lib (lf_Key field) v
      | LInts v \<Rightarrow> ze_Ints lib (lf_Key field) v
      | LInts64 v \<Rightarrow> ze_Ints64 lib (lf_Key field) v
      | LOther v \<Rightarrow> ze_Interface lib (lf_Key field) (LOther v))"

definition addFields ::
  "('l, 'e, 'c, 'w, 'f, 'x) zerolog_lib \<Rightarrow> ('f, 'x) log_field list \<Rightarrow> 'e \<Rightarrow> 'e" where
  "addFields lib fs event = fold (add_field lib) fs event"

text \<open>The body that the six methods share: make the event, add the fields, send the message.\<close>

definition log_event ::
  "('l, 'e, 'c, 'w, 'f, 'x) zerolog_lib \<Rightarrow> ('w \<Rightarrow> (outcome + 'e) \<times> 'w) \<Rightarrow> string \<Rightarrow>
     ('f, 'x) log_field list \<Rightarrow> 'w \<Rightarrow> outcome \<times> 'w" where
  "log_event lib mk msg fs w =
     (case mk w of
        (Inl stop, w) \<Rightarrow> (stop, w)
      | (Inr event, w) \<Rightarrow> ze_Msg lib (addFields lib fs event) msg w)"

definition Logger_Debug ::
  "('l, 'e, 'c, 'w, 'f, 'x) zerolog_lib \<Rightarrow> 'l logger \<Rightarrow> string \<Rightarrow> ('f, 'x) log_field list \<Rightarrow> 'w \<Rightarrow> outcome \<times> 'w" where
  "Logger_Debug lib l msg fs = log_event lib (zl_Debug lib (lg_logger l)) msg fs"

definition Logger_Info ::
  "('l, 'e, 'c, 'w, 'f, 'x) zerolog_lib \<Rightarrow> 'l logger \<Rightarrow> string \<Rightarrow> ('f, 'x) log_field list \<Rightarrow> 'w \<Rightarrow> outcome \<times> 'w" where
  "Logger_Info lib l msg fs = log_event lib (zl_Info lib (lg_logger l)) msg fs"

definition Logger_Warn ::
  "('l, 'e, 'c, 'w, 'f, 'x) zerolog_lib \<Rightarrow> 'l logger \<Rightarrow> string \<Rightarrow> ('f, 'x) log_field list \<Rightarrow> 'w \<Rightarrow> outcome \<times> 'w" where
  "Logger_Warn lib l msg fs = log_event lib (zl_Warn lib (lg_logger l)) msg fs"

definition Logger_Error ::
  "('l, 'e, 'c, 'w, 'f, 'x) zerolog_lib \<Rightarrow> 'l logger \<Rightarrow> string \<Rightarrow> ('f, 'x) log_field list \<Rightarrow> 'w \<Rightarrow> outcome \<times> 'w" where
  "Logger_Error lib l msg fs = log_event lib (zl_Error lib (lg_logger l)) msg fs"

definition Logger_Panic ::
  "('l, 'e, 'c, 'w, 'f, 'x) zerolog_lib \<Rightarrow> 'l logger \<Rightarrow> string \<Rightarrow> ('f, 'x) log_field list \<Rightarrow> 'w \<Rightarrow> outcome \<times> 'w" where
  "Logger_Panic lib l msg fs = log_event lib (zl_Panic lib (lg_logger l)) msg fs"

definition Logger_Fatal ::
  "('l, 'e, 'c, 'w, 'f, 'x) zerolog_lib \<Rightarrow> 'l logger \<Rightarrow> string \<Rightarrow> ('f, 'x) log_field list \<Rightarrow> 'w \<Rightarrow> outcome \<times> 'w" where
  "Logger_Fatal lib l msg fs = log_event lib (zl_Fatal lib (lg_logger l)) msg fs"

definition Logger_WithFields ::
  "('l, 'e, 'c, 'w, 'f, 'x) zerolog_lib \<Rightarrow> 'l logger \<Rightarrow> ('f, 'x) log_field list \<Rightarrow> 'l logger" where
  "Logger_WithFields lib l fs =
     (let ctx = zl_With lib (lg_logger l);
          ctx = fold (\<lambda>field. zc_Interface lib (lf_Key field) (lf_Value field)) fs ctx
      in \<lparr>lg_logger = zc_Logger lib ctx\<rparr>)"

definition Logger_WithContext ::
  "('l, 'e, 'c, 'w, 'f, 'x) zerolog_lib \<Rightarrow> 'l logger \<Rightarrow> 'x \<Rightarrow> 'l logger" where
  "Logger_WithContext lib l ctx = \<lparr>lg_logger = zc_Logger lib (zc_Ctx lib ctx (zl_With lib (lg_logger l)))\<rparr>"

definition Logger_Unwrap :: "'l logger \<Rightarrow> 'l" where
  "Logger_Unwrap l = lg_logger l"

section \<open>What the adapter relies on\<close>

text \<open>
  An enabled event collects fields, a disabled one stays disabled; a new event has the fields of its
  logger's context and keeps the logger's hooks. A message on an enabled event runs the hooks, which may
  add fields behind those of the call (the time of \<open>Timestamp\<close> is such a field) or discard the event, and
  hands one line to the writer unless the event was discarded: its level, its fields in order and the
  message. (The writer of the console loggers sorts the fields when it prints them.) On a panic event the
  call then panics with the message, on a fatal event it ends the process with code 1. Whether a level is
  enabled and what the hooks add may depend on the outside world (samplers, the global level, the clock).
  Nothing is assumed of a disabled panic or fatal level. Hooks write no lines of their own, and no marshaler
  for error stacks is installed.
\<close>

datatype ('f, 'x) log_line = Line level "(string \<times> ('f, 'x) log_value) list" string

type_synonym ('f, 'x) entries = "(string \<times> ('f, 'x) log_value) list"

definition maker :: "('l, 'e, 'c, 'w, 'f, 'x) zerolog_lib \<Rightarrow> level \<Rightarrow> ('l, 'e, 'w) event_maker" where
  "maker lib lvl =
     (case lvl of
        DebugLevel \<Rightarrow> zl_Debug lib | InfoLevel \<Rightarrow> zl_Info lib | WarnLevel \<Rightarrow> zl_Warn lib
      | ErrorLevel \<Rightarrow> zl_Error lib | FatalLevel \<Rightarrow> zl_Fatal lib | PanicLevel \<Rightarrow> zl_Panic lib)"

definition after_msg :: "level \<Rightarrow> string \<Rightarrow> outcome" where
  "after_msg lvl msg = (if lvl = PanicLevel then Panics msg else if lvl = FatalLevel then Exits 1 else Returned)"

text \<open>An event that is being built: its logger, its level and its fields.\<close>

definition with_entry ::
  "string \<Rightarrow> ('f, 'x) log_value \<Rightarrow> ('l \<times> level \<times> ('f, 'x) entries) option \<Rightarrow>
     ('l \<times> level \<times> ('f, 'x) entries) option" where
  "with_entry k v = map_option (\<lambda>(l, lvl, fs). (l, lvl, fs @ [(k, v)]))"

lemma with_entry_simps [simp]:
  "with_entry k v None = None" "with_entry k v (Some (l, lvl, fs)) = Some (l, lvl, fs @ [(k, v)])"
  by (simp_all add: with_entry_def)

text \<open>What is handed to the writer, \<open>hs\<close> being what the hooks added, or None if they discarded the event.\<close>

definition handed :: "level \<Rightarrow> ('f, 'x) entries \<Rightarrow> ('f, 'x) entries option \<Rightarrow> string \<Rightarrow> ('f, 'x) log_line list" where
  "handed lvl fs hs msg = (case hs of None \<Rightarrow> [] | Some ts \<Rightarrow> [Line lvl (fs @ ts) msg])"

locale zerolog =
  fixes lib :: "('l, 'e, 'c, 'w, 'f, 'x) zerolog_lib"
    and enabled :: "'l \<Rightarrow> level \<Rightarrow> 'w \<Rightarrow> bool"
    and context_of :: "'l \<Rightarrow> ('f, 'x) entries"
    and hooks :: "'l \<Rightarrow> level \<Rightarrow> string \<Rightarrow> 'w \<Rightarrow> ('f, 'x) entries option"
    and building :: "'c \<Rightarrow> 'l"
    and event :: "'e \<Rightarrow> ('l \<times> level \<times> ('f, 'x) entries) option"
    and written :: "'w \<Rightarrow> ('f, 'x) log_line list"
    and error_name :: string
    and time_entry :: "'w \<Rightarrow> string \<times> ('f, 'x) log_value"
  assumes make_enabled: "enabled l lvl w \<Longrightarrow>
      \<exists>e. fst (maker lib lvl l w) = Inr e \<and> event e = Some (l, lvl, context_of l)"
    and make_disabled: "\<not> enabled l lvl w \<Longrightarrow> lvl \<noteq> PanicLevel \<Longrightarrow> lvl \<noteq> FatalLevel \<Longrightarrow>
      \<exists>e. fst (maker lib lvl l w) = Inr e \<and> event e = None"
    and make_written: "written (snd (maker lib lvl l w)) = written w"
    and err: "event (ze_Err lib x e) = with_entry error_name (LError x) (event e)"
    and str: "event (ze_Str lib k s e) = with_entry k (LString s) (event e)"
    and int: "event (ze_Int lib k i e) = with_entry k (LInt i) (event e)"
    and int8: "event (ze_Int8 lib k i8 e) = with_entry k (LInt8 i8) (event e)"
    and int16: "event (ze_Int16 lib k i16 e) = with_entry k (LInt16 i16) (event e)"
    and int32: "event (ze_Int32 lib k i32 e) = with_entry k (LInt32 i32) (event e)"
    and int64: "event (ze_Int64 lib k i e) = with_entry k (LInt64 i) (event e)"
    and uint: "event (ze_Uint lib k i e) = with_entry k (LUint i) (event e)"
    and uint8: "event (ze_Uint8 lib k i8 e) = with_entry k (LUint8 i8) (event e)"
    and uint16: "event (ze_Uint16 lib k i16 e) = with_entry k (LUint16 i16) (event e)"
    and uint32: "event (ze_Uint32 lib k i32 e) = with_entry k (LUint32 i32) (event e)"
    and uint64: "event (ze_Uint64 lib k i e) = with_entry k (LUint64 i) (event e)"
    and float32: "event (ze_Float32 lib k f e) = with_entry k (LFloat32 f) (event e)"
    and float64: "event (ze_Float64 lib k f e) = with_entry k (LFloat64 f) (event e)"
    and bool: "event (ze_Bool lib k b e) = with_entry k (LBool b) (event e)"
    and bytes: "event (ze_Bytes lib k s e) = with_entry k (LBytes s) (event e)"
    and strs: "event (ze_Strs lib k ss e) = with_entry k (LStrs ss) (event e)"
    and ints: "event (ze_Ints lib k is e) = with_entry k (LInts is) (event e)"
    and ints64: "event (ze_Ints64 lib k is e) = with_entry k (LInts64 is) (event e)"
    and interface: "event (ze_Interface lib k v e) = with_entry k v (event e)"
    and msg_enabled: "event e = Some (l, lvl, fs) \<Longrightarrow> fst (ze_Msg lib e m w) = after_msg lvl m \<and>
      written (snd (ze_Msg lib e m w)) = written w @ handed lvl fs (hooks l lvl m w) m"
    and msg_disabled: "event e = None \<Longrightarrow> ze_Msg lib e m w = (Returned, w)"
    and with_building: "building (zl_With lib l) = l"
    and with_logger: "zc_Logger lib c = building c"
    and with_interface: "context_of (building (zc_Interface lib k v c)) = context_of (building c) @ [(k, v)]"
      "enabled (building (zc_Interface lib k v c)) = enabled (building c)"
      "hooks (building (zc_Interface lib k v c)) = hooks (building c)"
      "snd (maker lib lvl (building (zc_Interface lib k v c)) w) = snd (maker lib lvl (building c) w)"
    and with_timestamp: "context_of (building (zc_Timestamp lib c)) = context_of (building c)"
      "hooks (building (zc_Timestamp lib c)) lvl m w =
        map_option (\<lambda>ts. ts @ [time_entry w]) (hooks (building c) lvl m w)"
    and new: "context_of (zl_New lib wr) = []" "hooks (zl_New lib wr) lvl m w = Some []"
    and leveled: "context_of (zl_Level lib lv l) = context_of l" "hooks (zl_Level lib lv l) = hooks l"

text \<open>The entry of a field in a line.\<close>

definition log_entry :: "string \<Rightarrow> ('f, 'x) log_field \<Rightarrow> string \<times> ('f, 'x) log_value" where
  "log_entry error_name f = ((case lf_Value f of LError _ \<Rightarrow> error_name | _ \<Rightarrow> lf_Key f), lf_Value f)"

context zerolog
begin

lemma add_field_event:
  "event (add_field lib f e) = with_entry (fst (log_entry error_name f)) (lf_Value f) (event e)"
  by (cases "lf_Value f")
    (simp_all add: add_field_def log_entry_def err str int int8 int16 int32 int64 uint uint8 uint16 uint32
      uint64 float32 float64 bool bytes strs ints ints64 interface)

lemma addFields_disabled: "event e = None \<Longrightarrow> event (addFields lib fs e) = None"
  by (induction fs arbitrary: e) (simp_all add: addFields_def add_field_event)

lemma addFields_event:
  "event e = Some (l, lvl, xs) \<Longrightarrow>
     event (addFields lib fs e) = Some (l, lvl, xs @ map (log_entry error_name) fs)"
proof (induction fs arbitrary: e xs)
  case (Cons f fs)
  have "(fst (log_entry error_name f), lf_Value f) = log_entry error_name f" by (simp add: log_entry_def)
  then show ?case
    using Cons.IH [of "add_field lib f e" "xs @ [log_entry error_name f]"] Cons.prems
    by (simp add: addFields_def add_field_event)
qed (simp add: addFields_def)

lemma log_event_enabled:
  assumes "enabled l lvl w"
  shows "fst (log_event lib (maker lib lvl l) msg fs w) = after_msg lvl msg \<and>
    written (snd (log_event lib (maker lib lvl l) msg fs w)) =
      written w @ handed lvl (context_of l @ map (log_entry error_name) fs)
        (hooks l lvl msg (snd (maker lib lvl l w))) msg"
proof -
  obtain e where e: "maker lib lvl l w = (Inr e, snd (maker lib lvl l w))"
    "event e = Some (l, lvl, context_of l)"
    using make_enabled [OF assms] by (metis prod.collapse)
  note ev = addFields_event [OF e(2), of fs]
  have "log_event lib (maker lib lvl l) msg fs w =
      ze_Msg lib (addFields lib fs e) msg (snd (maker lib lvl l w))"
    by (subst log_event_def, subst e(1)) simp
  then show ?thesis using msg_enabled [OF ev] by (simp add: make_written)
qed

lemma log_event_disabled:
  assumes "\<not> enabled l lvl w" and "lvl \<noteq> PanicLevel" and "lvl \<noteq> FatalLevel"
  shows "log_event lib (maker lib lvl l) msg fs w = (Returned, snd (maker lib lvl l w))"
proof -
  obtain e where e: "maker lib lvl l w = (Inr e, snd (maker lib lvl l w))" "event e = None"
    using make_disabled [OF assms] by (metis prod.collapse)
  show ?thesis
    using msg_disabled [OF addFields_disabled [OF e(2)]] by (subst log_event_def, subst e(1)) simp
qed

lemma WithFields_context:
  "context_of (lg_logger (Logger_WithFields lib l fs)) =
     context_of (lg_logger l) @ map (\<lambda>f. (lf_Key f, lf_Value f)) fs"
  "enabled (lg_logger (Logger_WithFields lib l fs)) = enabled (lg_logger l)"
  "hooks (lg_logger (Logger_WithFields lib l fs)) = hooks (lg_logger l)"
  "snd (maker lib lvl (lg_logger (Logger_WithFields lib l fs)) w) = snd (maker lib lvl (lg_logger l) w)"
proof -
  let ?with = "\<lambda>c. building (fold (\<lambda>f. zc_Interface lib (lf_Key f) (lf_Value f)) fs c)"
  have "context_of (?with c) = context_of (building c) @ map (\<lambda>f. (lf_Key f, lf_Value f)) fs \<and>
    enabled (?with c) = enabled (building c) \<and> hooks (?with c) = hooks (building c) \<and>
    snd (maker lib lvl (?with c) w) = snd (maker lib lvl (building c) w)" for c
    by (induction fs arbitrary: c) (simp_all add: with_interface)
  then show "context_of (lg_logger (Logger_WithFields lib l fs)) =
      context_of (lg_logger l) @ map (\<lambda>f. (lf_Key f, lf_Value f)) fs"
    and "enabled (lg_logger (Logger_WithFields lib l fs)) = enabled (lg_logger l)"
    and "hooks (lg_logger (Logger_WithFields lib l fs)) = hooks (lg_logger l)"
    and "snd (maker lib lvl (lg_logger (Logger_WithFields lib l fs)) w) = snd (maker lib lvl (lg_logger l) w)"
    by (simp_all add: Logger_WithFields_def Let_def with_logger with_building)
qed

text \<open>The three constructors make loggers without fields, which put the time behind those of a call.\<close>

lemma constructor_hooks:
  assumes "l \<in> {NewDefaultLogger lib, NewConsole lib, NewConsoleWithLevel lib lv}"
  shows "context_of (lg_logger l) = []" and "hooks (lg_logger l) lvl m w = Some [time_entry w]"
  using assms
  by (auto simp: NewDefaultLogger_def NewConsole_def NewConsoleWithLevel_def with_logger with_timestamp
      with_building new leveled)

end

end
