(* ===== verification/Zerolog_Properties.thy ===== *)
theory Zerolog_Properties
  imports Zerolog
begin

text \<open>
  The properties of the zerolog adapter, and a concrete zerolog for their witnesses: a logger has the
  levels it lets pass, its context and the number of its timestamp hooks, an event is its logger, its
  level and its fields if it is enabled, and the outside world is a clock with the lines handed to the
  writer so far. It is not code of the repository.
\<close>

record lines_logger =
  ll_enabled :: "level \<Rightarrow> bool"
  ll_context :: "(int, int) entries"
  ll_stamps :: nat

type_synonym lines_event = "(lines_logger \<times> level \<times> (int, int) entries) option"
type_synonym lines_world = "int \<times> (int, int) log_line list"

definition lines_time :: "lines_world \<Rightarrow> string \<times> (int, int) log_value" where
  "lines_time w = (''time'', LInt64 (of_int (fst w)))"

definition lines_hooks :: "lines_logger \<Rightarrow> level \<Rightarrow> string \<Rightarrow> lines_world \<Rightarrow> (int, int) entries option" where
  "lines_hooks l lvl m w = Some (replicate (ll_stamps l) (lines_time w))"

definition lines_event :: "level \<Rightarrow> (lines_logger, lines_event, lines_world) event_maker" where
  "lines_event lvl l w =
     (if ll_enabled l lvl then (Inr (Some (l, lvl, ll_context l)), w)
      else if lvl = PanicLevel then (Inl (Panics ''''), w)
      else if lvl = FatalLevel then (Inl (Exits 1), w)
      else (Inr None, w))"

definition lines_msg :: "lines_event \<Rightarrow> string \<Rightarrow> lines_world \<Rightarrow> outcome \<times> lines_world" where
  "lines_msg e m w =
     (case e of None \<Rightarrow> (Returned, w)
      | Some (l, lvl, fs) \<Rightarrow> (after_msg lvl m, (fst w, snd w @ handed lvl fs (lines_hooks l lvl m w) m)))"

fun level_rank :: "level \<Rightarrow> int" where
  "level_rank DebugLevel = 0"
| "level_rank InfoLevel = 1"
| "level_rank WarnLevel = 2"
| "level_rank ErrorLevel = 3"
| "level_rank FatalLevel = 4"
| "level_rank PanicLevel = 5"

definition lines_lib ::
  "(lines_logger, lines_event, lines_logger, lines_world, int, int) zerolog_lib" where
  "lines_lib = \<lparr>
     zl_New = \<lambda>_. \<lparr>ll_enabled = \<lambda>_. True, ll_context = [], ll_stamps = 0\<rparr>,
     zl_Level = \<lambda>lvl l. l\<lparr>ll_enabled := \<lambda>x. level_rank lvl \<le> level_rank x\<rparr>,
     zl_Debug = lines_event DebugLevel, zl_Info = lines_event InfoLevel, zl_Warn = lines_event WarnLevel,
     zl_Error = lines_event ErrorLevel, zl_Panic = lines_event PanicLevel, zl_Fatal = lines_event FatalLevel,
     zl_With = \<lambda>l. l, zc_Timestamp = \<lambda>c. c\<lparr>ll_stamps := Suc (ll_stamps c)\<rparr>,
     zc_Interface = \<lambda>k v c. c\<lparr>ll_context := ll_context c @ [(k, v)]\<rparr>,
     zc_Ctx = \<lambda>_ c. c, zc_Logger = \<lambda>c. c,
     ze_Err = \<lambda>x. with_entry ''error'' (LError x), ze_Str = \<lambda>k s. with_entry k (LString s),
     ze_Int = \<lambda>k i. with_entry k (LInt i), ze_Int8 = \<lambda>k i. with_entry k (LInt8 i),
     ze_Int16 = \<lambda>k i. with_entry k (LInt16 i), ze_Int32 = \<lambda>k i. with_entry k (LInt32 i),
     ze_Int64 = \<lambda>k i. with_entry k (LInt64 i), ze_Uint = \<lambda>k i. with_entry k (LUint i),
     ze_Uint8 = \<lambda>k i. with_entry k (LUint8 i), ze_Uint16 = \<lambda>k i. with_entry k (LUint16 i),
     ze_Uint32 = \<lambda>k i. with_entry k (LUint32 i), ze_Uint64 = \<lambda>k i. with_entry k (LUint64 i),
     ze_Float32 = \<lambda>k f. with_entry k (LFloat32 f), ze_Float64 = \<lambda>k f. with_entry k (LFloat64 f),
     ze_Bool = \<lambda>k b. with_entry k (LBool b), ze_Bytes = \<lambda>k s. with_entry k (LBytes s),
     ze_Strs = \<lambda>k ss. with_entry k (LStrs ss), ze_Ints = \<lambda>k xs. with_entry k (LInts xs),
     ze_Ints64 = \<lambda>k xs. with_entry k (LInts64 xs), ze_Interface = with_entry, ze_Msg = lines_msg\<rparr>"

lemma maker_lines: "maker lines_lib lvl = lines_event lvl"
  by (simp add: maker_def lines_lib_def split: level.split)

interpretation lines: zerolog lines_lib "\<lambda>l lvl _. ll_enabled l lvl" ll_context lines_hooks "\<lambda>c. c" "\<lambda>e. e"
    snd "''error''" lines_time
  by unfold_locales
    (auto simp: maker_lines, auto simp: lines_lib_def lines_event_def lines_msg_def lines_hooks_def fun_eq_iff
      replicate_append_same)

lemma lines_default [simp]:
  "lg_logger (NewDefaultLogger lines_lib) = \<lparr>ll_enabled = \<lambda>_. True, ll_context = [], ll_stamps = 1\<rparr>"
  by (simp add: NewDefaultLogger_def lines_lib_def)

text \<open>
  C31: what a call of the logger does. For each of the six levels, if the level is enabled, the call
  hands exactly one line to the writer (none if a hook discards the event): the level, the fields of the
  logger, then the fields of the call in their order, each with its own value and, unless the value is an
  error, under its own key, then what the logger's hooks add, and the message; then Panic panics with the
  message, Fatal exits with code 1, and the others return. If a level below these two is disabled, the
  call writes nothing and returns. A logger from NewDefault, NewConsole or NewConsoleWithLevel has no
  fields of its own, and its one hook adds the time of the call.
\<close>

theorem logger_writes_line:
  assumes "zerolog lib enabled context_of hooks building event written error_name time_entry"
    and "(lvl, call) \<in> {(DebugLevel, Logger_Debug lib l), (InfoLevel, Logger_Info lib l),
      (WarnLevel, Logger_Warn lib l), (ErrorLevel, Logger_Error lib l),
      (PanicLevel, Logger_Panic lib l), (FatalLevel, Logger_Fatal lib l)}"
    and "w' = snd (maker lib lvl (lg_logger l) w)"
  shows "(enabled (lg_logger l) lvl w \<longrightarrow>
      fst (call msg fs w) = after_msg lvl msg \<and>
      written (snd (call msg fs w)) =
        written w @ handed lvl (context_of (lg_logger l) @ map (log_entry error_name) fs)
          (hooks (lg_logger l) lvl msg w') msg) \<and>
    (\<not> enabled (lg_logger l) lvl w \<and> lvl \<notin> {PanicLevel, FatalLevel} \<longrightarrow>
      fst (call msg fs w) = Returned \<and> written (snd (call msg fs w)) = written w) \<and>
    (l \<in> {NewDefaultLogger lib, NewConsole lib, NewConsoleWithLevel lib lv} \<longrightarrow>
      context_of (lg_logger l) = [] \<and> hooks (lg_logger l) lvl msg w' = Some [time_entry w'])"
proof -
  have "call msg fs w = log_event lib (maker lib lvl (lg_logger l)) msg fs w"
    using assms(2)
    by (auto simp: maker_def Logger_Debug_def Logger_Info_def Logger_Warn_def Logger_Error_def
        Logger_Panic_def Logger_Fatal_def)
  then show ?thesis
    unfolding assms(3)
    using zerolog.log_event_enabled [OF assms(1), of "lg_logger l" lvl w msg fs]
      zerolog.log_event_disabled [OF assms(1), of "lg_logger l" lvl w msg fs]
      zerolog.constructor_hooks [OF assms(1), of l lv] zerolog.make_written [OF assms(1)]
    by auto
qed

theorem logger_writes_line_witness:
  "snd (snd (Logger_Panic lines_lib (NewDefaultLogger lines_lib) ''stop''
     [\<lparr>lf_Key = ''n'', lf_Value = LInt8 255\<rparr>, \<lparr>lf_Key = ''cause'', lf_Value = LError (NewError ''x'')\<rparr>] (7, []))) =
   [Line PanicLevel [(''n'', LInt8 (- 1)), (''error'', LError (NewError ''x'')), (''time'', LInt64 7)] ''stop'']"
  using logger_writes_line [OF lines.zerolog_axioms, where lvl = PanicLevel and w = "(7, [])" and
    call = "Logger_Panic lines_lib (NewDefaultLogger lines_lib)" and l = "NewDefaultLogger lines_lib" and
    msg = "''stop''" and fs = "[\<lparr>lf_Key = ''n'', lf_Value = LInt8 255\<rparr>, \<lparr>lf_Key = ''cause'', lf_Value = LError (NewError ''x'')\<rparr>]"]
  by (simp add: log_entry_def handed_def lines_time_def maker_lines lines_event_def)

text \<open>
  Fields given to WithFields and fields given to a call. If no hook discards the event, a logger made by
  WithFields hands on the line that the plain logger hands on with the same fields in front of the call's
  own, exactly if every error among them has the error field's name as its key: WithFields keeps the key
  of an error, the six calls drop it, so two errors with different keys come out under the same name.
\<close>

theorem logger_with_fields:
  assumes "zerolog lib enabled context_of hooks building event written error_name time_entry"
    and "enabled (lg_logger l) InfoLevel w"
    and "hooks (lg_logger l) InfoLevel msg (snd (maker lib InfoLevel (lg_logger l) w)) = Some ts"
  shows "written (snd (Logger_Info lib (Logger_WithFields lib l fs) msg gs w)) =
      written (snd (Logger_Info lib l msg (fs @ gs) w)) \<longleftrightarrow>
    (\<forall>f \<in> set fs. \<forall>e. lf_Value f = LError e \<longrightarrow> lf_Key f = error_name)"
proof -
  note W = zerolog.WithFields_context [OF assms(1), where l = l and fs = fs]
  have info: "Logger_Info lib l = log_event lib (maker lib InfoLevel (lg_logger l))" for l
    by (simp add: fun_eq_iff Logger_Info_def maker_def)
  have "written (snd (Logger_Info lib (Logger_WithFields lib l fs) msg gs w)) =
      written w @ [Line InfoLevel (context_of (lg_logger l) @ map (\<lambda>f. (lf_Key f, lf_Value f)) fs @
        map (log_entry error_name) gs @ ts) msg]"
    using zerolog.log_event_enabled [OF assms(1), of "lg_logger (Logger_WithFields lib l fs)" InfoLevel] W assms(2,3)
    by (simp add: info handed_def)
  moreover have "written (snd (Logger_Info lib l msg (fs @ gs) w)) =
      written w @ [Line InfoLevel (context_of (lg_logger l) @ map (log_entry error_name) fs @
        map (log_entry error_name) gs @ ts) msg]"
    using zerolog.log_event_enabled [OF assms(1), of "lg_logger l" InfoLevel] assms(2,3)
    by (simp add: info handed_def)
  moreover have "map (\<lambda>f. (lf_Key f, lf_Value f)) fs = map (log_entry error_name) fs \<longleftrightarrow>
      (\<forall>f \<in> set fs. \<forall>e. lf_Value f = LError e \<longrightarrow> lf_Key f = error_name)"
    by (auto simp: log_entry_def split: log_value.split)
  ultimately show ?thesis by simp
qed

theorem logger_with_fields_witness:
  "snd (snd (Logger_Info lines_lib (Logger_WithFields lines_lib (NewDefaultLogger lines_lib)
       [\<lparr>lf_Key = ''cause'', lf_Value = LError RedisNil\<rparr>]) ''m'' [] (7, []))) \<noteq>
     snd (snd (Logger_Info lines_lib (NewDefaultLogger lines_lib) ''m''
       ([\<lparr>lf_Key = ''cause'', lf_Value = LError RedisNil\<rparr>] @ []) (7, [])))"
  using logger_with_fields [OF lines.zerolog_axioms, where l = "NewDefaultLogger lines_lib" and w = "(7, [])" and
    msg = "''m''" and fs = "[\<lparr>lf_Key = ''cause'', lf_Value = LError RedisNil\<rparr>]" and gs = "[]"]
  by (simp add: lines_hooks_def)

end
