(* ===== verification/Tracer.thy ===== *)
theory Tracer
  imports Prelude "HOL-Library.Word"
begin

text \<open>
  \<open>middleware/tracer/tracer.go\<close>: the adapter of OpenTelemetry to the tracing interface of zerohttp. The
  OpenTelemetry packages are a parameter, the record \<open>otel_lib\<close> of the functions that the adapter calls,
  on arbitrary tracers \<open>'t\<close>, spans \<open>'s\<close>, attributes \<open>'kv\<close>, contexts \<open>'c\<close>, exporters \<open>'x\<close>, providers
  \<open>'p\<close> and outside world \<open>'w\<close>. The options of Start and of RecordError are accepted and not used.
\<close>

section \<open>The tracing interface and OpenTelemetry\<close>

datatype ('f, 'a) attr_value =
    AString string
  | AInt "64 word"
  | AInt64 "64 word"
  | AFloat64 'f
  | ABool bool
  | AOther 'a

record ('f, 'a) attribute =
  at_Key :: string
  at_Value :: "('f, 'a) attr_value"

text \<open>The codes of zerohttp are integers with three named values; the names are distinct.\<close>

datatype trace_code = CodeUnset | CodeOk | CodeError | CodeOther int

datatype otel_code = OtelUnset | OtelError | OtelOk

datatype protocol = OtlpHTTP | OtlpGRPC

datatype exporter_option = WithEndpoint string | WithInsecure

record ('t, 's, 'kv, 'c, 'x, 'p, 'w, 'f) otel_lib =
  ot_newExporter :: "protocol \<Rightarrow> 'c \<Rightarrow> exporter_option list \<Rightarrow> ('w, 'x) act"
  ot_newTracerProvider :: "'x \<Rightarrow> string \<Rightarrow> 'w \<Rightarrow> 'p \<times> 'w"
  ot_setTracerProvider :: "'p \<Rightarrow> 'w \<Rightarrow> 'w"
  ot_Tracer :: "'p \<Rightarrow> string \<Rightarrow> 't"
  ot_Shutdown :: "'p \<Rightarrow> 'c \<Rightarrow> ('w, unit) act"
  ot_Start :: "'t \<Rightarrow> 'c \<Rightarrow> string \<Rightarrow> 'w \<Rightarrow> ('c \<times> 's) \<times> 'w"
  ot_End :: "'s \<Rightarrow> 'w \<Rightarrow> 'w"
  ot_SetStatus :: "'s \<Rightarrow> otel_code \<Rightarrow> string \<Rightarrow> 'w \<Rightarrow> 'w"
  ot_RecordError :: "'s \<Rightarrow> go_error \<Rightarrow> 'w \<Rightarrow> 'w"
  ot_SetAttributes :: "'s \<Rightarrow> 'kv list \<Rightarrow> 'w \<Rightarrow> 'w"
  kv_String :: "string \<Rightarrow> string \<Rightarrow> 'kv"
  kv_Int :: "string \<Rightarrow> 64 word \<Rightarrow> 'kv"
  kv_Int64 :: "string \<Rightarrow> 64 word \<Rightarrow> 'kv"
  kv_Float64 :: "string \<Rightarrow> 'f \<Rightarrow> 'kv"
  kv_Bool :: "string \<Rightarrow> bool \<Rightarrow> 'kv"

section \<open>The adapter\<close>

record 't otel_tracer =
  tr_tracer :: 't

record 's otel_span =
  sp_span :: 's

definition NewOTelTracer :: "'t \<Rightarrow> 't otel_tracer" where
  "NewOTelTracer t = \<lparr>tr_tracer = t\<rparr>"

definition NewHTTPDefault ::
  "('t, 's, 'kv, 'c, 'x, 'p, 'w, 'f) otel_lib \<Rightarrow> 'c \<Rightarrow> string \<Rightarrow> string \<Rightarrow> bool \<Rightarrow>
     ('w, 't otel_tracer \<times> ('w \<Rightarrow> 'w)) act" where
  "NewHTTPDefault lib ctx serviceName endpoint insecure w =
     (let opts = [WithEndpoint endpoint];
          opts = (if insecure then opts @ [WithInsecure] else opts);
          (r, w) = ot_newExporter lib OtlpHTTP ctx opts w
      in case r of
           Inl err \<Rightarrow> (Inl (Wrapf ''failed to create trace exporter'' err), w)
         | Inr exporter \<Rightarrow>
             (let (provider, w) = ot_newTracerProvider lib exporter serviceName w;
                  w = ot_setTracerProvider lib provider w;
                  tracer = ot_Tracer lib provider ''zerohttp'';
                  shutdown = (\<lambda>w. snd (ot_Shutdown lib provider ctx w))
              in (Inr (NewOTelTracer tracer, shutdown), w)))"

definition NewGRPCDefault ::
  "('t, 's, 'kv, 'c, 'x, 'p, 'w, 'f) otel_lib \<Rightarrow> 'c \<Rightarrow> string \<Rightarrow> string \<Rightarrow> bool \<Rightarrow>
     ('w, 't otel_tracer \<times> ('w \<Rightarrow> 'w)) act" where
  "NewGRPCDefault lib ctx serviceName endpoint insecure w =
     (let opts = [WithEndpoint endpoint];
          opts = (if insecure then opts @ [WithInsecure] else opts);
          (r, w) = ot_newExporter lib OtlpGRPC ctx opts w
      in case r of
           Inl err \<Rightarrow> (Inl (Wrapf ''failed to create trace exporter'' err), w)
         | Inr exporter \<Rightarrow>
             (let (provider, w) = ot_newTracerProvider lib exporter serviceName w;
                  w = ot_setTracerProvider lib provider w;
                  tracer = ot_Tracer lib provider ''zerohttp'';
                  shutdown = (\<lambda>w. snd (ot_Shutdown lib provider ctx w))
              in (Inr (NewOTelTracer tracer, shutdown), w)))"

definition Tracer_Start ::
  "('t, 's, 'kv, 'c, 'x, 'p, 'w, 'f) otel_lib \<Rightarrow> 't otel_tracer \<Rightarrow> 'c \<Rightarrow> string \<Rightarrow> 'o list \<Rightarrow> 'w \<Rightarrow>
     ('c \<times> 's otel_span) \<times> 'w" where
  "Tracer_Start lib t ctx name opts w =
     (let ((ctx, otelSpan), w) = ot_Start lib (tr_tracer t) ctx name w in ((ctx, \<lparr>sp_span = otelSpan\<rparr>), w))"

definition toOtelAttribute ::
  "('t, 's, 'kv, 'c, 'x, 'p, 'w, 'f) otel_lib \<Rightarrow> ('f, 'a) attribute \<Rightarrow> 'kv" where
  "toOtelAttribute lib attr =
     (case at_Value attr of
        AString v \<Rightarrow> kv_String lib (at_Key attr) v
      | AInt v \<Rightarrow> kv_Int lib (at_Key attr) v
      | AInt64 v \<Rightarrow> kv_Int64 lib (at_Key attr) v
      | AFloat64 v \<Rightarrow> kv_Float64 lib (at_Key attr) v
      | ABool v \<Rightarrow> kv_Bool lib (at_Key attr) v
      | AOther _ \<Rightarrow> kv_String lib (at_Key attr) '''')"

definition toOtelCode :: "trace_code \<Rightarrow> otel_code" where
  "toOtelCode code = (case code of CodeOk \<Rightarrow> OtelOk | CodeError \<Rightarrow> OtelError | _ \<Rightarrow> OtelUnset)"

definition Span_End :: "('t, 's, 'kv, 'c, 'x, 'p, 'w, 'f) otel_lib \<Rightarrow> 's otel_span \<Rightarrow> 'w \<Rightarrow> 'w" where
  "Span_End lib s = ot_End lib (sp_span s)"

definition Span_SetStatus ::
  "('t, 's, 'kv, 'c, 'x, 'p, 'w, 'f) otel_lib \<Rightarrow> 's otel_span \<Rightarrow> trace_code \<Rightarrow> string \<Rightarrow> 'w \<Rightarrow> 'w" where
  "Span_SetStatus lib s code desc = ot_SetStatus lib (sp_span s) (toOtelCode code) desc"

definition Span_RecordError ::
  "('t, 's, 'kv, 'c, 'x, 'p, 'w, 'f) otel_lib \<Rightarrow> 's otel_span \<Rightarrow> go_error \<Rightarrow> 'o list \<Rightarrow> 'w \<Rightarrow> 'w" where
  "Span_RecordError lib s err opts = ot_RecordError lib (sp_span s) err"

definition Span_SetAttributes ::
  "('t, 's, 'kv, 'c, 'x, 'p, 'w, 'f) otel_lib \<Rightarrow> 's otel_span \<Rightarrow> ('f, 'a) attribute list \<Rightarrow> 'w \<Rightarrow> 'w" where
  "Span_SetAttributes lib s attrs w =
     fold (\<lambda>attr. ot_SetAttributes lib (sp_span s) [toOtelAttribute lib attr]) attrs w"

section \<open>What the adapter relies on\<close>

text \<open>
  A span is a map from attribute keys to values. As long as it is recording, that is from its sampled
  start to its end, setting attributes writes them in order, the last value of a key wins; an attribute
  with an empty key is dropped, and so is one with a new key if the span has as many attributes as the
  provider allows (\<open>limit\<close>, 128 unless it is configured, None for no limit). A span that is not recording
  ignores the call. Integers of both kinds are kept as 64-bit integers; \<open>clip\<close> is what the provider's
  limit on the length of values leaves of one, everything unless it is configured.
\<close>

datatype 'f otel_value = OString string | OInt64 "64 word" | OFloat64 'f | OBool bool

definition within :: "nat option \<Rightarrow> string set \<Rightarrow> bool" where
  "within limit ks = (case limit of None \<Rightarrow> True | Some n \<Rightarrow> card ks \<le> n)"

locale otel =
  fixes lib :: "('t, 's, 'kv, 'c, 'x, 'p, 'w, 'f) otel_lib"
    and key_of :: "'kv \<Rightarrow> string"
    and value_of :: "'kv \<Rightarrow> 'f otel_value"
    and attributes :: "'s \<Rightarrow> 'w \<Rightarrow> string \<Rightarrow> 'f otel_value option"
    and recording :: "'s \<Rightarrow> 'w \<Rightarrow> bool"
    and limit :: "nat option"
    and clip :: "'f otel_value \<Rightarrow> 'f otel_value"
    and provider :: "'w \<Rightarrow> 'p option"
  assumes keys: "key_of (kv_String lib k s) = k" "key_of (kv_Int lib k i) = k" "key_of (kv_Int64 lib k i) = k"
      "key_of (kv_Float64 lib k f) = k" "key_of (kv_Bool lib k b) = k"
    and vals: "value_of (kv_String lib k s) = OString s" "value_of (kv_Int lib k i) = OInt64 i"
      "value_of (kv_Int64 lib k i) = OInt64 i" "value_of (kv_Float64 lib k f) = OFloat64 f"
      "value_of (kv_Bool lib k b) = OBool b"
    and finite_attributes: "finite (dom (attributes sp w))"
    and recording_keeps: "recording sp (ot_SetAttributes lib sp kvs w) = recording sp w"
    and set_attributes: "recording sp w \<Longrightarrow> key_of kv \<noteq> '''' \<Longrightarrow>
      within limit (insert (key_of kv) (dom (attributes sp w))) \<Longrightarrow>
      attributes sp (ot_SetAttributes lib sp [kv] w) = (attributes sp w)(key_of kv \<mapsto> clip (value_of kv))"
    and set_dropped: "\<not> recording sp w \<or> key_of kv = '''' \<Longrightarrow>
      attributes sp (ot_SetAttributes lib sp [kv] w) = attributes sp w"
    and clip_others: "clip (OInt64 i) = OInt64 i" "clip (OFloat64 f) = OFloat64 f" "clip (OBool b) = OBool b"
      "clip (OString '''') = OString ''''"
    and set_provider: "provider (ot_setTracerProvider lib p w) = Some p"
    and exporter_keeps: "provider (snd (ot_newExporter lib proto c opts w)) = provider w"

definition otel_value :: "('f, 'a) attr_value \<Rightarrow> 'f otel_value" where
  "otel_value v = (case v of AString s \<Rightarrow> OString s | AInt i \<Rightarrow> OInt64 i | AInt64 i \<Rightarrow> OInt64 i
     | AFloat64 f \<Rightarrow> OFloat64 f | ABool b \<Rightarrow> OBool b | AOther _ \<Rightarrow> OString '''')"

context otel
begin

lemma attribute_kv: "key_of (toOtelAttribute lib a) = at_Key a" "value_of (toOtelAttribute lib a) = otel_value (at_Value a)"
  by (cases "at_Value a"; simp add: toOtelAttribute_def otel_value_def keys vals)+

text \<open>One attribute, and the room that is left for the others.\<close>

definition after_one :: "('f, 'a) attribute \<Rightarrow> 's \<Rightarrow> 'w \<Rightarrow> string \<Rightarrow> 'f otel_value option" where
  "after_one a sp w =
     (if recording sp w \<and> at_Key a \<noteq> ''''
      then (attributes sp w)(at_Key a \<mapsto> clip (otel_value (at_Value a))) else attributes sp w)"

lemma within_insert:
  assumes "within limit (dom (attributes sp w) \<union> K)" and "finite K" and "k \<in> K"
  shows "within limit (insert k (dom (attributes sp w)))"
proof -
  have "card (insert k (dom (attributes sp w))) \<le> card (dom (attributes sp w) \<union> K)"
    using assms(2,3) by (intro card_mono) (auto simp: finite_attributes)
  then show ?thesis using assms(1) by (auto simp: within_def split: option.splits)
qed

lemma set_one:
  assumes "within limit (dom (attributes sp w) \<union> K)" and "finite K" and "at_Key a \<noteq> '''' \<longrightarrow> at_Key a \<in> K"
  shows "attributes sp (ot_SetAttributes lib sp [toOtelAttribute lib a] w) = after_one a sp w"
proof (cases "recording sp w \<and> at_Key a \<noteq> ''''")
  case True
  then have "within limit (insert (at_Key a) (dom (attributes sp w)))"
    using within_insert [OF assms(1,2)] assms(3) by blast
  then show ?thesis
    using True set_attributes [of sp w "toOtelAttribute lib a"] by (simp add: attribute_kv after_one_def)
next
  case False
  then show ?thesis
    using set_dropped [of sp w "toOtelAttribute lib a"] by (auto simp: attribute_kv after_one_def)
qed

lemma SetAttributes_lookup:
  assumes "within limit (dom (attributes (sp_span s) w) \<union> (at_Key ` set attrs - {''''}))"
  shows "attributes (sp_span s) (Span_SetAttributes lib s attrs w) k =
    (let given = filter (\<lambda>a. at_Key a = k) attrs
     in if \<not> recording (sp_span s) w \<or> k = '''' \<or> given = [] then attributes (sp_span s) w k
        else Some (clip (otel_value (at_Value (last given)))))"
  using assms
proof (induction attrs arbitrary: w)
  case (Cons a attrs)
  let ?sp = "sp_span s"
  let ?w = "ot_SetAttributes lib ?sp [toOtelAttribute lib a] w"
  have one: "attributes ?sp ?w = after_one a ?sp w"
    by (rule set_one [OF Cons.prems]) auto
  have rec: "recording ?sp ?w = recording ?sp w" by (rule recording_keeps)
  have "card (dom (attributes ?sp ?w) \<union> (at_Key ` set attrs - {''''}))
      \<le> card (dom (attributes ?sp w) \<union> (at_Key ` set (a # attrs) - {''''}))"
    by (intro card_mono) (auto simp: finite_attributes one after_one_def split: if_splits)
  then have "within limit (dom (attributes ?sp ?w) \<union> (at_Key ` set attrs - {''''}))"
    using Cons.prems by (auto simp: within_def split: option.splits)
  from Cons.IH [OF this] show ?case
    by (auto simp: Span_SetAttributes_def one rec after_one_def Let_def)
qed (simp add: Span_SetAttributes_def)

end

section \<open>Properties\<close>

text \<open>
  A concrete OpenTelemetry with one span: its attributes, whether it has ended, and the provider. It is not
  code of the repository.
\<close>

type_synonym span_world = "(string \<times> int otel_value) list \<times> bool \<times> string option"

definition demo_set :: "string \<times> int otel_value \<Rightarrow> span_world \<Rightarrow> span_world" where
  "demo_set kv w =
     (if fst (snd w) \<or> fst kv = '''' \<or> \<not> within (Some 128) (insert (fst kv) (fst ` set (fst w))) then w
      else (kv # fst w, snd w))"

definition demo_otel :: "(string, unit, string \<times> int otel_value, unit, protocol, string, span_world, int) otel_lib" where
  "demo_otel = \<lparr>
     ot_newExporter = \<lambda>proto _ opts w. (if WithInsecure \<in> set opts then Inr proto else Inl (NewError ''no certificate''), w),
     ot_newTracerProvider = \<lambda>x name w. (name, w), ot_setTracerProvider = \<lambda>p w. (fst w, fst (snd w), Some p),
     ot_Tracer = \<lambda>p name. name, ot_Shutdown = \<lambda>p _ w. (Inl (NewError ''timeout''), w),
     ot_Start = \<lambda>t _ name w. (((), ()), ([], False, snd (snd w))), ot_End = \<lambda>_ w. (fst w, True, snd (snd w)),
     ot_SetStatus = \<lambda>_ c d w. w, ot_RecordError = \<lambda>_ e w. w, ot_SetAttributes = \<lambda>_ kvs w. fold demo_set kvs w,
     kv_String = \<lambda>k s. (k, OString s), kv_Int = \<lambda>k i. (k, OInt64 i), kv_Int64 = \<lambda>k i. (k, OInt64 i),
     kv_Float64 = \<lambda>k f. (k, OFloat64 f), kv_Bool = \<lambda>k b. (k, OBool b)\<rparr>"

lemma demo_set_ended: "fst (snd (fold demo_set kvs w)) = fst (snd w)"
  by (induction kvs arbitrary: w) (simp_all add: demo_set_def)

interpretation demo_otel: otel demo_otel fst snd "\<lambda>_ w. map_of (fst w)" "\<lambda>_ w. \<not> fst (snd w)" "Some 128" "\<lambda>v. v"
    "\<lambda>w. snd (snd w)"
  by unfold_locales
    (simp_all add: demo_otel_def demo_set_ended finite_dom_map_of, auto simp: demo_set_def dom_map_of_conv_image_fst)

text \<open>
  C40: the attributes of a span. If the span has room for them, then after SetAttributes on a recording
  span each key that is not empty has the value of the last attribute given for it, or the one it had
  before: integers, floating-point numbers and booleans arrive with their value and type (int as int64),
  strings as the length limit of the provider leaves them, and a value of any other type arrives as the
  empty string, as if the empty string had been given. An attribute with an empty key, and every attribute
  given to a span that is not recording (it ended, or was not sampled), is dropped.
\<close>

theorem span_attributes:
  assumes "otel lib key_of value_of attributes recording limit clip provider"
    and "within limit (dom (attributes (sp_span s) w) \<union> (at_Key ` set attrs - {''''}))"
  shows "attributes (sp_span s) (Span_SetAttributes lib s attrs w) k =
    (let given = filter (\<lambda>a. at_Key a = k) attrs
     in if \<not> recording (sp_span s) w \<or> k = '''' \<or> given = [] then attributes (sp_span s) w k
        else case at_Value (last given) of
          AString v \<Rightarrow> Some (clip (OString v))
        | AInt v \<Rightarrow> Some (OInt64 v)
        | AInt64 v \<Rightarrow> Some (OInt64 v)
        | AFloat64 v \<Rightarrow> Some (OFloat64 v)
        | ABool v \<Rightarrow> Some (OBool v)
        | AOther _ \<Rightarrow> Some (OString ''''))"
  unfolding otel.SetAttributes_lookup [OF assms]
  by (simp add: otel_value_def otel.clip_others [OF assms(1)] Let_def split: attr_value.split)

theorem span_attributes_witness:
  "map_of (fst (Span_SetAttributes demo_otel \<lparr>sp_span = ()\<rparr>
     [\<lparr>at_Key = ''n'', at_Value = AInt 1\<rparr>, \<lparr>at_Key = ''n'', at_Value = AOther ''uint8''\<rparr>] ([], False, None))) ''n'' =
     Some (OString '''')"
  using span_attributes [OF demo_otel.otel_axioms, where s = "\<lparr>sp_span = ()\<rparr>" and w = "([], False, None)" and
    attrs = "[\<lparr>at_Key = ''n'', at_Value = AInt 1\<rparr>, \<lparr>at_Key = ''n'', at_Value = AOther ''uint8''\<rparr>]" and k = "''n''"]
  by (simp add: within_def)

text \<open>
  Setting up tracing. Both constructors hand the exporter the endpoint, and the option that turns
  encryption off exactly if \<open>insecure\<close> was given; if the exporter fails, its error is wrapped and the
  global tracer provider stays as it was; if it does not, the new provider is the global one when the
  constructor returns, and the shutdown function drops the error of the provider's Shutdown.
\<close>

theorem tracer_setup:
  assumes "otel lib key_of value_of attributes recording limit clip provider"
    and "(proto, New) \<in> {(OtlpHTTP, NewHTTPDefault lib), (OtlpGRPC, NewGRPCDefault lib)}"
  shows "case fst (ot_newExporter lib proto ctx (WithEndpoint ep # (if insecure then [WithInsecure] else [])) w) of
      Inl err \<Rightarrow> fst (New ctx name ep insecure w) = Inl (Wrapf ''failed to create trace exporter'' err) \<and>
        provider (snd (New ctx name ep insecure w)) = provider w
    | Inr exporter \<Rightarrow> \<exists>p shutdown.
        fst (New ctx name ep insecure w) = Inr (NewOTelTracer (ot_Tracer lib p ''zerohttp''), shutdown) \<and>
        provider (snd (New ctx name ep insecure w)) = Some p \<and>
        shutdown = (\<lambda>w. snd (ot_Shutdown lib p ctx w))"
proof -
  let ?opts = "WithEndpoint ep # (if insecure then [WithInsecure] else [])"
  have opts: "(let opts = [WithEndpoint ep] in if insecure then opts @ [WithInsecure] else opts) = ?opts" by simp
  have "New ctx name ep insecure w =
      (let (r, w) = ot_newExporter lib proto ctx ?opts w
       in case r of
            Inl err \<Rightarrow> (Inl (Wrapf ''failed to create trace exporter'' err), w)
          | Inr exporter \<Rightarrow>
              (let (p, w) = ot_newTracerProvider lib exporter name w
               in (Inr (NewOTelTracer (ot_Tracer lib p ''zerohttp''), \<lambda>w. snd (ot_Shutdown lib p ctx w)),
                   ot_setTracerProvider lib p w)))"
    using assms(2) by (auto simp: NewHTTPDefault_def NewGRPCDefault_def Let_def case_prod_unfold split: sum.split)
  then show ?thesis
    using otel.exporter_keeps [OF assms(1), of proto ctx ?opts w] otel.set_provider [OF assms(1)]
    by (auto simp: Let_def case_prod_unfold split: sum.split)
qed

theorem tracer_setup_witness:
  "fst (NewGRPCDefault demo_otel () ''api'' ''collector:4317'' False ([], False, None)) =
     Inl (Wrapf ''failed to create trace exporter'' (NewError ''no certificate''))"
  using tracer_setup [OF demo_otel.otel_axioms, of OtlpGRPC "NewGRPCDefault demo_otel" "()" "''api''" "''collector:4317''"
    False "([], False, None)"]
  by (simp add: demo_otel_def)

end
