(* ===== verification/Go_Http.thy ===== *)
theory Go_Http
  imports Utf8
begin

text \<open>
  What the Huma adapter uses of Go's standard library: header maps with canonical keys (\<open>net/http\<close>,
  \<open>net/textproto\<close>), \<open>url.PathUnescape\<close> and \<open>strings.ToUpper\<close>.
\<close>

section \<open>Letters\<close>

definition upper_char :: "char \<Rightarrow> char" where
  "upper_char c = (if 97 \<le> code c \<and> code c \<le> 122 then char_of (code c - 32) else c)"

definition lower_char :: "char \<Rightarrow> char" where
  "lower_char c = (if 65 \<le> code c \<and> code c \<le> 90 then char_of (code c + 32) else c)"

text \<open>
  \<open>strings.ToUpper\<close>: letter by letter on ASCII; on other strings by the tables of the \<open>unicode\<close>
  package, the parameter \<open>uni\<close>.
\<close>

definition to_upper :: "(string \<Rightarrow> string) \<Rightarrow> string \<Rightarrow> string" where
  "to_upper uni s = (if list_all (\<lambda>c. code c < 128) s then map upper_char s else uni s)"

section \<open>Headers\<close>

type_synonym header = "string \<Rightarrow> string list option"

definition token_char :: "char \<Rightarrow> bool" where
  "token_char c \<longleftrightarrow> 48 \<le> code c \<and> code c \<le> 57 \<or> 65 \<le> code c \<and> code c \<le> 90 \<or>
     97 \<le> code c \<and> code c \<le> 122 \<or> code c \<in> {33, 35, 36, 37, 38, 39, 42, 43, 45, 46, 94, 95, 96, 124, 126}"

text \<open>Upper case at the start and after each hyphen, lower case elsewhere.\<close>

fun canonical_from :: "bool \<Rightarrow> string \<Rightarrow> string" where
  "canonical_from up [] = []"
| "canonical_from up (c # s) = (if up then upper_char c else lower_char c) # canonical_from (c = CHR ''-'') s"

definition canonical_key :: "string \<Rightarrow> string" where
  "canonical_key s = (if list_all token_char s then canonical_from True s else s)"

definition header_get :: "header \<Rightarrow> string \<Rightarrow> string" where
  "header_get h k = (case h (canonical_key k) of Some (v # _) \<Rightarrow> v | _ \<Rightarrow> '''')"

definition header_set :: "string \<Rightarrow> string \<Rightarrow> header \<Rightarrow> header" where
  "header_set k v h = h(canonical_key k \<mapsto> [v])"

definition header_add :: "string \<Rightarrow> string \<Rightarrow> header \<Rightarrow> header" where
  "header_add k v h =
     h(canonical_key k \<mapsto> (case h (canonical_key k) of None \<Rightarrow> [] | Some vs \<Rightarrow> vs) @ [v])"

section \<open>Path segments\<close>

definition hex_value :: "char \<Rightarrow> nat option" where
  "hex_value c =
     (if 48 \<le> code c \<and> code c \<le> 57 then Some (code c - 48)
      else if 65 \<le> code c \<and> code c \<le> 70 then Some (code c - 55)
      else if 97 \<le> code c \<and> code c \<le> 102 then Some (code c - 87)
      else None)"

text \<open>\<open>url.PathUnescape\<close>: a percent sign and two hexadecimal digits become a byte; \<open>None\<close> is its error.\<close>

function path_unescape :: "string \<Rightarrow> string option" where
  "path_unescape [] = Some []"
| "path_unescape (c # s) =
     (if c = CHR ''%'' then
        (case s of
           a # b # r \<Rightarrow>
             (case (hex_value a, hex_value b) of
                (Some m, Some n) \<Rightarrow> map_option (\<lambda>t. char_of (16 * m + n) # t) (path_unescape r)
              | _ \<Rightarrow> None)
         | _ \<Rightarrow> None)
      else map_option (\<lambda>t. c # t) (path_unescape s))"
  by pat_completeness auto

termination by (relation "measure length") auto

lemma unescape_shorter: "path_unescape s = Some t \<Longrightarrow> length t \<le> length s"
proof (induction s arbitrary: t rule: path_unescape.induct)
  case (2 c s)
  then show ?case by (fastforce split: if_splits list.splits option.splits)
qed simp

lemma unescape_plain: "CHR ''%'' \<notin> set s \<Longrightarrow> path_unescape s = Some s"
  by (induction s) auto

text \<open>Unescaping changes exactly the segments with a percent sign.\<close>

lemma unescape_same: "path_unescape s = Some s \<longleftrightarrow> CHR ''%'' \<notin> set s"
proof
  show "CHR ''%'' \<notin> set s" if "path_unescape s = Some s"
    using that
  proof (induction s)
    case (Cons c s)
    show ?case
    proof (cases "c = CHR ''%''")
      case True
      then obtain a b r t where "s = a # b # r" "path_unescape r = Some t" "length t + 1 = length (c # s)"
        using Cons.prems by (fastforce split: list.splits option.splits)
      then show ?thesis using unescape_shorter [of r t] by simp
    next
      case False
      then show ?thesis using Cons by auto
    qed
  qed simp
qed (rule unescape_plain)

end
