(* ===== verification/Huma.thy ===== *)
theory Huma
  imports Prelude Go_Http
begin

text \<open>
  \<open>adapters/huma/huma.go\<close>: the adapter of Huma to zerohttp. Requests and URLs are records of the fields
  that the adapter reads, with the parts it only passes on as type variables; the response writer, the
  router and the functions of Huma and of multipart parsing are parameters. Handlers act on the outside
  world \<open>'w\<close>, registering one acts on the router's own state \<open>'g\<close>.
\<close>

section \<open>Requests, writers and routers\<close>

record 'u url =
  ur_RawPath :: string
  ur_RawQuery :: string
  ur_rest :: 'u

record ('u, 'b, 't, 'k) http_request =
  rq_Method :: string
  rq_Host :: string
  rq_RemoteAddr :: string
  rq_URL :: "'u url"
  rq_Header :: header
  rq_PathValue :: "string \<Rightarrow> string"
  rq_Body :: 'b
  rq_TLS :: "'t option"
  rq_Context :: 'k
  rq_Proto :: string
  rq_ProtoMajor :: int
  rq_ProtoMinor :: int

record 'w response_writer =
  rw_WriteHeader :: "int \<Rightarrow> 'w \<Rightarrow> 'w"
  rw_Header :: "(header \<Rightarrow> header) \<Rightarrow> 'w \<Rightarrow> 'w"

record 'o operation =
  op_Method :: string
  op_Path :: string
  op_rest :: 'o

record ('o, 'u, 'b, 't, 'k, 'w) zerohttpContext =
  zc_op :: "'o operation"
  zc_r :: "('u, 'b, 't, 'k) http_request"
  zc_w :: "'w response_writer"
  zc_status :: int

type_synonym ('u, 'b, 't, 'k, 'w) zh_handler =
  "'w response_writer \<Rightarrow> ('u, 'b, 't, 'k) http_request \<Rightarrow> ('w, unit) act"

record ('h, 'g) router =
  ro_GET :: "string \<Rightarrow> 'h \<Rightarrow> 'g \<Rightarrow> 'g"
  ro_POST :: "string \<Rightarrow> 'h \<Rightarrow> 'g \<Rightarrow> 'g"
  ro_PUT :: "string \<Rightarrow> 'h \<Rightarrow> 'g \<Rightarrow> 'g"
  ro_DELETE :: "string \<Rightarrow> 'h \<Rightarrow> 'g \<Rightarrow> 'g"
  ro_PATCH :: "string \<Rightarrow> 'h \<Rightarrow> 'g \<Rightarrow> 'g"
  ro_HEAD :: "string \<Rightarrow> 'h \<Rightarrow> 'g \<Rightarrow> 'g"
  ro_OPTIONS :: "string \<Rightarrow> 'h \<Rightarrow> 'g \<Rightarrow> 'g"
  ro_ServeHTTP :: 'h

section \<open>Unwrapping a context\<close>

text \<open>
  A Huma context is any value \<open>'c\<close>; \<open>up\<close> tells whether it has a method \<open>Unwrap() huma.Context\<close> and what
  that returns, \<open>zctx\<close> whether it is a \<open>zerohttpContext\<close> (whose \<open>Unwrap\<close> has another type). The loop is
  \<open>None\<close> if it never ends.
\<close>

partial_function (option) unwrap_loop :: "('c \<Rightarrow> 'c option) \<Rightarrow> 'c \<Rightarrow> 'c option" where
  "unwrap_loop up ctx = (case up ctx of None \<Rightarrow> Some ctx | Some c \<Rightarrow> unwrap_loop up c)"

definition Context_Unwrap ::
  "('o, 'u, 'b, 't, 'k, 'w) zerohttpContext \<Rightarrow> ('u, 'b, 't, 'k) http_request \<times> 'w response_writer" where
  "Context_Unwrap c = (zc_r c, zc_w c)"

definition Unwrap ::
  "('c \<Rightarrow> 'c option) \<Rightarrow> ('c \<Rightarrow> ('o, 'u, 'b, 't, 'k, 'w) zerohttpContext option) \<Rightarrow> 'c \<Rightarrow>
     (('u, 'b, 't, 'k) http_request \<times> 'w response_writer) res option" where
  "Unwrap up zctx ctx =
     (case unwrap_loop up ctx of
        None \<Rightarrow> None
      | Some ctx \<Rightarrow>
          Some (case zctx ctx of
                  Some c \<Rightarrow> Inr (Context_Unwrap c)
                | None \<Rightarrow> Inl (Panicked (NewError ''not a zerohttp huma context''))))"

section \<open>The context\<close>

definition NewContext ::
  "'o operation \<Rightarrow> ('u, 'b, 't, 'k) http_request \<Rightarrow> 'w response_writer \<Rightarrow>
     ('o, 'u, 'b, 't, 'k, 'w) zerohttpContext" where
  "NewContext op r w = \<lparr>zc_op = op, zc_r = r, zc_w = w, zc_status = 0\<rparr>"

definition Context_Operation :: "('o, 'u, 'b, 't, 'k, 'w) zerohttpContext \<Rightarrow> 'o operation" where
  "Context_Operation c = zc_op c"

definition Context_Context :: "('o, 'u, 'b, 't, 'k, 'w) zerohttpContext \<Rightarrow> 'k" where
  "Context_Context c = rq_Context (zc_r c)"

definition Context_Method :: "('o, 'u, 'b, 't, 'k, 'w) zerohttpContext \<Rightarrow> string" where
  "Context_Method c = rq_Method (zc_r c)"

definition Context_Host :: "('o, 'u, 'b, 't, 'k, 'w) zerohttpContext \<Rightarrow> string" where
  "Context_Host c = rq_Host (zc_r c)"

definition Context_RemoteAddr :: "('o, 'u, 'b, 't, 'k, 'w) zerohttpContext \<Rightarrow> string" where
  "Context_RemoteAddr c = rq_RemoteAddr (zc_r c)"

definition Context_URL :: "('o, 'u, 'b, 't, 'k, 'w) zerohttpContext \<Rightarrow> 'u url" where
  "Context_URL c = rq_URL (zc_r c)"

definition Context_Param :: "('o, 'u, 'b, 't, 'k, 'w) zerohttpContext \<Rightarrow> string \<Rightarrow> string" where
  "Context_Param c name =
     (let v = rq_PathValue (zc_r c) name
      in if ur_RawPath (rq_URL (zc_r c)) = '''' then v
         else (case path_unescape v of None \<Rightarrow> v | Some u \<Rightarrow> u))"

definition Context_Query ::
  "(string \<Rightarrow> string \<Rightarrow> string) \<Rightarrow> ('o, 'u, 'b, 't, 'k, 'w) zerohttpContext \<Rightarrow> string \<Rightarrow> string" where
  "Context_Query queryparam_Get c name = queryparam_Get (ur_RawQuery (rq_URL (zc_r c))) name"

definition Context_Header :: "('o, 'u, 'b, 't, 'k, 'w) zerohttpContext \<Rightarrow> string \<Rightarrow> string" where
  "Context_Header c name = header_get (rq_Header (zc_r c)) name"

text \<open>Go visits the keys of a map in any order, the list \<open>order\<close>.\<close>

definition Context_EachHeader ::
  "string list \<Rightarrow> ('o, 'u, 'b, 't, 'k, 'w) zerohttpContext \<Rightarrow> (string \<Rightarrow> string \<Rightarrow> 'w \<Rightarrow> 'w) \<Rightarrow> 'w \<Rightarrow> 'w" where
  "Context_EachHeader order c cb w =
     fold (\<lambda>name w. case rq_Header (zc_r c) name of None \<Rightarrow> w | Some values \<Rightarrow> fold (cb name) values w) order w"

definition Context_BodyReader :: "('o, 'u, 'b, 't, 'k, 'w) zerohttpContext \<Rightarrow> 'b" where
  "Context_BodyReader c = rq_Body (zc_r c)"

definition MultipartMaxMemory :: int where
  "MultipartMaxMemory = 8 * 1024"

text \<open>\<open>parse\<close> is \<open>ParseMultipartForm\<close> with the form that it leaves in the request.\<close>

definition Context_GetMultipartForm ::
  "(('u, 'b, 't, 'k) http_request \<Rightarrow> int \<Rightarrow> 'w \<Rightarrow> ('m \<times> go_error option) \<times> 'w) \<Rightarrow>
     ('o, 'u, 'b, 't, 'k, 'w) zerohttpContext \<Rightarrow> 'w \<Rightarrow> ('m \<times> go_error option) \<times> 'w" where
  "Context_GetMultipartForm parse c w = parse (zc_r c) MultipartMaxMemory w"

definition Context_SetReadDeadline ::
  "('w response_writer \<Rightarrow> instant \<Rightarrow> ('w, unit) act) \<Rightarrow> ('o, 'u, 'b, 't, 'k, 'w) zerohttpContext \<Rightarrow>
     instant \<Rightarrow> ('w, unit) act" where
  "Context_SetReadDeadline huma_SetReadDeadline c deadline = huma_SetReadDeadline (zc_w c) deadline"

definition Context_SetStatus ::
  "int \<Rightarrow> ('o, 'u, 'b, 't, 'k, 'w) zerohttpContext \<Rightarrow> 'w \<Rightarrow> ('o, 'u, 'b, 't, 'k, 'w) zerohttpContext \<times> 'w" where
  "Context_SetStatus st c w = (c\<lparr>zc_status := st\<rparr>, rw_WriteHeader (zc_w c) st w)"

definition Context_Status :: "('o, 'u, 'b, 't, 'k, 'w) zerohttpContext \<Rightarrow> int" where
  "Context_Status c = zc_status c"

definition Context_AppendHeader ::
  "('o, 'u, 'b, 't, 'k, 'w) zerohttpContext \<Rightarrow> string \<Rightarrow> string \<Rightarrow> 'w \<Rightarrow> 'w" where
  "Context_AppendHeader c name v w = rw_Header (zc_w c) (header_add name v) w"

definition Context_SetHeader ::
  "('o, 'u, 'b, 't, 'k, 'w) zerohttpContext \<Rightarrow> string \<Rightarrow> string \<Rightarrow> 'w \<Rightarrow> 'w" where
  "Context_SetHeader c name v w = rw_Header (zc_w c) (header_set name v) w"

definition Context_BodyWriter :: "('o, 'u, 'b, 't, 'k, 'w) zerohttpContext \<Rightarrow> 'w response_writer" where
  "Context_BodyWriter c = zc_w c"

definition Context_TLS :: "('o, 'u, 'b, 't, 'k, 'w) zerohttpContext \<Rightarrow> 't option" where
  "Context_TLS c = rq_TLS (zc_r c)"

definition Context_Version :: "('o, 'u, 'b, 't, 'k, 'w) zerohttpContext \<Rightarrow> string \<times> int \<times> int" where
  "Context_Version c = (rq_Proto (zc_r c), rq_ProtoMajor (zc_r c), rq_ProtoMinor (zc_r c))"

section \<open>The adapter\<close>

record ('h, 'g) zerohttpAdapter =
  ad_router :: "('h, 'g) router"

definition NewAdapter :: "('h, 'g) router \<Rightarrow> ('h, 'g) zerohttpAdapter" where
  "NewAdapter r = \<lparr>ad_router = r\<rparr>"

definition huma_handler ::
  "'o operation \<Rightarrow> (('o, 'u, 'b, 't, 'k, 'w) zerohttpContext \<Rightarrow> 'w \<Rightarrow> 'w) \<Rightarrow> ('u, 'b, 't, 'k, 'w) zh_handler" where
  "huma_handler op handler w r s = (Inr (), handler (NewContext op r w) s)"

definition Adapter_Handle ::
  "(string \<Rightarrow> string) \<Rightarrow> (('u, 'b, 't, 'k, 'w) zh_handler, 'g) zerohttpAdapter \<Rightarrow> 'o operation \<Rightarrow>
     (('o, 'u, 'b, 't, 'k, 'w) zerohttpContext \<Rightarrow> 'w \<Rightarrow> 'w) \<Rightarrow> 'g \<Rightarrow> 'g" where
  "Adapter_Handle uni a op handler =
     (let humaHandler = huma_handler op handler;
          method = to_upper uni (op_Method op)
      in if method = ''GET'' then ro_GET (ad_router a) (op_Path op) humaHandler
         else if method = ''POST'' then ro_POST (ad_router a) (op_Path op) humaHandler
         else if method = ''PUT'' then ro_PUT (ad_router a) (op_Path op) humaHandler
         else if method = ''DELETE'' then ro_DELETE (ad_router a) (op_Path op) humaHandler
         else if method = ''PATCH'' then ro_PATCH (ad_router a) (op_Path op) humaHandler
         else if method = ''HEAD'' then ro_HEAD (ad_router a) (op_Path op) humaHandler
         else if method = ''OPTIONS'' then ro_OPTIONS (ad_router a) (op_Path op) humaHandler
         else (\<lambda>g. g))"

definition Adapter_ServeHTTP :: "('h, 'g) zerohttpAdapter \<Rightarrow> 'h" where
  "Adapter_ServeHTTP a = ro_ServeHTTP (ad_router a)"

definition Huma_New ::
  "('cfg \<Rightarrow> ('h, 'g) zerohttpAdapter \<Rightarrow> 'api) \<Rightarrow> ('h, 'g) router \<Rightarrow> 'cfg \<Rightarrow> 'api" where
  "Huma_New NewAPI server_Router config = NewAPI config \<lparr>ad_router = server_Router\<rparr>"

section \<open>Properties\<close>

lemma unwrap_loop_chain:
  assumes "unwrap_loop up c = Some d"
  shows "(\<lambda>a b. up a = Some b)\<^sup>*\<^sup>* c d \<and> up d = None"
  using assms
proof (rule unwrap_loop.raw_induct
    [where P = "\<lambda>up c d. (\<lambda>a b. up a = Some b)\<^sup>*\<^sup>* c d \<and> up d = None", rotated])
  fix loop and up :: "'c \<Rightarrow> 'c option" and c d
  assume IH: "\<And>up c d. loop up c = Some d \<Longrightarrow> (\<lambda>a b. up a = Some b)\<^sup>*\<^sup>* c d \<and> up d = None"
    and step: "(case up c of None \<Rightarrow> Some c | Some c \<Rightarrow> loop up c) = Some d"
  show "(\<lambda>a b. up a = Some b)\<^sup>*\<^sup>* c d \<and> up d = None"
  proof (cases "up c")
    case (Some b)
    then have "(\<lambda>a b. up a = Some b)\<^sup>*\<^sup>* b d \<and> up d = None" using IH [of up b d] step by simp
    then show ?thesis using Some by (auto intro: converse_rtranclp_into_rtranclp)
  qed (use step in simp)
qed

lemma chain_unwrap_loop:
  assumes "(\<lambda>a b. up a = Some b)\<^sup>*\<^sup>* c d" and "up d = None"
  shows "unwrap_loop up c = Some d"
  using assms by (induction rule: converse_rtranclp_induct) (simp_all add: unwrap_loop.simps)

text \<open>
  C20: when unwrapping a context ends. Unwrap returns or panics exactly if finitely many calls of Unwrap
  lead from the context to one without that method, and then with the request and the writer of that
  one if it is a context of this adapter and with a panic if it is not; a context that unwraps to
  itself, or any cycle of contexts, makes it run for ever.
\<close>

theorem unwrap_terminates:
  "(Unwrap up zctx c \<noteq> None \<longleftrightarrow> (\<exists>d. (\<lambda>a b. up a = Some b)\<^sup>*\<^sup>* c d \<and> up d = None)) \<and>
   (\<forall>d. (\<lambda>a b. up a = Some b)\<^sup>*\<^sup>* c d \<and> up d = None \<longrightarrow>
      Unwrap up zctx c = Some (case zctx d of
          Some z \<Rightarrow> Inr (zc_r z, zc_w z)
        | None \<Rightarrow> Inl (Panicked (NewError ''not a zerohttp huma context'')))) \<and>
   ((\<lambda>a b. up a = Some b)\<^sup>+\<^sup>+ c c \<longrightarrow> Unwrap up zctx c = None)"
proof (intro conjI)
  show "Unwrap up zctx c \<noteq> None \<longleftrightarrow> (\<exists>d. (\<lambda>a b. up a = Some b)\<^sup>*\<^sup>* c d \<and> up d = None)"
  proof (cases "unwrap_loop up c")
    case None
    then have "\<not> ((\<lambda>a b. up a = Some b)\<^sup>*\<^sup>* c d \<and> up d = None)" for d
      using chain_unwrap_loop [of up c d] by auto
    then show ?thesis by (simp add: Unwrap_def None)
  next
    case (Some d)
    then show ?thesis using unwrap_loop_chain [OF Some] by (auto simp: Unwrap_def)
  qed
  show "\<forall>d. (\<lambda>a b. up a = Some b)\<^sup>*\<^sup>* c d \<and> up d = None \<longrightarrow>
      Unwrap up zctx c = Some (case zctx d of
          Some z \<Rightarrow> Inr (zc_r z, zc_w z)
        | None \<Rightarrow> Inl (Panicked (NewError ''not a zerohttp huma context'')))"
  proof (intro allI impI)
    fix d assume "(\<lambda>a b. up a = Some b)\<^sup>*\<^sup>* c d \<and> up d = None"
    then have "unwrap_loop up c = Some d" using chain_unwrap_loop [of up c d] by blast
    then show "Unwrap up zctx c = Some (case zctx d of
          Some z \<Rightarrow> Inr (zc_r z, zc_w z)
        | None \<Rightarrow> Inl (Panicked (NewError ''not a zerohttp huma context'')))"
      by (simp add: Unwrap_def Context_Unwrap_def split: option.split)
  qed
  show "(\<lambda>a b. up a = Some b)\<^sup>+\<^sup>+ c c \<longrightarrow> Unwrap up zctx c = None"
  proof (intro impI, rule ccontr)
    let ?R = "\<lambda>a b. up a = Some b"
    assume cyc: "?R\<^sup>+\<^sup>+ c c" and "Unwrap up zctx c \<noteq> None"
    then obtain d where d: "?R\<^sup>*\<^sup>* c d" "up d = None"
      using unwrap_loop_chain [of up c] by (auto simp: Unwrap_def split: option.splits)
    have "?R\<^sup>+\<^sup>+ d c"
      using d(1)
    proof (induction rule: rtranclp_induct)
      case (step y z)
      obtain y' where "?R y y'" "?R\<^sup>*\<^sup>* y' c" using tranclpD [OF step.IH] by blast
      then have "?R\<^sup>*\<^sup>* z c" using step.hyps(2) by simp
      then show ?case by (rule rtranclp_tranclp_tranclp [OF _ cyc])
    qed (rule cyc)
    then obtain z where "up d = Some z" using tranclpD by fastforce
    then show False using d(2) by simp
  qed
qed

theorem unwrap_terminates_witness:
  "Unwrap (\<lambda>n :: nat. if n = 0 then None else Some (n - 1)) (\<lambda>_. None :: (unit, unit, unit, unit, unit, unit) zerohttpContext option) 2 =
     Some (Inl (Panicked (NewError ''not a zerohttp huma context''))) \<and>
   Unwrap (\<lambda>n :: nat. Some (3 - n)) (\<lambda>_. None :: (unit, unit, unit, unit, unit, unit) zerohttpContext option) 1 = None"
proof -
  let ?d = "\<lambda>n :: nat. if n = 0 then None else Some (n - 1)" and ?s = "\<lambda>n :: nat. Some (3 - n)"
  have "(\<lambda>a b. ?d a = Some b)\<^sup>*\<^sup>* 2 0"
    by (rule converse_rtranclp_into_rtranclp [of _ _ 1], simp)
      (rule converse_rtranclp_into_rtranclp [of _ _ 0], simp_all)
  moreover have "(\<lambda>a b. ?s a = Some b)\<^sup>+\<^sup>+ 1 1"
    by (rule tranclp.trancl_into_trancl [of _ _ 2]) auto
  ultimately show ?thesis
    using unwrap_terminates [of ?d "\<lambda>_. None" 2] unwrap_terminates [of ?s "\<lambda>_. None" 1] by auto
qed

text \<open>
  Path parameters are decoded twice. The router decodes each segment of the path, so PathValue is
  the decoded segment; if the request has a raw path, Param decodes it again. So for the segment \<open>raw\<close>,
  Param is its decoded form exactly if the request has no raw path, or the decoded form has no percent
  sign left, or what is left is not a valid escape.
\<close>

theorem param_decoded_twice:
  assumes "path_unescape raw = Some v" and "rq_PathValue (zc_r c) name = v"
  shows "Context_Param c name = v \<longleftrightarrow>
    ur_RawPath (rq_URL (zc_r c)) = '''' \<or> CHR ''%'' \<notin> set v \<or> path_unescape v = None"
  using assms unescape_same [of v] by (auto simp: Context_Param_def Let_def split: option.split)

text \<open>The path \<open>/files/a%2F%2541\<close>: the parameter is "a/%41", the handler gets "a/A".\<close>

definition demo_request :: "(unit, unit, unit, unit) http_request" where
  "demo_request = \<lparr>rq_Method = ''GET'', rq_Host = ''h'', rq_RemoteAddr = '''',
     rq_URL = \<lparr>ur_RawPath = ''/files/a%2F%2541'', ur_RawQuery = '''', ur_rest = ()\<rparr>,
     rq_Header = Map.empty, rq_PathValue = (\<lambda>n. if n = ''name'' then ''a/%41'' else ''''),
     rq_Body = (), rq_TLS = None, rq_Context = (), rq_Proto = ''HTTP/1.1'', rq_ProtoMajor = 1, rq_ProtoMinor = 1\<rparr>"

definition demo_operation :: "string \<Rightarrow> unit operation" where
  "demo_operation m = \<lparr>op_Method = m, op_Path = ''/files/{name}'', op_rest = ()\<rparr>"

definition demo_writer :: "unit response_writer" where
  "demo_writer = \<lparr>rw_WriteHeader = \<lambda>_ s. s, rw_Header = \<lambda>_ s. s\<rparr>"

theorem param_decoded_twice_witness:
  "Context_Param (NewContext (demo_operation ''GET'') demo_request demo_writer) ''name'' \<noteq> ''a/%41''"
proof -
  have "path_unescape ''a%2F%2541'' = Some ''a/%41''" "path_unescape ''a/%41'' = Some ''a/A''" by code_simp+
  then show ?thesis
    using param_decoded_twice [of "''a%2F%2541''" "''a/%41''" "NewContext (demo_operation ''GET'') demo_request demo_writer" "''name''"]
    by (simp add: NewContext_def demo_request_def)
qed

text \<open>
  A router as the adapter uses it: it collects routes in the order in which they are registered.
\<close>

locale route_table =
  fixes ro :: "(('u, 'b, 't, 'k, 'w) zh_handler, 'g) router"
    and routes :: "'g \<Rightarrow> (string \<times> string \<times> ('u, 'b, 't, 'k, 'w) zh_handler) list"
  assumes registers:
    "routes (ro_GET ro p h g) = routes g @ [(''GET'', p, h)]"
    "routes (ro_POST ro p h g) = routes g @ [(''POST'', p, h)]"
    "routes (ro_PUT ro p h g) = routes g @ [(''PUT'', p, h)]"
    "routes (ro_DELETE ro p h g) = routes g @ [(''DELETE'', p, h)]"
    "routes (ro_PATCH ro p h g) = routes g @ [(''PATCH'', p, h)]"
    "routes (ro_HEAD ro p h g) = routes g @ [(''HEAD'', p, h)]"
    "routes (ro_OPTIONS ro p h g) = routes g @ [(''OPTIONS'', p, h)]"

definition supported_method :: "string \<Rightarrow> bool" where
  "supported_method m \<longleftrightarrow> m \<in> {''GET'', ''POST'', ''PUT'', ''DELETE'', ''PATCH'', ''HEAD'', ''OPTIONS''}"

definition handle_all ::
  "(string \<Rightarrow> string) \<Rightarrow> (('u, 'b, 't, 'k, 'w) zh_handler, 'g) zerohttpAdapter \<Rightarrow>
     ('o operation \<times> (('o, 'u, 'b, 't, 'k, 'w) zerohttpContext \<Rightarrow> 'w \<Rightarrow> 'w)) list \<Rightarrow> 'g \<Rightarrow> 'g" where
  "handle_all uni a ops g = fold (\<lambda>(op, handler). Adapter_Handle uni a op handler) ops g"

context route_table
begin

lemma Handle_routes:
  assumes "ad_router a = ro"
  shows "routes (Adapter_Handle uni a op handler g) =
    (let m = to_upper uni (op_Method op)
     in if supported_method m then routes g @ [(m, op_Path op, huma_handler op handler)] else routes g)"
  by (simp add: assms Adapter_Handle_def Let_def registers supported_method_def)

lemma handle_all_routes:
  assumes "ad_router a = ro"
  shows "routes (handle_all uni a ops g) = routes g @
    map (\<lambda>(op, handler). (to_upper uni (op_Method op), op_Path op, huma_handler op handler))
      (filter (\<lambda>(op, handler). supported_method (to_upper uni (op_Method op))) ops)"
  by (induction ops arbitrary: g)
    (auto simp: handle_all_def Handle_routes [OF assms] Let_def)

end

text \<open>A router that is its list of routes. It is not code of the repository.\<close>

type_synonym demo_handler = "(unit, unit, unit, unit, nat) zh_handler"

definition demo_register ::
  "string \<Rightarrow> string \<Rightarrow> demo_handler \<Rightarrow> (string \<times> string \<times> demo_handler) list \<Rightarrow>
     (string \<times> string \<times> demo_handler) list" where
  "demo_register m p h g = g @ [(m, p, h)]"

definition demo_router :: "(demo_handler, (string \<times> string \<times> demo_handler) list) router" where
  "demo_router = \<lparr>ro_GET = demo_register ''GET'', ro_POST = demo_register ''POST'',
     ro_PUT = demo_register ''PUT'', ro_DELETE = demo_register ''DELETE'', ro_PATCH = demo_register ''PATCH'',
     ro_HEAD = demo_register ''HEAD'', ro_OPTIONS = demo_register ''OPTIONS'',
     ro_ServeHTTP = (\<lambda>w r s. (Inr (), s))\<rparr>"

interpretation demo_router: route_table demo_router "\<lambda>g. g"
  by unfold_locales (simp_all add: demo_router_def demo_register_def)

text \<open>
  C38: which operations are served. Registering a list of operations gives the router, in their order,
  one route for each whose method is, in upper case, one of the seven that zerohttp routes; its handler
  runs the operation's handler on a new context (status 0, this request and writer) and never returns
  an error. An operation with any other method, such as TRACE, is dropped and nothing reports it.
\<close>

theorem handle_registers:
  assumes "route_table ro routes" and "ad_router a = ro"
  shows "routes (handle_all uni a ops g) = routes g @
      map (\<lambda>(op, handler). (to_upper uni (op_Method op), op_Path op, huma_handler op handler))
        (filter (\<lambda>(op, handler). supported_method (to_upper uni (op_Method op))) ops) \<and>
    huma_handler op handler w r s =
      (Inr (), handler \<lparr>zc_op = op, zc_r = r, zc_w = w, zc_status = 0\<rparr> s)"
  using route_table.handle_all_routes [OF assms] by (simp add: huma_handler_def NewContext_def)

theorem handle_registers_witness:
  "map fst (handle_all (\<lambda>s. s) (NewAdapter demo_router)
     [(demo_operation ''get'', \<lambda>c n. n + 1), (demo_operation ''TRACE'', \<lambda>c n. n)] []) = [''GET'']"
proof -
  have "to_upper (\<lambda>s. s) ''get'' = ''GET''" "to_upper (\<lambda>s. s) ''TRACE'' = ''TRACE''" by code_simp+
  then show ?thesis
    using handle_registers [THEN conjunct1, OF demo_router.route_table_axioms, of "NewAdapter demo_router" "\<lambda>s. s"
      "[(demo_operation ''get'', \<lambda>c n. n + 1), (demo_operation ''TRACE'', \<lambda>c n. n)]" "[]"]
    by (simp add: NewAdapter_def demo_operation_def supported_method_def)
qed

end
