(* ===== verification/Huma_Response.thy ===== *)
theory Huma_Response
  imports Huma
begin

text \<open>
  The response side of the Huma context: what reaches the client after any sequence of SetStatus,
  AppendHeader and SetHeader. The response writer is net/http's, with the laws of its documentation: the
  header map can be changed at any time, the first WriteHeader sends the status with the headers of that
  moment, and later calls of it do nothing.
\<close>

section \<open>A response writer\<close>

record http_reply =
  hr_header :: header
  hr_sent :: "(int \<times> header) option"

text \<open>A final status: WriteHeader panics for codes outside 100 to 999, and 1xx is informational.\<close>

definition final_status :: "int \<Rightarrow> bool" where
  "final_status n \<longleftrightarrow> 200 \<le> n \<and> n \<le> 999"

locale http_writer =
  fixes wr :: "'w response_writer" and view :: "'w \<Rightarrow> http_reply"
  assumes header_view: "view (rw_Header wr f w) = view w\<lparr>hr_header := f (hr_header (view w))\<rparr>"
    and write_view: "final_status n \<Longrightarrow> view (rw_WriteHeader wr n w) =
      (case hr_sent (view w) of None \<Rightarrow> view w\<lparr>hr_sent := Some (n, hr_header (view w))\<rparr> | Some _ \<Rightarrow> view w)"

section \<open>Operations of the context\<close>

datatype context_op = SetStatus int | AppendHeader string string | SetHeader string string

fun context_step ::
  "context_op \<Rightarrow> ('o, 'u, 'b, 't, 'k, 'w) zerohttpContext \<times> 'w \<Rightarrow> ('o, 'u, 'b, 't, 'k, 'w) zerohttpContext \<times> 'w" where
  "context_step (SetStatus n) (c, w) = Context_SetStatus n c w"
| "context_step (AppendHeader k v) (c, w) = (c, Context_AppendHeader c k v w)"
| "context_step (SetHeader k v) (c, w) = (c, Context_SetHeader c k v w)"

definition context_run ::
  "context_op list \<Rightarrow> ('o, 'u, 'b, 't, 'k, 'w) zerohttpContext \<times> 'w \<Rightarrow>
     ('o, 'u, 'b, 't, 'k, 'w) zerohttpContext \<times> 'w" where
  "context_run ops s = fold context_step ops s"

section \<open>What the client gets\<close>

fun statuses :: "context_op \<Rightarrow> int list" where
  "statuses (SetStatus n) = [n]"
| "statuses _ = []"

text \<open>
  The values of a header: those appended since the last SetHeader of that name. Names are the same when
  their canonical forms are.
\<close>

fun next_values :: "string \<Rightarrow> context_op \<Rightarrow> string list \<Rightarrow> string list" where
  "next_values k (SetStatus n) vs = vs"
| "next_values k (AppendHeader j v) vs = (if canonical_key j = k then vs @ [v] else vs)"
| "next_values k (SetHeader j v) vs = (if canonical_key j = k then [v] else vs)"

definition header_values :: "context_op list \<Rightarrow> string \<Rightarrow> string list" where
  "header_values ops k = fold (next_values k) ops []"

definition before_status :: "context_op list \<Rightarrow> context_op list" where
  "before_status ops = takeWhile (\<lambda>op. statuses op = []) ops"

definition values_at :: "header \<Rightarrow> string \<Rightarrow> string list" where
  "values_at h k = (case h k of None \<Rightarrow> [] | Some vs \<Rightarrow> vs)"

lemma values_at_header:
  "values_at (header_add j v h) k = next_values k (AppendHeader j v) (values_at h k)"
  "values_at (header_set j v h) k = next_values k (SetHeader j v) (values_at h k)"
  by (auto simp: values_at_def header_add_def header_set_def split: option.split)

context http_writer
begin

lemma step_keeps: "zc_w (fst (context_step op (c, w))) = zc_w c"
  by (cases op) (simp_all add: Context_SetStatus_def)

lemma step_view:
  assumes "zc_w c = wr" and "list_all final_status (statuses op)"
  shows "values_at (hr_header (view (snd (context_step op (c, w))))) k =
      next_values k op (values_at (hr_header (view w)) k)"
    and "hr_sent (view (snd (context_step op (c, w)))) =
      (case hr_sent (view w) of
         None \<Rightarrow> (case statuses op of [] \<Rightarrow> None | n # _ \<Rightarrow> Some (n, hr_header (view w)))
       | Some x \<Rightarrow> Some x)"
    and "zc_status (fst (context_step op (c, w))) = last (zc_status c # statuses op)"
  using assms
  by (cases op; simp add: Context_SetStatus_def Context_AppendHeader_def Context_SetHeader_def header_view
      write_view values_at_header split: option.split)+

text \<open>The last status is the one that the context reports.\<close>

lemma run_status:
  assumes "zc_w c = wr" and "list_all (\<lambda>op. list_all final_status (statuses op)) ops"
  shows "zc_status (fst (context_run ops (c, w))) = last (zc_status c # concat (map statuses ops))"
  using assms
proof (induction ops arbitrary: c w)
  case (Cons op ops)
  obtain c' w' where s: "context_step op (c, w) = (c', w')" by (cases "context_step op (c, w)")
  have "zc_w c' = wr" using step_keeps [of op c w] Cons.prems(1) s by simp
  then show ?case
    using Cons.IH [of c' w'] Cons.prems step_view(3) [OF Cons.prems(1), of op w] s
    by (simp add: context_run_def last_append)
qed (simp add: context_run_def)

text \<open>Once a status went out, nothing else goes out; before, the headers accumulate.\<close>

lemma run_sent:
  assumes "zc_w c = wr" and "list_all (\<lambda>op. list_all final_status (statuses op)) ops"
    and "hr_sent (view w) = Some x"
  shows "hr_sent (view (snd (context_run ops (c, w)))) = Some x"
  using assms
proof (induction ops arbitrary: c w)
  case (Cons op ops)
  obtain c' w' where s: "context_step op (c, w) = (c', w')" by (cases "context_step op (c, w)")
  have "zc_w c' = wr" using step_keeps [of op c w] Cons.prems(1) s by simp
  moreover have "hr_sent (view w') = Some x"
    using step_view(2) [OF Cons.prems(1), of op w] Cons.prems(2,3) s by simp
  ultimately show ?case using Cons.IH [of c' w'] Cons.prems(2) s by (simp add: context_run_def)
qed (simp add: context_run_def)

lemma run_first:
  assumes "zc_w c = wr" and "list_all (\<lambda>op. list_all final_status (statuses op)) ops"
    and "hr_sent (view w) = None"
  shows "map_option (\<lambda>(n, h). (n, values_at h)) (hr_sent (view (snd (context_run ops (c, w))))) =
    (case concat (map statuses ops) of
       [] \<Rightarrow> None
     | n # _ \<Rightarrow> Some (n, \<lambda>k. fold (next_values k) (before_status ops) (values_at (hr_header (view w)) k)))"
  using assms
proof (induction ops arbitrary: c w)
  case (Cons op ops)
  obtain c' w' where s: "context_step op (c, w) = (c', w')" by (cases "context_step op (c, w)")
  have wr: "zc_w c' = wr" using step_keeps [of op c w] Cons.prems(1) s by simp
  have fin: "list_all (\<lambda>op. list_all final_status (statuses op)) ops" using Cons.prems(2) by simp
  note v = step_view [OF Cons.prems(1), of op w]
  show ?case
  proof (cases "statuses op")
    case Nil
    then have "hr_sent (view w') = None" using v(2) Cons.prems(2,3) s by simp
    note IH = Cons.IH [OF wr fin this]
    have "before_status (op # ops) = op # before_status ops" using Nil by (simp add: before_status_def)
    then show ?thesis
      using IH v(1) Cons.prems(2) s Nil by (simp add: context_run_def cong: list.case_cong)
  next
    case (Cons n ns)
    then have "hr_sent (view w') = Some (n, hr_header (view w))" using v(2) Cons.prems(2,3) s by simp
    from run_sent [OF wr fin this] show ?thesis
      using s Cons by (simp add: context_run_def before_status_def fun_eq_iff)
  qed
qed (simp add: context_run_def)

end

section \<open>A writer that is its reply\<close>

definition reply_writer :: "http_reply response_writer" where
  "reply_writer =
     \<lparr>rw_WriteHeader = (\<lambda>n w. case hr_sent w of None \<Rightarrow> w\<lparr>hr_sent := Some (n, hr_header w)\<rparr> | Some _ \<Rightarrow> w),
      rw_Header = (\<lambda>f w. w\<lparr>hr_header := f (hr_header w)\<rparr>)\<rparr>"

interpretation reply_writer: http_writer reply_writer "\<lambda>w. w"
  by unfold_locales (simp_all add: reply_writer_def)

section \<open>Property\<close>

text \<open>
  C29: the response that a Huma handler makes. After any sequence of SetStatus (with final status codes),
  AppendHeader and SetHeader on a new context, nothing has been sent if there was no SetStatus; otherwise
  the client got the status of the first SetStatus with, for every header, the values appended before it
  since the last SetHeader of that name (in any spelling), and nothing that came later. Status reports the
  last SetStatus instead, or 0.
\<close>

theorem context_response:
  assumes "http_writer wr view" and "list_all (\<lambda>op. list_all final_status (statuses op)) ops"
    and "view w = \<lparr>hr_header = Map.empty, hr_sent = None\<rparr>"
  shows "map_option (\<lambda>(n, h). (n, values_at h))
      (hr_sent (view (snd (context_run ops (NewContext op r wr, w))))) =
    (case concat (map statuses ops) of [] \<Rightarrow> None | n # _ \<Rightarrow> Some (n, header_values (before_status ops))) \<and>
    Context_Status (fst (context_run ops (NewContext op r wr, w))) = last (0 # concat (map statuses ops))"
proof -
  have c: "zc_w (NewContext op r wr) = wr" "zc_status (NewContext op r wr) = 0" by (simp_all add: NewContext_def)
  have "hr_sent (view w) = None" by (simp add: assms(3))
  note h = http_writer.run_first [OF assms(1) c(1) assms(2) this] http_writer.run_status [OF assms(1) c(1) assms(2), of w]
  have "values_at (hr_header (view w)) k = []" for k by (simp add: assms(3) values_at_def)
  then show ?thesis
    using h by (simp add: c(2) Context_Status_def header_values_def [abs_def] cong: list.case_cong)
qed

definition two_statuses :: "context_op list" where
  "two_statuses = [AppendHeader ''x-a'' ''1'', SetHeader ''X-A'' ''2'', AppendHeader ''x-A'' ''3'', SetStatus 200,
     SetHeader ''X-A'' ''4'', SetStatus 500]"

theorem context_response_witness:
  "map_option (\<lambda>(n, h). (n, values_at h ''X-A''))
     (hr_sent (snd (context_run two_statuses (NewContext (demo_operation ''GET'') demo_request reply_writer,
       \<lparr>hr_header = Map.empty, hr_sent = None\<rparr>)))) = Some (200, [''2'', ''3'']) \<and>
   Context_Status (fst (context_run two_statuses (NewContext (demo_operation ''GET'') demo_request reply_writer,
       \<lparr>hr_header = Map.empty, hr_sent = None\<rparr>))) = 500"
proof -
  have key: "canonical_key ''x-a'' = ''X-A''" "canonical_key ''X-A'' = ''X-A''" "canonical_key ''x-A'' = ''X-A''"
    by code_simp+
  have ops: "before_status two_statuses = take 3 two_statuses" "concat (map statuses two_statuses) = [200, 500]"
    "list_all (\<lambda>op. list_all final_status (statuses op)) two_statuses"
    by (simp_all add: before_status_def two_statuses_def final_status_def)
  have xa: "header_values (take 3 two_statuses) ''X-A'' = [''2'', ''3'']"
    by (simp add: header_values_def two_statuses_def key)
  show ?thesis
    using context_response [OF reply_writer.http_writer_axioms ops(3) refl, of "demo_operation ''GET''" demo_request]
    by (auto simp: ops(1,2) xa)
qed

end
