(* ===== verification/Compress.thy ===== *)
theory Compress
  imports Prelude
begin

text \<open>
  \<open>middleware/compress\<close>: the Brotli and Zstd providers of the compression middleware. An encoder wraps a
  writer \<open>'i\<close> into another one; the Brotli and Zstd packages that do so are parameters. A provider that
  does not know an encoding gives the nil encoder, \<open>None\<close>.
\<close>

section \<open>Brotli\<close>

record brotli_encoder =
  be_level :: int

record brotli_provider =
  bp_Level :: int

definition BrotliEncoder_Encode :: "('i \<Rightarrow> int \<Rightarrow> 'i) \<Rightarrow> brotli_encoder \<Rightarrow> 'i \<Rightarrow> int \<Rightarrow> 'i" where
  "BrotliEncoder_Encode NewWriterLevel e w _ = NewWriterLevel w (be_level e)"

definition BrotliEncoder_Encoding :: "brotli_encoder \<Rightarrow> string" where
  "BrotliEncoder_Encoding e = ''br''"

definition BrotliProvider_GetEncoder :: "brotli_provider \<Rightarrow> string \<Rightarrow> brotli_encoder option" where
  "BrotliProvider_GetEncoder p encoding =
     (if encoding = ''br''
      then (let level = bp_Level p; level = (if level = 0 then 4 else level)
            in Some \<lparr>be_level = level\<rparr>)
      else None)"

section \<open>Zstd\<close>

text \<open>
  The encoder levels of the zstd package are integers; \<open>SpeedDefault\<close> is the parameter \<open>dflt\<close>.
  \<open>NewWriter\<close> takes the level as an option and may fail; the second call's error is dropped, and the
  code then returns the nil encoder that comes with it, the parameter \<open>nil\<close>.
\<close>

record zstd_encoder =
  ze_level :: int

record zstd_provider =
  zp_Level :: int

definition ZstdEncoder_Encode ::
  "('i \<Rightarrow> int option \<Rightarrow> 'i res) \<Rightarrow> 'i \<Rightarrow> zstd_encoder \<Rightarrow> 'i \<Rightarrow> int \<Rightarrow> 'i" where
  "ZstdEncoder_Encode NewWriter nil e w _ =
     (case NewWriter w (Some (ze_level e)) of
        Inr encoder \<Rightarrow> encoder
      | Inl err \<Rightarrow> (case NewWriter w None of Inr encoder \<Rightarrow> encoder | Inl _ \<Rightarrow> nil))"

definition ZstdEncoder_Encoding :: "zstd_encoder \<Rightarrow> string" where
  "ZstdEncoder_Encoding e = ''zstd''"

definition ZstdProvider_GetEncoder :: "int \<Rightarrow> zstd_provider \<Rightarrow> string \<Rightarrow> zstd_encoder option" where
  "ZstdProvider_GetEncoder dflt p encoding =
     (if encoding = ''zstd''
      then (let level = zp_Level p; level = (if level = 0 then dflt else level)
            in Some \<lparr>ze_level = level\<rparr>)
      else None)"

section \<open>What a provider gives\<close>

text \<open>An encoder that a provider gives answers to the name it was asked for.\<close>

lemma encoder_named:
  "BrotliProvider_GetEncoder p n = Some e \<Longrightarrow> BrotliEncoder_Encoding e = n"
  "ZstdProvider_GetEncoder d q n = Some f \<Longrightarrow> ZstdEncoder_Encoding f = n"
  by (auto simp: BrotliProvider_GetEncoder_def BrotliEncoder_Encoding_def ZstdProvider_GetEncoder_def
      ZstdEncoder_Encoding_def split: if_splits)

text \<open>
  The Brotli level 0, which the comment on the provider names as valid (the fastest), is never used: it
  is taken for a level that was not set.
\<close>

lemma brotli_never_level_0: "BrotliProvider_GetEncoder p n = Some e \<Longrightarrow> be_level e \<noteq> 0"
  by (auto simp: BrotliProvider_GetEncoder_def Let_def split: if_splits)

end
