(* ===== verification/Extensions.thy ===== *)
theory Extensions
  imports Prelude
begin

text \<open>
  \<open>extensions/autocert\<close>, \<open>http3\<close>, \<open>webtransport\<close> and \<open>websocket\<close>: the adapters of the ACME manager, the
  QUIC servers and the WebSocket upgrader. What the wrapped packages do is a parameter, a record of the
  functions that the adapters call, on the outside world \<open>'w\<close>; the adapters' own part is the TLS
  configuration that they fill in.
\<close>

section \<open>The certificate manager\<close>

record ('h, 'c, 'f, 'w) acme_lib =
  ac_GetCertificate :: "'h \<Rightarrow> ('w, 'c) act"
  ac_HTTPHandler :: "'f \<Rightarrow> 'f"

record ('h, 'c, 'f, 'w) autocert_manager =
  am_Manager :: "('h, 'c, 'f, 'w) acme_lib"
  am_hostnames :: "string list"

text \<open>
  What the ACME package gives: the answer that accepts the terms of service, the policy that admits
  the named hosts, and the manager with a cache, such an answer and such a policy.
\<close>

record ('cache, 'h, 'c, 'f, 'w) acme_pkg =
  ap_AcceptTOS :: "string \<Rightarrow> bool"
  ap_HostWhitelist :: "string list \<Rightarrow> string \<Rightarrow> unit res"
  ap_Manager :: "'cache \<Rightarrow> (string \<Rightarrow> bool) \<Rightarrow> (string \<Rightarrow> unit res) \<Rightarrow> ('h, 'c, 'f, 'w) acme_lib"

definition NewManager ::
  "('cache, 'h, 'c, 'f, 'w) acme_pkg \<Rightarrow> 'cache \<Rightarrow> string list \<Rightarrow> ('h, 'c, 'f, 'w) autocert_manager" where
  "NewManager acme cache hostnames =
     \<lparr>am_Manager = ap_Manager acme cache (ap_AcceptTOS acme) (ap_HostWhitelist acme hostnames),
      am_hostnames = hostnames\<rparr>"

definition Manager_GetCertificate :: "('h, 'c, 'f, 'w) autocert_manager \<Rightarrow> 'h \<Rightarrow> ('w, 'c) act" where
  "Manager_GetCertificate m hello = ac_GetCertificate (am_Manager m) hello"

definition Manager_HTTPHandler :: "('h, 'c, 'f, 'w) autocert_manager \<Rightarrow> 'f \<Rightarrow> 'f" where
  "Manager_HTTPHandler m fallback = ac_HTTPHandler (am_Manager m) fallback"

definition Manager_Hostnames :: "('h, 'c, 'f, 'w) autocert_manager \<Rightarrow> string list" where
  "Manager_Hostnames m = am_hostnames m"

section \<open>HTTP/3\<close>

record ('h, 'c, 'w) tls_config =
  tls_GetCertificate :: "'h \<Rightarrow> ('w, 'c) act"
  tls_NextProtos :: "string list"

record ('h, 'c, 'f, 'w) h3_server =
  h3_Addr :: string
  h3_Handler :: 'f
  h3_TLSConfig :: "('h, 'c, 'w) tls_config option"

text \<open>What the wrapped server does, on the fields that it has when it is called.\<close>

record ('s, 'k, 'w) serve_lib =
  sl_ListenAndServe :: "'s \<Rightarrow> ('w, unit) act"
  sl_ListenAndServeTLS :: "'s \<Rightarrow> string \<Rightarrow> string \<Rightarrow> ('w, unit) act"
  sl_Shutdown :: "'s \<Rightarrow> 'k \<Rightarrow> ('w, unit) act"
  sl_Close :: "'s \<Rightarrow> ('w, unit) act"

definition autocert_tls :: "('h, 'c, 'f, 'w) autocert_manager \<Rightarrow> ('h, 'c, 'w) tls_config" where
  "autocert_tls m = \<lparr>tls_GetCertificate = Manager_GetCertificate m, tls_NextProtos = [''h3'']\<rparr>"

definition ensure_tls ::
  "('h, 'c, 'f, 'w) autocert_manager \<Rightarrow> ('h, 'c, 'g, 'w) h3_server \<Rightarrow> ('h, 'c, 'g, 'w) h3_server" where
  "ensure_tls m s = (case h3_TLSConfig s of None \<Rightarrow> s\<lparr>h3_TLSConfig := Some (autocert_tls m)\<rparr> | Some _ \<Rightarrow> s)"

definition NewHTTP3 :: "string \<Rightarrow> 'f \<Rightarrow> ('h, 'c, 'f, 'w) h3_server" where
  "NewHTTP3 addr handler = \<lparr>h3_Addr = addr, h3_Handler = handler, h3_TLSConfig = None\<rparr>"

definition HTTP3_ListenAndServeTLS ::
  "(('h, 'c, 'f, 'w) h3_server, 'k, 'w) serve_lib \<Rightarrow> ('h, 'c, 'f, 'w) h3_server \<Rightarrow> string \<Rightarrow> string \<Rightarrow>
     ('w, unit) act" where
  "HTTP3_ListenAndServeTLS lib s certFile keyFile = sl_ListenAndServeTLS lib s certFile keyFile"

definition HTTP3_Shutdown ::
  "(('h, 'c, 'f, 'w) h3_server, 'k, 'w) serve_lib \<Rightarrow> ('h, 'c, 'f, 'w) h3_server \<Rightarrow> 'k \<Rightarrow> ('w, unit) act" where
  "HTTP3_Shutdown lib s ctx = sl_Shutdown lib s ctx"

definition HTTP3_Close ::
  "(('h, 'c, 'f, 'w) h3_server, 'k, 'w) serve_lib \<Rightarrow> ('h, 'c, 'f, 'w) h3_server \<Rightarrow> ('w, unit) act" where
  "HTTP3_Close lib s = sl_Close lib s"

definition HTTP3_ListenAndServeTLSWithAutocert ::
  "(('h, 'c, 'f, 'w) h3_server, 'k, 'w) serve_lib \<Rightarrow> ('h, 'c, 'g, 'w) autocert_manager \<Rightarrow>
     ('h, 'c, 'f, 'w) h3_server \<Rightarrow> 'w \<Rightarrow> (unit res \<times> 'w) \<times> ('h, 'c, 'f, 'w) h3_server" where
  "HTTP3_ListenAndServeTLSWithAutocert lib manager s w =
     (let s = ensure_tls manager s in (sl_ListenAndServe lib s w, s))"

definition NewWithAutocert ::
  "string \<Rightarrow> 'f \<Rightarrow> ('h, 'c, 'g, 'w) autocert_manager \<Rightarrow> ('h, 'c, 'f, 'w) h3_server" where
  "NewWithAutocert addr handler manager = (let s = NewHTTP3 addr handler in ensure_tls manager s)"

section \<open>WebTransport\<close>

text \<open>A nil server makes the constructor panic. Shutdown goes to the HTTP/3 server inside.\<close>

record ('h, 'c, 'f, 'w) wt_server =
  wt_H3 :: "('h, 'c, 'f, 'w) h3_server"

definition NewWebTransport :: "('h, 'c, 'f, 'w) h3_server option \<Rightarrow> ('h, 'c, 'f, 'w) wt_server res" where
  "NewWebTransport h3Server =
     (case h3Server of
        None \<Rightarrow> Inl (Panicked (NewError ''webtransport: h3Server cannot be nil''))
      | Some h3 \<Rightarrow> Inr \<lparr>wt_H3 = h3\<rparr>)"

definition WebTransport_ListenAndServeTLS ::
  "(('h, 'c, 'f, 'w) wt_server, 'k, 'w) serve_lib \<Rightarrow> ('h, 'c, 'f, 'w) wt_server \<Rightarrow> string \<Rightarrow> string \<Rightarrow>
     ('w, unit) act" where
  "WebTransport_ListenAndServeTLS lib s certFile keyFile = sl_ListenAndServeTLS lib s certFile keyFile"

definition WebTransport_Shutdown ::
  "(('h, 'c, 'f, 'w) h3_server, 'k, 'w) serve_lib \<Rightarrow> ('h, 'c, 'f, 'w) wt_server \<Rightarrow> 'k \<Rightarrow> ('w, unit) act" where
  "WebTransport_Shutdown h3lib s ctx = sl_Shutdown h3lib (wt_H3 s) ctx"

definition WebTransport_Close ::
  "(('h, 'c, 'f, 'w) wt_server, 'k, 'w) serve_lib \<Rightarrow> ('h, 'c, 'f, 'w) wt_server \<Rightarrow> ('w, unit) act" where
  "WebTransport_Close lib s = sl_Close lib s"

definition WebTransport_ListenAndServeTLSWithAutocert ::
  "(('h, 'c, 'f, 'w) wt_server, 'k, 'w) serve_lib \<Rightarrow> ('h, 'c, 'g, 'w) autocert_manager \<Rightarrow>
     ('h, 'c, 'f, 'w) wt_server \<Rightarrow> 'w \<Rightarrow> (unit res \<times> 'w) \<times> ('h, 'c, 'f, 'w) wt_server" where
  "WebTransport_ListenAndServeTLSWithAutocert lib manager s w =
     (let s = s\<lparr>wt_H3 := ensure_tls manager (wt_H3 s)\<rparr> in (sl_ListenAndServe lib s w, s))"

section \<open>WebSocket\<close>

record ('a, 'w) ws_conn_lib =
  wc_ReadMessage :: "('w, int \<times> string) act"
  wc_WriteMessage :: "int \<Rightarrow> string \<Rightarrow> ('w, unit) act"
  wc_Close :: "('w, unit) act"
  wc_RemoteAddr :: 'a

record ('a, 'w) ws_conn =
  ws_conn :: "('a, 'w) ws_conn_lib"

text \<open>An upgrader of gorilla/websocket is its \<open>Upgrade\<close>; its zero value is the parameter \<open>zero\<close>.\<close>

type_synonym ('p, 'r, 'a, 'w) gorilla_upgrader = "'p \<Rightarrow> 'r \<Rightarrow> ('w, ('a, 'w) ws_conn_lib) act"

definition NewUpgrader ::
  "('p, 'r, 'a, 'w) gorilla_upgrader \<Rightarrow> ('p, 'r, 'a, 'w) gorilla_upgrader option \<Rightarrow>
     ('p, 'r, 'a, 'w) gorilla_upgrader" where
  "NewUpgrader zero upgrader = (case upgrader of None \<Rightarrow> zero | Some u \<Rightarrow> u)"

definition Upgrader_Upgrade ::
  "('p, 'r, 'a, 'w) gorilla_upgrader \<Rightarrow> 'p \<Rightarrow> 'r \<Rightarrow> ('w, ('a, 'w) ws_conn) act" where
  "Upgrader_Upgrade u w r = and_then (u w r) (\<lambda>conn. give \<lparr>ws_conn = conn\<rparr>)"

definition Conn_ReadMessage :: "('a, 'w) ws_conn \<Rightarrow> ('w, int \<times> string) act" where
  "Conn_ReadMessage c = wc_ReadMessage (ws_conn c)"

definition Conn_WriteMessage :: "('a, 'w) ws_conn \<Rightarrow> int \<Rightarrow> string \<Rightarrow> ('w, unit) act" where
  "Conn_WriteMessage c messageType data = wc_WriteMessage (ws_conn c) messageType data"

definition Conn_Close :: "('a, 'w) ws_conn \<Rightarrow> ('w, unit) act" where
  "Conn_Close c = wc_Close (ws_conn c)"

definition Conn_RemoteAddr :: "('a, 'w) ws_conn \<Rightarrow> 'a" where
  "Conn_RemoteAddr c = wc_RemoteAddr (ws_conn c)"

section \<open>Which certificate manager is used\<close>

lemma ensure_tls_twice: "ensure_tls m' (ensure_tls m s) = ensure_tls m s"
  by (simp add: ensure_tls_def split: option.split)

text \<open>
  The manager given first stays: a server made with one manager and started with another serves the
  certificates of the first, and a server with a TLS configuration of its own keeps it.
\<close>

lemma first_manager_stays:
  "snd (HTTP3_ListenAndServeTLSWithAutocert lib m' (NewWithAutocert addr handler m) w) =
     NewWithAutocert addr handler m"
  "h3_TLSConfig s = Some t \<Longrightarrow> h3_TLSConfig (snd (HTTP3_ListenAndServeTLSWithAutocert lib m s w)) = Some t"
  "h3_TLSConfig (NewWithAutocert addr handler m) =
     Some \<lparr>tls_GetCertificate = Manager_GetCertificate m, tls_NextProtos = [''h3'']\<rparr>"
  by (simp_all add: HTTP3_ListenAndServeTLSWithAutocert_def NewWithAutocert_def Let_def ensure_tls_twice)
    (simp_all add: ensure_tls_def NewHTTP3_def autocert_tls_def)

end
