(* ===== verification/Websocket_Echo.thy ===== *)
theory Websocket_Echo
  imports Extensions
begin

text \<open>
  \<open>examples/extensions/websocket/main.go\<close>: the echo handler over the WebSocket adapter of
  \<open>Extensions\<close>. The connection is the adapter's; the log of the process, the text of a network address
  and the upgrader that the application holds are parameters. The read loop may run for ever: it is a
  partial function whose value is \<open>None\<close> when it does not return.
\<close>

section \<open>The handler\<close>

text \<open>One pass of the loop: does it go on, and the world after it.\<close>

definition ws_round :: "(string \<Rightarrow> 'w \<Rightarrow> 'w) \<Rightarrow> string \<Rightarrow> ('a, 'w) ws_conn \<Rightarrow> 'w \<Rightarrow> bool \<times> 'w" where
  "ws_round logp client ws w =
     (let (r, w) = Conn_ReadMessage ws w
      in case r of
           Inl err \<Rightarrow>
             (False, logp (''WebSocket client disconnected: '' @ client @ '' ('' @ error_text err @ '')'') w)
         | Inr (mt, msg) \<Rightarrow>
             (let w = logp (''Received from '' @ client @ '': '' @ msg) w;
                  (r, w) = Conn_WriteMessage ws mt (''Echo: '' @ msg) w
              in case r of
                   Inl err \<Rightarrow> (False, logp (''Write error: '' @ error_text err) w)
                 | Inr _ \<Rightarrow> (True, w)))"

partial_function (option) ws_loop ::
  "(string \<Rightarrow> 'w \<Rightarrow> 'w) \<Rightarrow> string \<Rightarrow> ('a, 'w) ws_conn \<Rightarrow> 'w \<Rightarrow> 'w option" where
  "ws_loop logp client ws w =
     (case ws_round logp client ws w of
        (go_on, w') \<Rightarrow> if go_on then ws_loop logp client ws w' else Some w')"

text \<open>The deferred call.\<close>

definition ws_close :: "(string \<Rightarrow> 'w \<Rightarrow> 'w) \<Rightarrow> ('a, 'w) ws_conn \<Rightarrow> 'w \<Rightarrow> 'w" where
  "ws_close logp ws w =
     (let (r, w) = Conn_Close ws w
      in case r of Inl err \<Rightarrow> logp (''WebSocket close error: '' @ error_text err) w | Inr _ \<Rightarrow> w)"

definition ws_handler ::
  "(string \<Rightarrow> 'w \<Rightarrow> 'w) \<Rightarrow> ('a \<Rightarrow> string) \<Rightarrow> ('p, 'r, 'a, 'w) gorilla_upgrader option \<Rightarrow> 'p \<Rightarrow> 'r \<Rightarrow> 'w \<Rightarrow>
     (unit res \<times> 'w) option" where
  "ws_handler logp addr upgrader p r w =
     (case upgrader of
        None \<Rightarrow> Some (Inl (NewError ''websocket upgrader not configured''), w)
      | Some u \<Rightarrow>
          (case Upgrader_Upgrade u p r w of
             (Inl err, w) \<Rightarrow> Some (Inl err, w)
           | (Inr ws, w) \<Rightarrow>
               (let clientAddr = addr (Conn_RemoteAddr ws);
                    w = logp (''WebSocket client connected: '' @ clientAddr) w
                in case ws_loop logp clientAddr ws w of
                     None \<Rightarrow> None
                   | Some w \<Rightarrow> Some (Inr (), ws_close logp ws w))))"

text \<open>The application's upgrader: every origin is allowed (\<open>allow\<close> makes the gorilla upgrader).\<close>

definition demo_upgrader ::
  "('p, 'r, 'a, 'w) gorilla_upgrader \<Rightarrow> (('r \<Rightarrow> bool) \<Rightarrow> ('p, 'r, 'a, 'w) gorilla_upgrader) \<Rightarrow>
     ('p, 'r, 'a, 'w) gorilla_upgrader" where
  "demo_upgrader zero allow = NewUpgrader zero (Some (allow (\<lambda>r. True)))"

section \<open>When the loop returns\<close>

text \<open>The world after \<open>n\<close> passes.\<close>

fun ws_after :: "(string \<Rightarrow> 'w \<Rightarrow> 'w) \<Rightarrow> string \<Rightarrow> ('a, 'w) ws_conn \<Rightarrow> nat \<Rightarrow> 'w \<Rightarrow> 'w" where
  "ws_after logp client ws 0 w = w"
| "ws_after logp client ws (Suc n) w = ws_after logp client ws n (snd (ws_round logp client ws w))"

lemma ws_loop_unfold:
  "ws_loop logp client ws w =
     (if fst (ws_round logp client ws w) then ws_loop logp client ws (snd (ws_round logp client ws w))
      else Some (snd (ws_round logp client ws w)))"
  by (subst ws_loop.simps) (simp add: case_prod_unfold)

lemma ws_loop_stops:
  assumes "\<And>m. m < n \<Longrightarrow> fst (ws_round logp client ws (ws_after logp client ws m w))"
    and "\<not> fst (ws_round logp client ws (ws_after logp client ws n w))"
  shows "ws_loop logp client ws w = Some (ws_after logp client ws (Suc n) w)"
  using assms
proof (induction n arbitrary: w)
  case 0
  then show ?case by (simp add: ws_loop_unfold)
next
  case (Suc n)
  have "ws_loop logp client ws (snd (ws_round logp client ws w)) =
      Some (ws_after logp client ws (Suc n) (snd (ws_round logp client ws w)))"
    using Suc.prems(1) [of "Suc m" for m] Suc.prems(2) by (intro Suc.IH) simp_all
  then show ?case using Suc.prems(1) [of 0] by (simp add: ws_loop_unfold [of _ _ _ w])
qed

lemma ws_loop_returned:
  assumes "ws_loop logp client ws w = Some w'"
  shows "\<exists>n. (\<forall>m<n. fst (ws_round logp client ws (ws_after logp client ws m w))) \<and>
    \<not> fst (ws_round logp client ws (ws_after logp client ws n w))"
  using assms
proof (induction rule: ws_loop.raw_induct [rotated 1, consumes 1])
  case (1 loop logp client ws w w')
  show ?case
  proof (cases "fst (ws_round logp client ws w)")
    case True
    with 1 obtain n where n:
      "\<forall>m<n. fst (ws_round logp client ws (ws_after logp client ws (Suc m) w))"
      "\<not> fst (ws_round logp client ws (ws_after logp client ws (Suc n) w))"
      by (fastforce simp: case_prod_unfold)
    have "fst (ws_round logp client ws (ws_after logp client ws m w))" if "m < Suc n" for m
      using that n(1) True by (cases m) simp_all
    then show ?thesis using n(2) by blast
  next
    case False
    then show ?thesis by (intro exI [of _ 0]) simp
  qed
qed

lemma ws_loop_iff:
  "ws_loop logp client ws w = Some w' \<longleftrightarrow>
     (\<exists>n. (\<forall>m<n. fst (ws_round logp client ws (ws_after logp client ws m w))) \<and>
        \<not> fst (ws_round logp client ws (ws_after logp client ws n w)) \<and>
        w' = ws_after logp client ws (Suc n) w)"
  (is "?l \<longleftrightarrow> ?r")
proof
  assume l: ?l
  obtain n where n: "\<forall>m<n. fst (ws_round logp client ws (ws_after logp client ws m w))"
    "\<not> fst (ws_round logp client ws (ws_after logp client ws n w))"
    using ws_loop_returned [OF l] by blast
  with ws_loop_stops [of n logp client ws w] l have "w' = ws_after logp client ws (Suc n) w" by simp
  with n show ?r by blast
next
  show ?l if ?r using that ws_loop_stops [of _ logp client ws w] by blast
qed

lemma ws_loop_None:
  "ws_loop logp client ws w = None \<longleftrightarrow> (\<forall>n. fst (ws_round logp client ws (ws_after logp client ws n w)))"
proof
  show "ws_loop logp client ws w = None" if "\<forall>n. fst (ws_round logp client ws (ws_after logp client ws n w))"
    using that ws_loop_iff [of logp client ws w] by (cases "ws_loop logp client ws w") auto
next
  assume none: "ws_loop logp client ws w = None"
  show "\<forall>n. fst (ws_round logp client ws (ws_after logp client ws n w))"
  proof
    fix n
    show "fst (ws_round logp client ws (ws_after logp client ws n w))"
    proof (induction n rule: less_induct)
      case (less n)
      then show ?case using ws_loop_stops [of n logp client ws w] none by auto
    qed
  qed
qed

section \<open>A connection\<close>

text \<open>
  What the documentation of a WebSocket connection says: messages come in the order in which they were
  sent until the connection breaks, and a written message goes out or the call fails. The view of a
  connection has the messages that will still come, the replies sent so far, the number of further writes
  that the connection survives and the number of times it was closed.
\<close>

record ws_peer =
  wp_incoming :: "(int \<times> string) list"
  wp_replies :: "(int \<times> string) list"
  wp_room :: nat
  wp_closes :: nat

locale message_conn =
  fixes logp :: "string \<Rightarrow> 'w \<Rightarrow> 'w" and ws :: "('a, 'w) ws_conn" and view :: "'w \<Rightarrow> ws_peer"
  assumes log_view [simp]: "view (logp s w) = view w"
    and read_next: "wp_incoming (view w) = m # ms \<Longrightarrow> fst (Conn_ReadMessage ws w) = Inr m \<and>
      view (snd (Conn_ReadMessage ws w)) = view w\<lparr>wp_incoming := ms\<rparr>"
    and read_end: "wp_incoming (view w) = [] \<Longrightarrow>
      (\<exists>e. fst (Conn_ReadMessage ws w) = Inl e) \<and> view (snd (Conn_ReadMessage ws w)) = view w"
    and write_room: "wp_room (view w) = Suc n \<Longrightarrow> fst (Conn_WriteMessage ws mt d w) = Inr () \<and>
      view (snd (Conn_WriteMessage ws mt d w)) =
        view w\<lparr>wp_replies := wp_replies (view w) @ [(mt, d)], wp_room := n\<rparr>"
    and write_full: "wp_room (view w) = 0 \<Longrightarrow>
      (\<exists>e. fst (Conn_WriteMessage ws mt d w) = Inl e) \<and> view (snd (Conn_WriteMessage ws mt d w)) = view w"
    and close_view: "view (snd (Conn_Close ws w)) = view w\<lparr>wp_closes := Suc (wp_closes (view w))\<rparr>"
begin

lemma round_echoes:
  assumes "wp_incoming (view w) = (mt, msg) # ms" and "wp_room (view w) = Suc n"
  shows "fst (ws_round logp client ws w) \<and> view (snd (ws_round logp client ws w)) =
    view w\<lparr>wp_incoming := ms, wp_replies := wp_replies (view w) @ [(mt, ''Echo: '' @ msg)], wp_room := n\<rparr>"
proof -
  obtain w1 where 1: "Conn_ReadMessage ws w = (Inr (mt, msg), w1)" "view w1 = view w\<lparr>wp_incoming := ms\<rparr>"
    using read_next [OF assms(1)] by (metis prod.collapse)
  define w2 where "w2 = logp (''Received from '' @ client @ '': '' @ msg) w1"
  have "wp_room (view w2) = Suc n" using 1(2) assms(2) by (simp add: w2_def)
  from write_room [OF this, of mt "''Echo: '' @ msg"] show ?thesis
    using 1 by (auto simp: ws_round_def w2_def split: prod.splits sum.splits)
qed

lemma round_breaks:
  assumes "wp_incoming (view w) = [] \<or> wp_room (view w) = 0"
  shows "\<not> fst (ws_round logp client ws w) \<and> view (snd (ws_round logp client ws w)) =
    view w\<lparr>wp_incoming := tl (wp_incoming (view w))\<rparr>"
proof (cases "wp_incoming (view w)")
  case Nil
  then show ?thesis
    using read_end [OF Nil] by (cases "Conn_ReadMessage ws w") (auto simp: ws_round_def)
next
  case (Cons m ms)
  obtain w1 where 1: "Conn_ReadMessage ws w = (Inr m, w1)" "view w1 = view w\<lparr>wp_incoming := ms\<rparr>"
    using read_next [OF Cons] by (metis prod.collapse)
  define w2 where "w2 = logp (''Received from '' @ client @ '': '' @ snd m) w1"
  have "wp_room (view w2) = 0" using 1(2) assms Cons by (simp add: w2_def)
  from write_full [OF this, of "fst m" "''Echo: '' @ snd m"] show ?thesis
    using 1 Cons by (auto simp: ws_round_def w2_def case_prod_unfold split: sum.splits)
qed

text \<open>The loop returns, after as many echoes as there are messages and room for replies.\<close>

lemma loop_echoes:
  "\<exists>w'. ws_loop logp client ws w = Some w' \<and> view w' = view w\<lparr>
     wp_incoming := drop (Suc (wp_room (view w))) (wp_incoming (view w)),
     wp_replies := wp_replies (view w) @
       map (\<lambda>(mt, msg). (mt, ''Echo: '' @ msg)) (take (wp_room (view w)) (wp_incoming (view w))),
     wp_room := wp_room (view w) - length (wp_incoming (view w))\<rparr>"
proof (induction "wp_incoming (view w)" arbitrary: w)
  case Nil
  then show ?case
    using round_breaks [of w client] by (subst ws_loop_unfold) (simp add: Nil [symmetric])
next
  case (Cons m ms)
  obtain mt msg where m: "m = (mt, msg)" by (cases m)
  note inc = Cons.hyps(2) [symmetric, unfolded m]
  show ?case
  proof (cases "wp_room (view w)")
    case 0
    then show ?thesis
      using round_breaks [of w client] by (subst ws_loop_unfold) (simp add: inc)
  next
    case (Suc n)
    note r = round_echoes [OF inc Suc, of client]
    have "ms = wp_incoming (view (snd (ws_round logp client ws w)))" using r by simp
    from Cons.hyps(1) [OF this] r show ?thesis
      by (subst ws_loop_unfold) (simp add: inc Suc)
  qed
qed

lemma close_once: "view (ws_close logp ws w) = view w\<lparr>wp_closes := Suc (wp_closes (view w))\<rparr>"
  using close_view [of w] by (auto simp: ws_close_def split: prod.splits sum.splits)

end

section \<open>A scripted connection\<close>

text \<open>A peer that sends given messages and goes away, and the log of the process.\<close>

type_synonym ws_world = "ws_peer \<times> string list"

definition demo_log :: "string \<Rightarrow> ws_world \<Rightarrow> ws_world" where
  "demo_log line w = (fst w, snd w @ [line])"

definition demo_read :: "(ws_world, int \<times> string) act" where
  "demo_read w = (case wp_incoming (fst w) of
     [] \<Rightarrow> (Inl (NewError ''websocket: close 1006''), w)
   | m # ms \<Rightarrow> (Inr m, (fst w)\<lparr>wp_incoming := ms\<rparr>, snd w))"

definition demo_write :: "int \<Rightarrow> string \<Rightarrow> (ws_world, unit) act" where
  "demo_write mt d w = (case wp_room (fst w) of
     0 \<Rightarrow> (Inl (NewError ''broken pipe''), w)
   | Suc n \<Rightarrow> (Inr (), (fst w)\<lparr>wp_replies := wp_replies (fst w) @ [(mt, d)], wp_room := n\<rparr>, snd w))"

definition demo_close :: "(ws_world, unit) act" where
  "demo_close w = (Inr (), (fst w)\<lparr>wp_closes := Suc (wp_closes (fst w))\<rparr>, snd w)"

definition demo_conn :: "(string, ws_world) ws_conn_lib" where
  "demo_conn = \<lparr>wc_ReadMessage = demo_read, wc_WriteMessage = demo_write, wc_Close = demo_close,
     wc_RemoteAddr = ''10.0.0.7:5000''\<rparr>"

definition demo_gorilla :: "(unit \<Rightarrow> bool) \<Rightarrow> (unit, unit, string, ws_world) gorilla_upgrader" where
  "demo_gorilla check p r = (if check r then give demo_conn else raise (NewError ''origin not allowed''))"

lemmas demo_conn_defs = demo_conn_def demo_read_def demo_write_def demo_close_def demo_log_def
  Conn_ReadMessage_def Conn_WriteMessage_def Conn_Close_def Conn_RemoteAddr_def

interpretation demo_peer: message_conn demo_log "\<lparr>ws_conn = demo_conn\<rparr>" fst
  by unfold_locales (auto simp: demo_conn_defs split: list.splits nat.splits)

section \<open>Properties of the handler\<close>

text \<open>
  C19: the echo server. Once the upgrade succeeded, the handler returns when the peer goes away: without an
  error, with "Echo: " and the message, of the same type, sent for each message in the order of their
  arrival as long as the connection takes replies, nothing else sent, no message read after a failed
  write, and the connection closed exactly once.
\<close>

theorem websocket_echo:
  assumes "Upgrader_Upgrade u p r w = (Inr ws, w1)" and "message_conn logp ws view"
  shows "\<exists>w'. ws_handler logp addr (Some u) p r w = Some (Inr (), w') \<and>
    view w' = \<lparr>wp_incoming = drop (Suc (wp_room (view w1))) (wp_incoming (view w1)),
      wp_replies = wp_replies (view w1) @
        map (\<lambda>(mt, msg). (mt, ''Echo: '' @ msg)) (take (wp_room (view w1)) (wp_incoming (view w1))),
      wp_room = wp_room (view w1) - length (wp_incoming (view w1)),
      wp_closes = Suc (wp_closes (view w1))\<rparr>"
proof -
  define client where "client = addr (Conn_RemoteAddr ws)"
  define w2 where "w2 = logp (''WebSocket client connected: '' @ client) w1"
  have view2: "view w2 = view w1" by (simp add: w2_def message_conn.log_view [OF assms(2)])
  obtain w3 where w3: "ws_loop logp client ws w2 = Some w3"
    "view w3 = view w1\<lparr>wp_incoming := drop (Suc (wp_room (view w1))) (wp_incoming (view w1)),
       wp_replies := wp_replies (view w1) @
         map (\<lambda>(mt, msg). (mt, ''Echo: '' @ msg)) (take (wp_room (view w1)) (wp_incoming (view w1))),
       wp_room := wp_room (view w1) - length (wp_incoming (view w1))\<rparr>"
    using message_conn.loop_echoes [OF assms(2), of client w2] by (auto simp: view2)
  have "ws_handler logp addr (Some u) p r w = Some (Inr (), ws_close logp ws w3)"
    using assms(1) w3(1) by (simp add: ws_handler_def client_def w2_def)
  moreover have "view (ws_close logp ws w3) = view w3\<lparr>wp_closes := Suc (wp_closes (view w3))\<rparr>"
    by (rule message_conn.close_once [OF assms(2)])
  ultimately show ?thesis using w3(2) by simp
qed

definition demo_peer_world :: ws_world where
  "demo_peer_world = (\<lparr>wp_incoming = [(1, ''a''), (2, ''b''), (1, ''c'')], wp_replies = [], wp_room = 2,
     wp_closes = 0\<rparr>, [])"

theorem websocket_echo_witness:
  "\<exists>w'. ws_handler demo_log (\<lambda>a. a) (Some (demo_gorilla (\<lambda>r. True))) () () demo_peer_world = Some (Inr (), w') \<and>
     wp_replies (fst w') = [(1, ''Echo: a''), (2, ''Echo: b'')] \<and> wp_closes (fst w') = 1"
proof -
  have "Upgrader_Upgrade (demo_gorilla (\<lambda>r. True)) () () demo_peer_world =
      (Inr \<lparr>ws_conn = demo_conn\<rparr>, demo_peer_world)"
    by (simp add: Upgrader_Upgrade_def demo_gorilla_def and_then_def give_def)
  from websocket_echo [OF this demo_peer.message_conn_axioms, where addr = "\<lambda>a. a"]
  show ?thesis by (auto simp: demo_peer_world_def)
qed

text \<open>
  The error branches and the server that never stops: without an upgrader, or when the upgrade fails, the
  handler returns that error and touches nothing; otherwise it fails to return exactly when every pass of
  its loop reads a message and gets its reply out.
\<close>

lemma ws_handler_errors:
  "ws_handler logp addr None p r w = Some (Inl (NewError ''websocket upgrader not configured''), w)"
  "Upgrader_Upgrade u p r w = (Inl err, w1) \<Longrightarrow> ws_handler logp addr (Some u) p r w = Some (Inl err, w1)"
  by (simp_all add: ws_handler_def)

lemma ws_handler_None:
  assumes "Upgrader_Upgrade u p r w = (Inr ws, w1)"
    and "client = addr (Conn_RemoteAddr ws)" and "w2 = logp (''WebSocket client connected: '' @ client) w1"
  shows "ws_handler logp addr (Some u) p r w = None \<longleftrightarrow>
    (\<forall>n. fst (ws_round logp client ws (ws_after logp client ws n w2)))"
  using assms by (simp add: ws_handler_def Let_def flip: ws_loop_None split: option.split)

end
