(* ===== verification/WebTransport_Echo.thy ===== *)
theory WebTransport_Echo
  imports Extensions Go_Time Go_Http
begin

text \<open>
  \<open>examples/extensions/webtransport/main.go\<close> and \<open>webtransport_autocert/main.go\<close>, whose \<open>handleSession\<close>
  is the same: a session of an echo server with one goroutine that accepts streams, one that echoes
  datagrams and one for every accepted stream. Each goroutine is a machine whose states are the points of
  its code at which it calls the library, and an event is one call with its reply, which is arbitrary.
  The session is their interleaving, in any order: the code shares no state between them.
\<close>

section \<open>The goroutines\<close>

text \<open>\<open>handleSession\<close> itself: the accept loop and the deferred close.\<close>

datatype accept_pc = Accepting | Closing | Returned

datatype 's accept_event =
    AcceptStream "'s res"
  | CloseWithError int string "unit res"

fun accept_step :: "accept_pc \<Rightarrow> 's accept_event \<Rightarrow> accept_pc option" where
  "accept_step Accepting (AcceptStream r) = Some (case r of Inl err \<Rightarrow> Closing | Inr stream \<Rightarrow> Accepting)"
| "accept_step Closing (CloseWithError n msg r) = (if n = 0 \<and> msg = ''done'' then Some Returned else None)"
| "accept_step _ _ = None"

text \<open>The datagram loop; \<open>Sending d\<close> is about to send \<open>d\<close>.\<close>

datatype datagram_pc = Receiving | Sending string | Stopped

datatype datagram_event =
    ReceiveDatagram "string res"
  | SendDatagram string "unit res"

fun datagram_step :: "datagram_pc \<Rightarrow> datagram_event \<Rightarrow> datagram_pc option" where
  "datagram_step Receiving (ReceiveDatagram r) =
     Some (case r of Inl err \<Rightarrow> Stopped | Inr msg \<Rightarrow> Sending (''Echo: '' @ msg))"
| "datagram_step (Sending d) (SendDatagram d' r) =
     (if d' = d then Some (case r of Inl err \<Rightarrow> Stopped | Inr _ \<Rightarrow> Receiving) else None)"
| "datagram_step _ _ = None"

text \<open>
  The loop of a stream. \<open>Read\<close> fills at most the 1024 bytes of the buffer and may return bytes and an
  error at once; \<open>Writing msg err\<close> has read \<open>msg\<close> with the error \<open>err\<close> and is about to reply. The event
  \<open>Write t response r\<close> has the reading of the clock that goes into the response.
\<close>

datatype stream_pc = Reading | Writing string "go_error option" | Leaving | Ended

datatype stream_event =
    Read string "go_error option"
  | Write go_time string "unit res"
  | Close "unit res"

definition clock_text :: "go_time \<Rightarrow> string" where
  "clock_text t =
     (let s = local_nanos t div 1000000000
      in pad2 (s div 3600) @ '':'' @ pad2 (s div 60 mod 60) @ '':'' @ pad2 (s mod 60))"

definition stream_response :: "go_time \<Rightarrow> string \<Rightarrow> string" where
  "stream_response t msg = ''['' @ clock_text t @ ''] Echo: '' @ msg"

definition after_read :: "go_error option \<Rightarrow> stream_pc" where
  "after_read err = (case err of None \<Rightarrow> Reading | Some _ \<Rightarrow> Leaving)"

fun stream_step :: "stream_pc \<Rightarrow> stream_event \<Rightarrow> stream_pc option" where
  "stream_step Reading (Read msg err) =
     (if length msg \<le> 1024 then Some (if length msg > 0 then Writing msg err else after_read err) else None)"
| "stream_step (Writing msg err) (Write t response r) =
     (if response = stream_response t msg
      then Some (case r of Inl _ \<Rightarrow> Leaving | Inr _ \<Rightarrow> after_read err) else None)"
| "stream_step Leaving (Close r) = Some Ended"
| "stream_step _ _ = None"

section \<open>The session\<close>

record 's wt_session =
  wt_main :: accept_pc
  wt_datagrams :: datagram_pc
  wt_streams :: "('s \<times> stream_pc) list"

datatype 's wt_event =
    OnMain "'s accept_event"
  | OnDatagrams datagram_event
  | OnStream nat stream_event

definition session_start :: "'s wt_session" where
  "session_start = \<lparr>wt_main = Accepting, wt_datagrams = Receiving, wt_streams = []\<rparr>"

text \<open>\<open>go func(str) { ... }(stream)\<close>: the goroutines of the streams are numbered as they start.\<close>

fun spawned :: "'s accept_event \<Rightarrow> 's list" where
  "spawned (AcceptStream (Inr stream)) = [stream]"
| "spawned _ = []"

fun session_step :: "'s wt_session \<Rightarrow> 's wt_event \<Rightarrow> 's wt_session option" where
  "session_step s (OnMain e) =
     (case accept_step (wt_main s) e of
        None \<Rightarrow> None
      | Some pc \<Rightarrow> Some (s\<lparr>wt_main := pc,
          wt_streams := wt_streams s @ map (\<lambda>stream. (stream, Reading)) (spawned e)\<rparr>))"
| "session_step s (OnDatagrams e) =
     (case datagram_step (wt_datagrams s) e of
        None \<Rightarrow> None
      | Some pc \<Rightarrow> Some (s\<lparr>wt_datagrams := pc\<rparr>))"
| "session_step s (OnStream i e) =
     (if i < length (wt_streams s)
      then (case stream_step (snd (wt_streams s ! i)) e of
              None \<Rightarrow> None
            | Some pc \<Rightarrow> Some (s\<lparr>wt_streams := (wt_streams s)[i := (fst (wt_streams s ! i), pc)]\<rparr>))
      else None)"

text \<open>What the goroutines log.\<close>

fun event_log :: "'s wt_event \<Rightarrow> string list" where
  "event_log (OnMain (CloseWithError _ _ (Inl err))) = [''Error closing session: '' @ error_text err]"
| "event_log (OnDatagrams (SendDatagram _ (Inl err))) = [''Error sending datagram: '' @ error_text err]"
| "event_log (OnStream _ (Write _ _ (Inl err))) = [''Error writing to stream: '' @ error_text err]"
| "event_log (OnStream _ (Close (Inl err))) = [''Error closing stream: '' @ error_text err]"
| "event_log _ = []"

definition session_log :: "string \<Rightarrow> 's wt_event list \<Rightarrow> string list" where
  "session_log remote tr = (''WebTransport session from '' @ remote) # concat (map event_log tr)"

section \<open>Runs\<close>

fun run :: "('p \<Rightarrow> 'e \<Rightarrow> 'p option) \<Rightarrow> 'p \<Rightarrow> 'e list \<Rightarrow> 'p option" where
  "run step p [] = Some p"
| "run step p (e # es) = (case step p e of None \<Rightarrow> None | Some q \<Rightarrow> run step q es)"

lemma run_append [simp]:
  "run step p (es @ fs) = (case run step p es of None \<Rightarrow> None | Some q \<Rightarrow> run step q fs)"
  by (induction es arbitrary: p) (auto split: option.split)

inductive wt_run :: "'s wt_event list \<Rightarrow> 's wt_session \<Rightarrow> bool" where
  start: "wt_run [] session_start"
| step: "wt_run tr s \<Longrightarrow> session_step s e = Some s' \<Longrightarrow> wt_run (tr @ [e]) s'"

lemma wt_run_iff: "wt_run tr s \<longleftrightarrow> run session_step session_start tr = Some s"
proof
  show "run session_step session_start tr = Some s" if "wt_run tr s"
    using that by induction simp_all
next
  show "wt_run tr s" if "run session_step session_start tr = Some s"
    using that
  proof (induction tr arbitrary: s rule: rev_induct)
    case Nil
    then show ?case using wt_run.start by simp
  next
    case (snoc e tr)
    then show ?case by (auto split: option.splits intro: wt_run.step)
  qed
qed

section \<open>The goroutines of a session\<close>

fun main_part :: "'s wt_event \<Rightarrow> 's accept_event option" where
  "main_part (OnMain e) = Some e"
| "main_part _ = None"

fun datagram_part :: "'s wt_event \<Rightarrow> datagram_event option" where
  "datagram_part (OnDatagrams e) = Some e"
| "datagram_part _ = None"

fun stream_part :: "nat \<Rightarrow> 's wt_event \<Rightarrow> stream_event option" where
  "stream_part i (OnStream j e) = (if j = i then Some e else None)"
| "stream_part i _ = None"

definition main_events :: "'s wt_event list \<Rightarrow> 's accept_event list" where
  "main_events = List.map_filter main_part"

definition datagram_events :: "'s wt_event list \<Rightarrow> datagram_event list" where
  "datagram_events = List.map_filter datagram_part"

definition stream_events :: "nat \<Rightarrow> 's wt_event list \<Rightarrow> stream_event list" where
  "stream_events i = List.map_filter (stream_part i)"

definition accepted :: "'s wt_event list \<Rightarrow> 's list" where
  "accepted tr = concat (map spawned (main_events tr))"

lemma map_filter_append [simp]: "List.map_filter f (xs @ ys) = List.map_filter f xs @ List.map_filter f ys"
  by (simp add: List.map_filter_def)

lemma parts_append [simp]:
  "main_events (tr @ [e]) = main_events tr @ (case main_part e of None \<Rightarrow> [] | Some x \<Rightarrow> [x])"
  "datagram_events (tr @ [e]) = datagram_events tr @ (case datagram_part e of None \<Rightarrow> [] | Some y \<Rightarrow> [y])"
  "stream_events i (tr @ [e]) = stream_events i tr @ (case stream_part i e of None \<Rightarrow> [] | Some z \<Rightarrow> [z])"
  by (simp_all add: main_events_def datagram_events_def stream_events_def List.map_filter_def split: option.split)

lemma parts_Nil [simp]: "main_events [] = []" "datagram_events [] = []" "stream_events i [] = []"
  by (simp_all add: main_events_def datagram_events_def stream_events_def List.map_filter_def)

lemma accepted_append [simp]: "accepted [] = []"
  "accepted (tr @ [e]) = accepted tr @ (case main_part e of None \<Rightarrow> [] | Some x \<Rightarrow> spawned x)"
  by (simp_all add: accepted_def split: option.split)

text \<open>A stream's goroutine runs after the accept that started it.\<close>

fun in_order :: "nat \<Rightarrow> 's wt_event list \<Rightarrow> bool" where
  "in_order n [] = True"
| "in_order n (OnMain e # tr) = in_order (n + length (spawned e)) tr"
| "in_order n (OnDatagrams e # tr) = in_order n tr"
| "in_order n (OnStream i e # tr) = (i < n \<and> in_order n tr)"

lemma in_order_append [simp]:
  "in_order n (tr @ [e]) \<longleftrightarrow> in_order n tr \<and>
     (case e of OnStream i _ \<Rightarrow> i < n + length (accepted tr) | _ \<Rightarrow> True)"
proof (induction n tr rule: in_order.induct)
  case 1
  then show ?case by (cases e) (simp_all add: accepted_def)
qed (auto simp: accepted_def main_events_def List.map_filter_def split: wt_event.split)

text \<open>
  The state of a session after a trace is that of its goroutines after their parts of the trace.
\<close>

definition session_after :: "'s wt_event list \<Rightarrow> 's wt_session \<Rightarrow> bool" where
  "session_after tr s \<longleftrightarrow> in_order 0 tr \<and>
     run accept_step Accepting (main_events tr) = Some (wt_main s) \<and>
     run datagram_step Receiving (datagram_events tr) = Some (wt_datagrams s) \<and>
     map fst (wt_streams s) = accepted tr \<and>
     (\<forall>i < length (accepted tr). run stream_step Reading (stream_events i tr) = Some (snd (wt_streams s ! i)))"

lemma session_after_lengths: "session_after tr s \<Longrightarrow> length (wt_streams s) = length (accepted tr)"
  by (metis length_map session_after_def)

lemma session_after_stream: "session_after tr s \<Longrightarrow> j < length (accepted tr) \<Longrightarrow> accepted tr ! j = fst (wt_streams s ! j)"
  by (metis length_map nth_map session_after_def)

lemma session_after_run:
  "session_after tr s \<Longrightarrow> i < length (accepted tr) \<Longrightarrow>
     run stream_step Reading (stream_events i tr) = Some (snd (wt_streams s ! i))"
  by (simp add: session_after_def)

lemma in_order_stream: "in_order n tr \<Longrightarrow> n + length (accepted tr) \<le> i \<Longrightarrow> stream_events i tr = []"
  by (induction tr rule: rev_induct) (auto split: wt_event.splits option.splits)

lemma session_after_start: "session_after [] session_start"
  by (simp add: session_after_def session_start_def)

lemma session_after_step:
  assumes "session_after tr s" and "session_step s e = Some s'"
  shows "session_after (tr @ [e]) s'"
proof (cases e)
  case (OnMain x)
  then obtain pc where "accept_step (wt_main s) x = Some pc" and s': "s' = s\<lparr>wt_main := pc,
      wt_streams := wt_streams s @ map (\<lambda>stream. (stream, Reading)) (spawned x)\<rparr>"
    using assms(2) by (auto split: option.splits)
  moreover have "run stream_step Reading (stream_events i tr) =
      Some (snd ((wt_streams s @ map (\<lambda>stream. (stream, Reading)) (spawned x)) ! i))"
    if "i < length (accepted tr) + length (spawned x)" for i
  proof (cases "i < length (accepted tr)")
    case True
    then show ?thesis using assms(1) session_after_lengths [OF assms(1)] by (simp add: session_after_def nth_append)
  next
    case False
    then have "stream_events i tr = []"
      using assms(1) in_order_stream [of 0 tr i] by (simp add: session_after_def)
    then show ?thesis using that False session_after_lengths [OF assms(1)] by (simp add: nth_append)
  qed
  ultimately show ?thesis using assms(1) OnMain by (simp add: session_after_def comp_def)
next
  case (OnDatagrams x)
  then show ?thesis using assms by (auto simp: session_after_def split: option.splits)
next
  case (OnStream j x)
  then show ?thesis
    using assms session_after_lengths [OF assms(1)] session_after_stream [OF assms(1), of j]
    by (auto simp: session_after_def map_update nth_list_update list_update_same_conv split: if_splits option.splits)
qed

lemma wt_run_after: "wt_run tr s \<Longrightarrow> session_after tr s"
  by (induction rule: wt_run.induct) (auto intro: session_after_start session_after_step)

section \<open>What a goroutine does\<close>

fun chunk :: "stream_event \<Rightarrow> string list" where
  "chunk (Read msg err) = (if msg = [] then [] else [msg])"
| "chunk _ = []"

fun written :: "stream_event \<Rightarrow> (go_time \<times> string) list" where
  "written (Write t response r) = [(t, response)]"
| "written _ = []"

fun failed :: "stream_event \<Rightarrow> bool" where
  "failed (Read msg err) = (err \<noteq> None)"
| "failed (Write t response r) = (case r of Inl _ \<Rightarrow> True | Inr _ \<Rightarrow> False)"
| "failed (Close r) = False"

text \<open>The bytes that a stream delivered, one string for each \<open>Read\<close>, and the replies written to it.\<close>

definition chunks :: "stream_event list \<Rightarrow> string list" where
  "chunks es = concat (map chunk es)"

definition writes :: "stream_event list \<Rightarrow> (go_time \<times> string) list" where
  "writes es = concat (map written es)"

fun pending :: "stream_pc \<Rightarrow> string list" where
  "pending (Writing msg err) = [msg]"
| "pending _ = []"

fun pending_error :: "stream_pc \<Rightarrow> bool" where
  "pending_error (Writing msg err) = (err \<noteq> None)"
| "pending_error pc = (pc \<noteq> Reading)"

definition answers :: "go_time \<times> string \<Rightarrow> string \<Rightarrow> bool" where
  "answers w c \<longleftrightarrow> snd w = stream_response (fst w) c"

lemma list_all2_snoc [simp]: "list_all2 P (xs @ [x]) (ys @ [y]) \<longleftrightarrow> list_all2 P xs ys \<and> P x y"
  by (auto simp: list_all2_conv_all_nth nth_append less_Suc_eq)

lemma answers_response [simp]: "answers (t, stream_response t c) c"
  by (simp add: answers_def)

lemma length_response: "length (stream_response t msg) = length msg + 17"
  by (simp add: stream_response_def clock_text_def pad2_def Let_def)

lemma after_read_simps [simp]: "pending (after_read err) = []" "pending_error (after_read err) = (err \<noteq> None)"
  "after_read err \<noteq> Ended" "after_read err = Leaving \<longleftrightarrow> err \<noteq> None" "after_read err = Reading \<longleftrightarrow> err = None"
  by (auto simp: after_read_def split: option.split)

lemma stream_run:
  assumes "run stream_step Reading es = Some pc"
  shows "\<exists>answered. chunks es = answered @ pending pc \<and> list_all2 answers (writes es) answered \<and>
    list_all (\<lambda>c. length c \<le> 1024) (chunks es) \<and>
    (list_ex failed es \<longleftrightarrow> pending_error pc) \<and>
    (pc = Ended \<longleftrightarrow> (\<exists>es' r. es = es' @ [Close r])) \<and>
    length (filter (\<lambda>e. \<exists>r. e = Close r) es) = (if pc = Ended then 1 else 0)"
  using assms
proof (induction es arbitrary: pc rule: rev_induct)
  case Nil
  then show ?case by (simp add: chunks_def writes_def)
next
  case (snoc e es)
  obtain p where p: "run stream_step Reading es = Some p" "stream_step p e = Some pc"
    using snoc.prems by (auto split: option.splits)
  from p(2) show ?case
    using snoc.IH [OF p(1)]
    by (cases "(p, e)" rule: stream_step.cases)
      (auto simp: chunks_def writes_def split: if_splits sum.splits)
qed

text \<open>Every answer of the library has a next step: only a goroutine that returned has none.\<close>

lemma accept_stuck: "(\<forall>e :: 's accept_event. accept_step pc e = None) \<longleftrightarrow> pc = Returned"
proof (cases pc)
  case Accepting
  then have "accept_step pc (AcceptStream (Inl RedisNil) :: 's accept_event) \<noteq> None" by simp
  then have "\<not> (\<forall>e :: 's accept_event. accept_step pc e = None)" by metis
  then show ?thesis using Accepting by simp
next
  case Closing
  then have "accept_step pc (CloseWithError 0 ''done'' (Inr ()) :: 's accept_event) \<noteq> None" by simp
  then have "\<not> (\<forall>e :: 's accept_event. accept_step pc e = None)" by metis
  then show ?thesis using Closing by simp
qed simp

lemma datagram_stuck: "(\<forall>e. datagram_step pc e = None) \<longleftrightarrow> pc = Stopped"
proof (cases pc)
  case Receiving
  then have "datagram_step pc (ReceiveDatagram (Inr [])) \<noteq> None" by simp
  then have "\<not> (\<forall>e. datagram_step pc e = None)" by metis
  then show ?thesis using Receiving by simp
next
  case (Sending d)
  then have "datagram_step pc (SendDatagram d (Inr ())) \<noteq> None" by simp
  then have "\<not> (\<forall>e. datagram_step pc e = None)" by metis
  then show ?thesis using Sending by simp
qed simp

lemma stream_stuck: "(\<forall>e. stream_step pc e = None) \<longleftrightarrow> pc = Ended"
proof (cases pc)
  case Reading
  then have "stream_step pc (Read [] None) \<noteq> None" by simp
  then have "\<not> (\<forall>e. stream_step pc e = None)" by metis
  then show ?thesis using Reading by simp
next
  case (Writing msg err)
  then have "stream_step pc (Write t (stream_response t msg) (Inr ())) \<noteq> None" for t by simp
  then have "\<not> (\<forall>e. stream_step pc e = None)" by metis
  then show ?thesis using Writing by simp
next
  case Leaving
  then have "stream_step pc (Close (Inr ())) \<noteq> None" by simp
  then have "\<not> (\<forall>e. stream_step pc e = None)" by metis
  then show ?thesis using Leaving by simp
qed simp

lemma session_stuck:
  "(\<forall>e. session_step s e = None) \<longleftrightarrow>
     wt_main s = Returned \<and> wt_datagrams s = Stopped \<and> snd ` set (wt_streams s) \<subseteq> {Ended}"
proof -
  let ?ended = "\<forall>i < length (wt_streams s). snd (wt_streams s ! i) = Ended"
  have "(\<forall>e. session_step s e = None) \<longleftrightarrow> (\<forall>e. session_step s (OnMain e) = None) \<and>
      (\<forall>e. session_step s (OnDatagrams e) = None) \<and> (\<forall>i e. session_step s (OnStream i e) = None)"
    by (metis wt_event.exhaust)
  moreover have "(\<forall>e. session_step s (OnMain e) = None) \<longleftrightarrow> wt_main s = Returned"
    using accept_stuck [of "wt_main s"] by (auto split: option.splits)
  moreover have "(\<forall>e. session_step s (OnDatagrams e) = None) \<longleftrightarrow> wt_datagrams s = Stopped"
    using datagram_stuck [of "wt_datagrams s"] by (auto split: option.splits)
  moreover have "(\<forall>i e. session_step s (OnStream i e) = None) \<longleftrightarrow>
?ended"
    by (simp add: stream_stuck [symmetric] split: option.split)
  moreover have "?ended \<longleftrightarrow> snd ` set (wt_streams s) \<subseteq> {Ended}"
    unfolding image_subset_iff all_set_conv_all_nth by simp
  ultimately show ?thesis by simp
qed

text \<open>The accept loop: streams until the first error, then one close.\<close>

lemma accept_run:
  assumes "run accept_step Accepting es = Some pc"
  shows "\<exists>err r. es = map (\<lambda>s. AcceptStream (Inr s)) (concat (map spawned es)) @
    (case pc of Accepting \<Rightarrow> [] | Closing \<Rightarrow> [AcceptStream (Inl err)]
     | Returned \<Rightarrow> [AcceptStream (Inl err), CloseWithError 0 ''done'' r])"
  using assms
proof (induction es arbitrary: pc rule: rev_induct)
  case (snoc e es)
  obtain p where p: "run accept_step Accepting es = Some p" "accept_step p e = Some pc"
    using snoc.prems by (auto split: option.splits)
  obtain err r where es: "es = map (\<lambda>s. AcceptStream (Inr s)) (concat (map spawned es)) @
    (case p of Accepting \<Rightarrow> [] | Closing \<Rightarrow> [AcceptStream (Inl err)]
     | Returned \<Rightarrow> [AcceptStream (Inl err), CloseWithError 0 ''done'' r])"
    using snoc.IH [OF p(1)] by blast
  from p(2) show ?case
    by (cases "(p, e)" rule: accept_step.cases) (use es in \<open>auto split: sum.splits if_splits\<close>)
qed simp

fun received :: "datagram_event \<Rightarrow> string list" where
  "received (ReceiveDatagram (Inr msg)) = [msg]"
| "received _ = []"

fun datagrams_sent :: "datagram_event \<Rightarrow> string list" where
  "datagrams_sent (SendDatagram d r) = [d]"
| "datagrams_sent _ = []"

lemma datagram_run:
  assumes "run datagram_step Receiving es = Some pc"
  shows "map (\<lambda>msg. ''Echo: '' @ msg) (concat (map received es)) =
    concat (map datagrams_sent es) @ (case pc of Sending d \<Rightarrow> [d] | _ \<Rightarrow> [])"
  using assms
proof (induction es arbitrary: pc rule: rev_induct)
  case (snoc e es)
  obtain p where p: "run datagram_step Receiving es = Some p" "datagram_step p e = Some pc"
    using snoc.prems by (auto split: option.splits)
  from p(2) show ?case
    using snoc.IH [OF p(1)]
    by (cases "(p, e)" rule: datagram_step.cases) (auto split: sum.splits if_splits)
qed simp

lemma answers_text:
  "answers (t, r) c \<longleftrightarrow> r = ''['' @ clock_text t @ ''] Echo: '' @ c \<and> length r = length c + 17"
  using length_response [of t c] by (auto simp: answers_def stream_response_def)

section \<open>Properties of a session\<close>

text \<open>
  C17: what a stream gets back. In every run of a session, in whatever way the streams' reads and writes
  interleave and fail, the replies written to a stream answer the byte strings read from it one by one and
  in their order, each with the clock of its own write, and all of them except the one that is being
  answered at the moment; a read that brings bytes and an error is answered too. No string is longer than
  1024 bytes and no reply longer than 1041, so a longer message is answered in pieces. The goroutine goes
  to its close exactly when a call failed, closes the stream once and does nothing after that.
\<close>

theorem session_streams_echo:
  assumes "wt_run tr s" and "i < length (wt_streams s)" and "es = stream_events i tr"
    and "pc = snd (wt_streams s ! i)"
  shows "length (chunks es) = length (writes es) + length (pending pc) \<and>
    list_all2 (\<lambda>(t, r) c. r = ''['' @ clock_text t @ ''] Echo: '' @ c \<and> length c \<le> 1024 \<and> length r \<le> 1041)
      (writes es) (take (length (writes es)) (chunks es)) \<and>
    (pc = Leaving \<or> pc = Ended \<longleftrightarrow> list_ex failed es \<and> pending pc = []) \<and>
    (pc = Ended \<longleftrightarrow> (\<exists>es' r. es = es' @ [Close r])) \<and>
    length (filter (\<lambda>e. \<exists>r. e = Close r) es) = (if pc = Ended then 1 else 0)"
proof -
  have "session_after tr s" using assms(1) by (rule wt_run_after)
  moreover from this have "i < length (accepted tr)" using assms(2) by (simp add: session_after_lengths)
  ultimately have r: "run stream_step Reading es = Some pc" by (simp add: assms(3,4) session_after_run)
  obtain answered where a: "chunks es = answered @ pending pc" "list_all2 answers (writes es) answered"
    "list_all (\<lambda>c. length c \<le> 1024) (chunks es)" "list_ex failed es \<longleftrightarrow> pending_error pc"
    "pc = Ended \<longleftrightarrow> (\<exists>es' r. es = es' @ [Close r])"
    "length (filter (\<lambda>e. \<exists>r. e = Close r) es) = (if pc = Ended then 1 else 0)"
    using stream_run [OF r] by blast
  have len: "length answered = length (writes es)" using a(2) by (simp add: list_all2_lengthD)
  have "list_all2 (\<lambda>w c. answers w c \<and> length c \<le> 1024) (writes es) answered"
  proof -
    have "list_all (\<lambda>c. length c \<le> 1024) answered" using a(1,3) by simp
    then show ?thesis using a(2) by (simp add: list_all2_conv_all_nth list_all_length)
  qed
  then have "list_all2 (\<lambda>(t, r) c. r = ''['' @ clock_text t @ ''] Echo: '' @ c \<and> length c \<le> 1024 \<and>
      length r \<le> 1041) (writes es) answered"
    by (rule list_all2_mono) (auto simp: answers_text)
  moreover have "pc = Leaving \<or> pc = Ended \<longleftrightarrow> list_ex failed es \<and> pending pc = []"
    using a(4) by (cases pc) simp_all
  ultimately show ?thesis using a(1,5,6) len by simp
qed

text \<open>
  A run: two streams are accepted, both deliver bytes, the second one with its end of file, a datagram is
  echoed, and the session is closed while the first stream is still open.
\<close>

definition demo_time :: go_time where
  "demo_time = \<lparr>gt_instant = 45296000000000, gt_offset = 0\<rparr>"

definition demo_trace :: "nat wt_event list" where
  "demo_trace =
     [OnMain (AcceptStream (Inr 4)), OnStream 0 (Read ''hi'' None), OnMain (AcceptStream (Inr 8)),
      OnStream 1 (Read ''bye'' (Some (NewError ''EOF''))), OnDatagrams (ReceiveDatagram (Inr ''ping'')),
      OnStream 0 (Write demo_time ''[12:34:56] Echo: hi'' (Inr ())),
      OnDatagrams (SendDatagram ''Echo: ping'' (Inr ())),
      OnStream 1 (Write demo_time ''[12:34:56] Echo: bye'' (Inr ())),
      OnMain (AcceptStream (Inl (NewError ''closed''))), OnStream 1 (Close (Inr ())),
      OnMain (CloseWithError 0 ''done'' (Inr ()))]"

definition demo_end :: "nat wt_session" where
  "demo_end = \<lparr>wt_main = Returned, wt_datagrams = Receiving, wt_streams = [(4, Reading), (8, Ended)]\<rparr>"

lemma demo_response: "stream_response demo_time msg = ''[12:34:56] Echo: '' @ msg"
proof -
  have "local_nanos demo_time div 1000000000 = 45296" by (simp add: local_nanos_def demo_time_def)
  moreover have "map digit [1, 2, 3, 4, 5, 6] = ''123456''" by code_simp
  ultimately have "clock_text demo_time = ''12:34:56''" by (simp add: clock_text_def pad2_def)
  then show ?thesis by (simp add: stream_response_def)
qed

lemma demo_run: "wt_run demo_trace demo_end"
  unfolding wt_run_iff demo_trace_def
  by (simp add: session_start_def demo_end_def demo_response after_read_def)

theorem session_streams_echo_witness:
  "map snd (writes (stream_events 1 demo_trace)) = [''[12:34:56] Echo: bye''] \<and>
     length (filter (\<lambda>e. \<exists>r. e = Close r) (stream_events 1 demo_trace)) = 1"
  using session_streams_echo [OF demo_run, of 1, OF _ refl refl]
  by (simp add: demo_end_def demo_trace_def stream_events_def writes_def List.map_filter_def)

text \<open>
  C22: how a session ends. The accept loop accepts streams until AcceptStream fails for the first time and
  then closes the session once, with code 0 and "done"; the datagrams sent are those received, in their
  order, after "Echo: ", up to the one that is being sent. Nothing stops the other goroutines: there is a
  next step until the accept loop returned, the datagram loop had an error and every stream was closed.
\<close>

theorem session_ends:
  assumes "wt_run tr s"
  shows "(\<exists>err r. main_events tr = map (\<lambda>stream. AcceptStream (Inr stream)) (accepted tr) @
      (case wt_main s of Accepting \<Rightarrow> [] | Closing \<Rightarrow> [AcceptStream (Inl err)]
       | Returned \<Rightarrow> [AcceptStream (Inl err), CloseWithError 0 ''done'' r])) \<and>
    map (\<lambda>msg. ''Echo: '' @ msg) (concat (map received (datagram_events tr))) =
      concat (map datagrams_sent (datagram_events tr)) @ (case wt_datagrams s of Sending d \<Rightarrow> [d] | _ \<Rightarrow> []) \<and>
    ((\<forall>e. session_step s e = None) \<longleftrightarrow>
      wt_main s = Returned \<and> wt_datagrams s = Stopped \<and> snd ` set (wt_streams s) \<subseteq> {Ended})"
  using wt_run_after [OF assms] accept_run [of "main_events tr"] datagram_run [of "datagram_events tr"]
    session_stuck [of s]
  unfolding session_after_def accepted_def by blast

theorem session_ends_witness:
  "(\<exists>e. session_step demo_end e \<noteq> None) \<and> concat (map datagrams_sent (datagram_events demo_trace)) = [''Echo: ping'']"
proof -
  have "\<not> (\<forall>e. session_step demo_end e = None)"
    using session_ends [OF demo_run] by (simp add: demo_end_def)
  moreover have "concat (map datagrams_sent (datagram_events demo_trace)) = [''Echo: ping'']"
    by (simp add: demo_trace_def datagram_events_def List.map_filter_def)
  ultimately show ?thesis by blast
qed

end
