(* ===== verification/Extension_Servers.thy ===== *)
theory Extension_Servers
  imports WebTransport_Echo Websocket_Echo
begin

text \<open>
  The servers of \<open>examples/extensions\<close>: how each main program puts the adapters of \<open>Extensions\<close> together,
  and its handlers. The application is zerohttp's; what main does with it is the list of calls it makes on
  it. A handler acts on the headers of the response and the outside world; the names and values that the
  code takes from zerohttp's \<open>httpx\<close> are the standard ones, the plain-text media type is a parameter.
\<close>

section \<open>Calls on the application\<close>

type_synonym ('p, 'w) http_handler = "'p \<Rightarrow> header \<times> 'w \<Rightarrow> unit res \<times> header \<times> 'w"

record 'm app_config =
  ac_Addr :: string
  ac_TLSAddr :: string
  ac_CertFile :: string
  ac_KeyFile :: string
  ac_DisableDefaultMiddlewares :: bool
  ac_AutocertManager :: "'m option"

datatype ('m, 's, 'wt, 'p, 'w) app_call =
    NewApp "'m app_config"
  | Use "('p, 'w) http_handler \<Rightarrow> ('p, 'w) http_handler"
  | Handle_GET string "('p, 'w) http_handler"
  | Handle_CONNECT string
  | SetHTTP3Server 's
  | SetWebTransportServer 'wt
  | StartTLS string string
  | StartAutoTLS
  | ListenAndServeTLS string string

section \<open>Handlers\<close>

text \<open>The middleware that advertises HTTP/3 on every response.\<close>

definition alt_svc :: "string \<Rightarrow> ('p, 'w) http_handler \<Rightarrow> ('p, 'w) http_handler" where
  "alt_svc v next r s = (case s of (h, w) \<Rightarrow> next r (header_add ''Alt-Svc'' v h, w))"

definition hello_handler :: "string \<Rightarrow> (string \<Rightarrow> ('w, int) act) \<Rightarrow> ('p, 'w) http_handler" where
  "hello_handler text_plain write r s =
     (case s of (h, w) \<Rightarrow>
        (let h = header_set ''Content-Type'' text_plain h;
             (r, w) = write (''Hello over HTTP/3!'' @ [CHR 0x0A]) w
         in (case r of Inl err \<Rightarrow> Inl err | Inr _ \<Rightarrow> Inr (), h, w)))"

text \<open>The client page of the WebTransport servers.\<close>

definition wt_index :: "string \<Rightarrow> (string \<Rightarrow> ('p, 'w) http_handler) \<Rightarrow> ('p, 'w) http_handler" where
  "wt_index v serve_file r s =
     (case s of (h, w) \<Rightarrow> serve_file ''static/index.html'' r (header_add ''Alt-Svc'' v h, w))"

text \<open>The CONNECT handler: after an upgrade it starts a session of \<open>WebTransport_Echo\<close>.\<close>

definition wt_connect :: "('w, 's) act \<Rightarrow> 'w \<Rightarrow> (unit res \<times> 's option) \<times> 'w" where
  "wt_connect upgrade w =
     (case upgrade w of
        (Inl err, w) \<Rightarrow> ((Inl err, None), w)
      | (Inr sess, w) \<Rightarrow> ((Inr (), Some sess), w))"

text \<open>The page of the autocert server: its three values, by name.\<close>

datatype page_value = PStr string | PBool bool

definition autocert_page :: "'t option \<Rightarrow> string \<Rightarrow> (string \<times> page_value) list" where
  "autocert_page tls host =
     [(''message'', PStr ''Hello, Auto TLS World!''), (''tls'', PBool (tls \<noteq> None)), (''host'', PStr host)]"

section \<open>The main programs\<close>

type_synonym ('h, 'c, 'f, 'p, 'w) main_calls =
  "(('h, 'c, 'f, 'w) autocert_manager, ('h, 'c, unit, 'w) h3_server, ('h, 'c, unit, 'w) wt_server, 'p, 'w) app_call list"

definition app_config_tls :: "string \<Rightarrow> string \<Rightarrow> string \<Rightarrow> bool \<Rightarrow> 'm app_config" where
  "app_config_tls addr certFile keyFile quiet =
     \<lparr>ac_Addr = '''', ac_TLSAddr = addr, ac_CertFile = certFile, ac_KeyFile = keyFile,
      ac_DisableDefaultMiddlewares = quiet, ac_AutocertManager = None\<rparr>"

definition app_config_auto :: "'m \<Rightarrow> bool \<Rightarrow> 'm app_config" where
  "app_config_auto mgr quiet =
     \<lparr>ac_Addr = '':80'', ac_TLSAddr = '':443'', ac_CertFile = '''', ac_KeyFile = '''',
      ac_DisableDefaultMiddlewares = quiet, ac_AutocertManager = Some mgr\<rparr>"

definition autocert_main ::
  "(string, 'h, 'c, 'f, 'w) acme_pkg \<Rightarrow> ('p, 'w) http_handler \<Rightarrow> ('h, 'c, 'f, 'p, 'w) main_calls" where
  "autocert_main acme page =
     (let mgr = NewManager acme ''/var/cache/certs'' [''example.com'', ''www.example.com'']
      in [NewApp (app_config_auto mgr False), Handle_GET ''/'' page, StartAutoTLS])"

definition http3_main :: "('p, 'w) http_handler \<Rightarrow> ('h, 'c, 'f, 'p, 'w) main_calls" where
  "http3_main hello =
     (let certFile = ''localhost+2.pem''; keyFile = ''localhost+2-key.pem'';
          h3Server = NewHTTP3 '':8443'' ()
      in [NewApp (app_config_tls '':8443'' certFile keyFile False), Use (alt_svc ''h3=\":8443\"; ma=86400''),
          Handle_GET ''/'' hello, SetHTTP3Server h3Server, StartTLS certFile keyFile])"

text \<open>Without a domain the program ends with a message.\<close>

definition no_domain :: go_error where
  "no_domain = NewError ''Please provide a domain name with -domain flag''"

definition http3_autocert_main ::
  "(string, 'h, 'c, 'f, 'w) acme_pkg \<Rightarrow> ('p, 'w) http_handler \<Rightarrow> string \<Rightarrow>
     ('h, 'c, 'f, 'p, 'w) main_calls res" where
  "http3_autocert_main acme hello domain =
     (if domain = '''' then Inl no_domain
      else
        (let mgr = NewManager acme ''/var/cache/certs'' [domain];
             h3Server = NewWithAutocert '':443'' () mgr
         in Inr [NewApp (app_config_auto mgr False), Use (alt_svc ''h3=\":443\"; ma=86400''),
              Handle_GET ''/'' hello, SetHTTP3Server h3Server, StartAutoTLS]))"

definition webtransport_autocert_main ::
  "(string, 'h, 'c, 'f, 'w) acme_pkg \<Rightarrow> (string \<Rightarrow> ('p, 'w) http_handler) \<Rightarrow> string \<Rightarrow>
     ('h, 'c, 'f, 'p, 'w) main_calls res" where
  "webtransport_autocert_main acme serve_file domain =
     (if domain = '''' then Inl no_domain
      else
        (let mgr = NewManager acme ''/var/cache/certs'' [domain];
             h3 = \<lparr>h3_Addr = '':443'', h3_Handler = (), h3_TLSConfig = None\<rparr>
         in case NewWebTransport (Some h3) of
              Inl err \<Rightarrow> Inl err
            | Inr wtServer \<Rightarrow>
                Inr [NewApp (app_config_auto mgr True), SetWebTransportServer wtServer,
                  Handle_GET ''/'' (wt_index ''h3=\":443\"; ma=86400'' serve_file),
                  Handle_CONNECT ''/webtransport'', StartAutoTLS]))"

text \<open>
  The server without autocert gives the HTTP/3 server a TLS configuration of its own, with no callback
  (\<open>no_certificate\<close> stands for the nil one).
\<close>

definition webtransport_main ::
  "('h \<Rightarrow> ('w, 'c) act) \<Rightarrow> (string \<Rightarrow> ('p, 'w) http_handler) \<Rightarrow> ('h, 'c, 'f, 'p, 'w) main_calls res" where
  "webtransport_main no_certificate serve_file =
     (let certFile = ''localhost+2.pem''; keyFile = ''localhost+2-key.pem'';
          h3 = \<lparr>h3_Addr = '':8443'', h3_Handler = (),
                h3_TLSConfig = Some \<lparr>tls_GetCertificate = no_certificate, tls_NextProtos = [''h3'']\<rparr>\<rparr>
      in case NewWebTransport (Some h3) of
           Inl err \<Rightarrow> Inl err
         | Inr wtServer \<Rightarrow>
             Inr [NewApp (app_config_tls '':8443'' certFile keyFile True), SetWebTransportServer wtServer,
               Handle_GET ''/'' (wt_index ''h3=\":8443\"; ma=86400'' serve_file), Handle_CONNECT ''/wt'',
               ListenAndServeTLS certFile keyFile])"

section \<open>Which certificates are served\<close>

text \<open>
  The HTTP/3 server of the autocert program and the application get certificates from one manager, which
  admits the given domain only; starting the server with any manager again does not change that.
\<close>

lemma http3_autocert_one_manager:
  assumes "domain \<noteq> ''''" and "mgr = NewManager acme ''/var/cache/certs'' [domain]"
  shows "\<exists>calls server. http3_autocert_main acme hello domain = Inr calls \<and>
    calls ! 0 = NewApp (app_config_auto mgr False) \<and> calls ! 3 = SetHTTP3Server server \<and>
    Manager_Hostnames mgr = [domain] \<and>
    h3_TLSConfig server = Some \<lparr>tls_GetCertificate = Manager_GetCertificate mgr, tls_NextProtos = [''h3'']\<rparr> \<and>
    h3_TLSConfig (snd (HTTP3_ListenAndServeTLSWithAutocert lib mgr' server w)) = h3_TLSConfig server"
  using assms(1)
  by (auto simp: http3_autocert_main_def assms(2) Manager_Hostnames_def NewManager_def first_manager_stays Let_def)

text \<open>
  The WebTransport server of the autocert program has no certificates until it is started with a manager;
  the one of the other program has a TLS configuration, so a manager that it is started with is ignored.
\<close>

lemma webtransport_certificates:
  shows "domain \<noteq> '''' \<Longrightarrow> \<exists>calls server.
      webtransport_autocert_main acme serve_file domain = Inr calls \<and> calls ! 1 = SetWebTransportServer server \<and>
      h3_TLSConfig (wt_H3 server) = None \<and>
      h3_TLSConfig (wt_H3 (snd (WebTransport_ListenAndServeTLSWithAutocert lib mgr server w))) = Some (autocert_tls mgr)"
    and "\<exists>calls server. webtransport_main no_certificate serve_file = Inr calls \<and>
      calls ! 1 = SetWebTransportServer server \<and>
      snd (WebTransport_ListenAndServeTLSWithAutocert lib mgr server w) = server"
  by (auto simp: webtransport_autocert_main_def webtransport_main_def NewWebTransport_def ensure_tls_def
      WebTransport_ListenAndServeTLSWithAutocert_def Let_def)

text \<open>The middleware adds its header to every response and keeps what is there.\<close>

lemma alt_svc_adds:
  "alt_svc v (\<lambda>r (h, w). (Inr (), h, w)) r (h, w) = (Inr (), header_add ''Alt-Svc'' v h, w)"
  "alt_svc v (alt_svc u next) r (h, w) = next r (header_add ''Alt-Svc'' u (header_add ''Alt-Svc'' v h), w)"
  by (simp_all add: alt_svc_def)

end
