(* ===== verification/Login_Server.thy ===== *)
theory Login_Server
  imports Jwt_Properties
begin

text \<open>
  \<open>examples/middleware/jwtauth/main.go\<close>: the server that puts the token store to use. Its login handler
  checks the credentials, makes a session and hands one claims map to the generators of both tokens. The
  binder of JSON bodies, the generators, the renderer and what a request's claims give are zerohttp's and
  parameters; the token store, its storage and the store behind it are those of the other theories.
\<close>

section \<open>The server\<close>

datatype body_value = VStr string | VInt int | VStrs "string list"

type_synonym response = "int \<times> (string \<times> body_value) list"

record login_request =
  lr_Username :: string
  lr_Password :: string

record ('w, 'key) middleware_config =
  mc_Store :: "('w, 'key) token_store"
  mc_RequiredClaims :: "string list"
  mc_ExcludedPaths :: "string list"
  mc_AccessTokenTTL :: duration
  mc_RefreshTokenTTL :: duration

text \<open>
  The set-up up to the middleware's configuration. \<open>log.Fatalf\<close> and the panics of NewTokenStore end the
  program: both are errors here.
\<close>

definition server_config ::
  "(string \<Rightarrow> 'key res) \<Rightarrow> ('key \<Rightarrow> 'key key_set res) \<Rightarrow> 'w storage_client \<Rightarrow> ('w, unit) act \<Rightarrow>
     ('w, ('w, 'key) middleware_config) act" where
  "server_config jwk_import add_key client ping w =
     (case jwk_import ''your-secret-key-at-least-32-bytes-long!'' of
        Inl err \<Rightarrow> (Inl (NewError (''failed to import key: '' @ error_text err)), w)
      | Inr key \<Rightarrow>
          (case add_key key of
             Inl err \<Rightarrow> (Inl (NewError (''failed to add key: '' @ error_text err)), w)
           | Inr keySet \<Rightarrow>
               (case ping w of
                  (Inl err, w) \<Rightarrow> (Inl (NewError (''failed to connect to Redis: '' @ error_text err)), w)
                | (Inr _, w) \<Rightarrow>
                    (let redisStorage = NewRedisStorage client [\<lparr>rsc_KeyPrefix = ''myapp:'', rsc_LockTTL = 0\<rparr>]
                     in case NewTokenStore
                          \<lparr>cfg_KeySet = Some keySet, cfg_Storage = Some (RedisStorage_ops redisStorage),
                           cfg_Algorithm = ''HS256'', cfg_Issuer = '''', cfg_Audience = '''',
                           cfg_RequiredClaims = [], cfg_ValidateIssuer = False, cfg_ValidateAudience = False,
                           cfg_ValidateExpiration = False, cfg_ValidateNotBefore = False,
                           cfg_TokenKeyFunc = None, cfg_KeySelector = None\<rparr> of
                          Inl err \<Rightarrow> (Inl err, w)
                        | Inr tokenStore \<Rightarrow>
                            (Inr \<lparr>mc_Store = tokenStore, mc_RequiredClaims = [''sub''],
                                 mc_ExcludedPaths = [''/login''], mc_AccessTokenTTL = 15 * minute,
                                 mc_RefreshTokenTTL = 7 * 24 * (60 * minute)\<rparr>, w)))))"

text \<open>
  The handler up to the response that it renders: every path ends in one call of \<open>zh.R.JSON\<close>.
\<close>

definition login_session :: "string \<Rightarrow> instant \<Rightarrow> string" where
  "login_session username now = username @ ''_'' @ format_int (unix_nano now)"

definition login_claim_map :: "string \<Rightarrow> instant \<Rightarrow> claims" where
  "login_claim_map username now =
     [(''sub'', AStr username), (''scope'', AStr ''read write''), (''sid'', AStr (login_session username now))]"

definition login_response ::
  "('b \<Rightarrow> login_request res) \<Rightarrow> (claims \<Rightarrow> ('w, string) act) \<Rightarrow> (claims \<Rightarrow> ('w, string) act) \<Rightarrow> ('w \<Rightarrow> instant) \<Rightarrow>
     ('w, 'key) middleware_config \<Rightarrow> 'b \<Rightarrow> 'w \<Rightarrow> response \<times> 'w" where
  "login_response bind gen_access gen_refresh clk cfg body w =
     (case bind body of
        Inl err \<Rightarrow> ((400, [(''error'', VStr ''invalid request'')]), w)
      | Inr req \<Rightarrow>
          if lr_Username req \<noteq> ''alice'' \<or> lr_Password req \<noteq> ''secret''
          then ((401, [(''error'', VStr ''invalid credentials'')]), w)
          else
            (let claims = login_claim_map (lr_Username req) (clk w)
             in case gen_access claims w of
                  (Inl err, w) \<Rightarrow> ((500, [(''error'', VStr ''failed to generate token'')]), w)
                | (Inr accessToken, w) \<Rightarrow>
                    (case gen_refresh claims w of
                       (Inl err, w) \<Rightarrow> ((500, [(''error'', VStr ''failed to generate token'')]), w)
                     | (Inr refreshToken, w) \<Rightarrow>
                         ((200, [(''access_token'', VStr accessToken), (''refresh_token'', VStr refreshToken),
                            (''token_type'', VStr ''Bearer''),
                            (''expires_in'', VInt (float_to_int64 (duration_seconds (mc_AccessTokenTTL cfg))))]),
                          w))))"

definition loginHandler ::
  "(response \<Rightarrow> ('w, unit) act) \<Rightarrow> ('b \<Rightarrow> login_request res) \<Rightarrow> (claims \<Rightarrow> ('w, string) act) \<Rightarrow>
     (claims \<Rightarrow> ('w, string) act) \<Rightarrow> ('w \<Rightarrow> instant) \<Rightarrow> ('w, 'key) middleware_config \<Rightarrow> 'b \<Rightarrow> ('w, unit) act" where
  "loginHandler render bind gen_access gen_refresh clk cfg body w =
     (case login_response bind gen_access gen_refresh clk cfg body w of (r, w) \<Rightarrow> render r w)"

text \<open>\<open>subject\<close> and \<open>scopes\<close> are what zerohttp reads out of the claims of the request.\<close>

definition profile_response :: "('c \<Rightarrow> string) \<Rightarrow> ('c \<Rightarrow> string list) \<Rightarrow> 'c \<Rightarrow> response" where
  "profile_response subject scopes jwtClaims =
     (200, [(''subject'', VStr (subject jwtClaims)), (''scopes'', VStrs (scopes jwtClaims)),
       (''message'', VStr ''Hello from lestrrat-go/jwx v3 JWT auth'')])"

section \<open>Lemmas\<close>

lemma login_claim_map_ok: "login_claims (login_claim_map u now)"
  by (simp add: login_claims_def login_claim_map_def is_map_def)

lemma login_claim_map_of [simp]:
  "map_of (login_claim_map u now) ''sub'' = Some (AStr u)"
  "map_of (login_claim_map u now) ''sid'' = Some (AStr (login_session u now))"
  "map_of (login_claim_map u now) ''jti'' = None"
  by (simp_all add: login_claim_map_def)

lemma login_session_eq [simp]:
  "login_session u s \<noteq> ''''" "login_session u s = login_session u t \<longleftrightarrow> unix_nano s = unix_nano t"
  by (simp_all add: login_session_def)

lemma login_response_200:
  assumes "login_response bind gen_access gen_refresh clk cfg body w = ((200, b), w')"
  shows "\<exists>access refresh w''.
    gen_access (login_claim_map ''alice'' (clk w)) w = (Inr access, w'') \<and>
    gen_refresh (login_claim_map ''alice'' (clk w)) w'' = (Inr refresh, w') \<and>
    map_of b ''access_token'' = Some (VStr access) \<and> map_of b ''refresh_token'' = Some (VStr refresh)"
  using assms by (auto simp: login_response_def Let_def split: sum.splits if_splits prod.splits)

lemma ascii_format_int: "list_all (\<lambda>c. code c < 0x80) (format_int n)"
  using dec_digits [of _ "nat n"] dec_digits [of _ "nat (- n)"]
  by (fastforce simp: format_int_def list_all_iff)

lemma login_session_valid: "list_all (\<lambda>c. code c < 0x80) u \<Longrightarrow> to_valid (login_session u t) = login_session u t"
  using ascii_valid [of "login_session u t"] ascii_format_int by (simp add: valid_utf8_def login_session_def)

lemma validated_login:
  assumes "jwx lib" and "utf8_checks s" and "list_all (\<lambda>c. code c < 0x80) u"
    and "TokenStore_Generate lib s t t (MapClaims (login_claim_map u t)) tt ttl = Inr str"
    and "unix_sec t \<le> unix_sec now" and "unix_sec now < unix_sec (t + ttl)"
  shows "\<exists>c. TokenStore_Validate lib s now str = Inr c \<and> map_of c ''sub'' = Some (AStr u) \<and>
    sid_of c = Some (login_session u t) \<and> defaultTokenKeyFunc c = u @ CHR '':'' # login_session u t"
proof -
  obtain c where c: "TokenStore_Validate lib s now str = Inr c"
    "\<forall>k v. map_of (login_claim_map u t) k = Some v \<and> clean_name (fst ` set (login_claim_map u t)) k \<longrightarrow>
      map_of c k = Some (json_string v)"
    "map_of c ''jti'' = map_option json_string (map_of (login_claim_map u t) ''jti'')"
    "map_of c ''sub'' = map_option json_string (map_of (login_claim_map u t) ''sub'')"
    using jwx.generate_validate [OF assms(1) login_claim_map_ok assms(4,5) _ assms(2)] assms(6) by auto
  have "to_valid u = u" using ascii_valid [OF assms(3)] by (simp add: valid_utf8_def)
  then have "map_of c ''sub'' = Some (AStr u)" "map_of c ''jti'' = None" using c(3,4) by simp_all
  moreover have "clean_name ks ''sid''" for ks by (simp add: ascii_clean_name)
  with c(2) have "map_of c ''sid'' = Some (AStr (login_session u t))"
    using login_claim_map_of(2) [of u t] by (simp add: login_session_valid [OF assms(3)])
  ultimately show ?thesis
    using c(1) by (simp add: claim_def defaultTokenKeyFunc_split token_ident_def)
qed

lemma unix_sec_mono: "s \<le> t \<Longrightarrow> unix_sec s \<le> unix_sec t"
  by (simp add: unix_sec_def zdiv_mono1)

text \<open>Revoking the claims of one session, seen from claims with a session of their own.\<close>

lemma revoke_session:
  assumes "jwt_store sview late elapse s px defaultTokenKeyFunc clk" and "sv_ok (sview w)"
    and "sid_of d = Some x" and "defaultTokenKeyFunc d = u @ CHR '':'' # x"
    and "sid_of c = Some y" and "defaultTokenKeyFunc c = u @ CHR '':'' # y"
  shows "fst (TokenStore_IsRevoked s c (snd (TokenStore_Revoke clk s d w))) =
    (if y = x then Inr True else fst (TokenStore_IsRevoked s c w))"
  using assms(3-6) by (simp add: jwt_store.IsRevoked_Revoke [OF assms(1,2)])

text \<open>The two tokens of a response are accepted for "alice", with the claims \<open>c\<close> and \<open>d\<close>.\<close>

definition tokens_accepted ::
  "('key, 'tok) jwt_lib \<Rightarrow> ('w, 'key) token_store \<Rightarrow> instant \<Rightarrow> (string \<times> body_value) list \<Rightarrow> claims \<Rightarrow> claims \<Rightarrow>
     bool" where
  "tokens_accepted lib s now b c d \<longleftrightarrow>
     (case (map_of b ''access_token'', map_of b ''refresh_token'') of
        (Some (VStr a), Some (VStr r)) \<Rightarrow>
          TokenStore_Validate lib s now a = Inr c \<and> TokenStore_Validate lib s now r = Inr d \<and>
          map_of c ''sub'' = Some (AStr ''alice'') \<and> map_of d ''sub'' = Some (AStr ''alice'')
      | _ \<Rightarrow> False)"

lemma login_tokens:
  assumes "jwx lib" and "utf8_checks s"
    and "\<And>c w. gen_access c w = (TokenStore_Generate lib s (clk w) (clk w) (MapClaims c) AccessToken
      (mc_AccessTokenTTL cfg), w)"
    and "\<And>c w. gen_refresh c w = (TokenStore_Generate lib s (clk w) (clk w) (MapClaims c) RefreshToken
      (mc_RefreshTokenTTL cfg), w)"
    and "mc_AccessTokenTTL cfg \<le> mc_RefreshTokenTTL cfg"
    and "login_response bind gen_access gen_refresh clk cfg body w = ((200, b), w')"
    and "unix_sec (clk w) \<le> unix_sec now" and "unix_sec now < unix_sec (clk w + mc_AccessTokenTTL cfg)"
    and "x = login_session ''alice'' (clk w)"
  shows "\<exists>c d. tokens_accepted lib s now b c d \<and> sid_of c = Some x \<and> sid_of d = Some x \<and>
    defaultTokenKeyFunc c = ''alice'' @ CHR '':'' # x \<and> defaultTokenKeyFunc d = ''alice'' @ CHR '':'' # x"
proof -
  define alice where "alice = ''alice''"
  obtain a r where b: "map_of b ''access_token'' = Some (VStr a)" "map_of b ''refresh_token'' = Some (VStr r)"
    and g: "TokenStore_Generate lib s (clk w) (clk w) (MapClaims (login_claim_map alice (clk w)))
        AccessToken (mc_AccessTokenTTL cfg) = Inr a"
      "TokenStore_Generate lib s (clk w) (clk w) (MapClaims (login_claim_map alice (clk w)))
        RefreshToken (mc_RefreshTokenTTL cfg) = Inr r"
    using login_response_200 [OF assms(6)] unfolding assms(3,4) alice_def by blast
  have ascii: "list_all (\<lambda>c. code c < 0x80) alice" by (simp add: alice_def)
  have ttl: "unix_sec now < unix_sec (clk w + mc_RefreshTokenTTL cfg)"
    using assms(5,8) unix_sec_mono [of "clk w + mc_AccessTokenTTL cfg" "clk w + mc_RefreshTokenTTL cfg"] by simp
  obtain c where c: "TokenStore_Validate lib s now a = Inr c" "map_of c ''sub'' = Some (AStr alice)"
    "sid_of c = Some (login_session alice (clk w))"
    "defaultTokenKeyFunc c = alice @ CHR '':'' # login_session alice (clk w)"
    using validated_login [OF assms(1,2) ascii g(1) assms(7,8)] by blast
  obtain d where d: "TokenStore_Validate lib s now r = Inr d" "map_of d ''sub'' = Some (AStr alice)"
    "sid_of d = Some (login_session alice (clk w))"
    "defaultTokenKeyFunc d = alice @ CHR '':'' # login_session alice (clk w)"
    using validated_login [OF assms(1,2) ascii g(2) assms(7) ttl] by blast
  have "tokens_accepted lib s now b c d" using b c(1,2) d(1,2) by (simp add: tokens_accepted_def alice_def)
  then show ?thesis using c(3,4) d(3,4) unfolding assms(9) alice_def by blast
qed

section \<open>Properties of the server\<close>

text \<open>
  C2: sessions are independent. Take two requests that the login handler answered with status 200 at
  different nanoseconds of the clock, the generators being the store's Generate with the configured
  lifetimes (the access token's not the longer one). While the access tokens are current, all four tokens
  are accepted with the subject "alice"; revoking the claims of the refresh token of the first login
  revokes both tokens of that login and changes the answer for neither token of the second. (An issuer or
  an audience that the store checks is UTF-8: JSON brings back no other.)
\<close>

theorem login_sessions_independent:
  assumes "jwx lib" and "jwt_store sview late elapse s px defaultTokenKeyFunc clk" and "sv_ok (sview w)"
    and "\<And>c w. gen_access c w = (TokenStore_Generate lib s (clk w) (clk w) (MapClaims c) AccessToken
      (mc_AccessTokenTTL cfg), w)"
    and "\<And>c w. gen_refresh c w = (TokenStore_Generate lib s (clk w) (clk w) (MapClaims c) RefreshToken
      (mc_RefreshTokenTTL cfg), w)"
    and "mc_AccessTokenTTL cfg \<le> mc_RefreshTokenTTL cfg"
    and "login_response bind gen_access gen_refresh clk cfg body1 w1 = ((200, b1), w1')"
    and "login_response bind gen_access gen_refresh clk cfg body2 w2 = ((200, b2), w2')"
    and "unix_nano (clk w1) \<noteq> unix_nano (clk w2)"
    and "unix_sec (clk w1) \<le> unix_sec now" and "unix_sec now < unix_sec (clk w1 + mc_AccessTokenTTL cfg)"
    and "unix_sec (clk w2) \<le> unix_sec now" and "unix_sec now < unix_sec (clk w2 + mc_AccessTokenTTL cfg)"
    and "utf8_checks s"
  shows "\<exists>access1 refresh1 access2 refresh2.
    tokens_accepted lib s now b1 access1 refresh1 \<and> tokens_accepted lib s now b2 access2 refresh2 \<and>
    fst (TokenStore_IsRevoked s access1 (snd (TokenStore_Revoke clk s refresh1 w))) = Inr True \<and>
    fst (TokenStore_IsRevoked s refresh1 (snd (TokenStore_Revoke clk s refresh1 w))) = Inr True \<and>
    fst (TokenStore_IsRevoked s access2 (snd (TokenStore_Revoke clk s refresh1 w))) =
      fst (TokenStore_IsRevoked s access2 w) \<and>
    fst (TokenStore_IsRevoked s refresh2 (snd (TokenStore_Revoke clk s refresh1 w))) =
      fst (TokenStore_IsRevoked s refresh2 w)"
proof -
  define x where "x = login_session ''alice'' (clk w1)"
  define y where "y = login_session ''alice'' (clk w2)"
  have ne: "y \<noteq> x" using assms(9) by (simp add: x_def y_def)
  obtain c1 d1 where 1: "tokens_accepted lib s now b1 c1 d1" "sid_of c1 = Some x" "sid_of d1 = Some x"
    "defaultTokenKeyFunc c1 = ''alice'' @ CHR '':'' # x" "defaultTokenKeyFunc d1 = ''alice'' @ CHR '':'' # x"
    using login_tokens [OF assms(1,14,4-7,10,11) x_def] by blast
  obtain c2 d2 where 2: "tokens_accepted lib s now b2 c2 d2" "sid_of c2 = Some y" "sid_of d2 = Some y"
    "defaultTokenKeyFunc c2 = ''alice'' @ CHR '':'' # y" "defaultTokenKeyFunc d2 = ''alice'' @ CHR '':'' # y"
    using login_tokens [OF assms(1,14,4-6,8,12,13) y_def] by blast
  note rev = revoke_session [OF assms(2,3) 1(3,5)]
  have "fst (TokenStore_IsRevoked s c1 (snd (TokenStore_Revoke clk s d1 w))) = Inr True"
    "fst (TokenStore_IsRevoked s d1 (snd (TokenStore_Revoke clk s d1 w))) = Inr True"
    using rev [OF 1(2,4)] rev [OF 1(3,5)] by simp_all
  moreover have
    "fst (TokenStore_IsRevoked s c2 (snd (TokenStore_Revoke clk s d1 w))) = fst (TokenStore_IsRevoked s c2 w)"
    "fst (TokenStore_IsRevoked s d2 (snd (TokenStore_Revoke clk s d1 w))) = fst (TokenStore_IsRevoked s d2 w)"
    using rev [OF 2(2,4)] rev [OF 2(3,5)] ne by simp_all
  ultimately show ?thesis using 1(1) 2(1) by blast
qed

text \<open>The server of the example on the Redis model and the concrete JWT library.\<close>

definition demo_server :: "(redis_view, string) middleware_config" where
  "demo_server = \<lparr>mc_Store = demo_jwt, mc_RequiredClaims = [''sub''], mc_ExcludedPaths = [''/login''],
     mc_AccessTokenTTL = 15 * minute, mc_RefreshTokenTTL = 7 * 24 * (60 * minute)\<rparr>"

lemma server_config_demo:
  "server_config Inr (\<lambda>key. Inr \<lparr>ks_len = 1, ks_key = (\<lambda>i. if i = 0 then Some key else None)\<rparr>) srv_client
     (give ()) w = (Inr demo_server, w)"
proof -
  define set_of :: "string \<Rightarrow> string key_set" where
    "set_of = (\<lambda>key. \<lparr>ks_len = 1, ks_key = (\<lambda>i. if i = 0 then Some key else None)\<rparr>)"
  have "set_of ''your-secret-key-at-least-32-bytes-long!'' = demo_keys"
    by (simp add: set_of_def demo_keys_def)
  moreover have "ks_len demo_keys \<noteq> 0" by (simp add: demo_keys_def)
  ultimately have "server_config Inr (\<lambda>key. Inr (set_of key)) srv_client (give ()) w = (Inr demo_server, w)"
    by (simp add: server_config_def demo_server_def demo_jwt_def demo_config_def demo_storage_def give_def
        NewTokenStore_def Let_def)
  then show ?thesis by (simp add: set_of_def)
qed

definition demo_gen :: "token_type \<Rightarrow> duration \<Rightarrow> claims \<Rightarrow> (redis_view, string) act" where
  "demo_gen tt ttl c w =
     (TokenStore_Generate lib_jwx demo_jwt (rv_clock w) (rv_clock w) (MapClaims c) tt ttl, w)"

lemma demo_gen_ok: "\<exists>str. demo_gen tt ttl c w = (Inr str, w)"
  by (simp add: demo_gen_def TokenStore_Generate_def normalizeClaims_def TokenStore_getJWKKey_def demo_keys_def
      lib_sign_def)

definition demo_login_response :: "string \<Rightarrow> redis_view \<Rightarrow> response \<times> redis_view" where
  "demo_login_response password =
     login_response (\<lambda>p. Inr \<lparr>lr_Username = ''alice'', lr_Password = p\<rparr>)
       (demo_gen AccessToken (15 * minute)) (demo_gen RefreshToken (7 * 24 * (60 * minute))) rv_clock demo_server
       password"

lemma demo_login_response_ok: "\<exists>b. demo_login_response ''secret'' w = ((200, b), w)"
proof -
  obtain a where "demo_gen AccessToken (15 * minute) (login_claim_map ''alice'' (rv_clock w)) w = (Inr a, w)"
    using demo_gen_ok by blast
  moreover obtain r where
    "demo_gen RefreshToken (7 * 24 * (60 * minute)) (login_claim_map ''alice'' (rv_clock w)) w = (Inr r, w)"
    using demo_gen_ok by blast
  ultimately show ?thesis by (simp add: demo_login_response_def login_response_def)
qed

theorem login_sessions_independent_witness:
  "\<exists>b1 b2 refresh1 access2 c2.
     demo_login_response ''secret'' (empty_server 0) = ((200, b1), empty_server 0) \<and>
     demo_login_response ''secret'' (empty_server second) = ((200, b2), empty_server second) \<and>
     map_of b2 ''access_token'' = Some (VStr access2) \<and>
     TokenStore_Validate lib_jwx demo_jwt (5 * second) access2 = Inr c2 \<and>
     fst (TokenStore_IsRevoked demo_jwt c2 (snd (TokenStore_Revoke rv_clock demo_jwt refresh1 (empty_server 0)))) =
       fst (TokenStore_IsRevoked demo_jwt c2 (empty_server 0))"
proof -
  have clock [simp]: "rv_clock (empty_server t) = t" for t by (simp add: empty_server_def)
  obtain b1 where b1: "demo_login_response ''secret'' (empty_server 0) = ((200, b1), empty_server 0)"
    using demo_login_response_ok by blast
  obtain b2 where b2: "demo_login_response ''secret'' (empty_server second) = ((200, b2), empty_server second)"
    using demo_login_response_ok by blast
  note ttl = demo_server_def duration_defs unix_sec_def unix_nano_def wrap64_def
  have "\<exists>access1 refresh1 access2 refresh2.
    tokens_accepted lib_jwx demo_jwt (5 * second) b1 access1 refresh1 \<and>
    tokens_accepted lib_jwx demo_jwt (5 * second) b2 access2 refresh2 \<and>
    fst (TokenStore_IsRevoked demo_jwt access1 (snd (TokenStore_Revoke rv_clock demo_jwt refresh1 (empty_server 0)))) = Inr True \<and>
    fst (TokenStore_IsRevoked demo_jwt refresh1 (snd (TokenStore_Revoke rv_clock demo_jwt refresh1 (empty_server 0)))) = Inr True \<and>
    fst (TokenStore_IsRevoked demo_jwt access2 (snd (TokenStore_Revoke rv_clock demo_jwt refresh1 (empty_server 0)))) =
      fst (TokenStore_IsRevoked demo_jwt access2 (empty_server 0)) \<and>
    fst (TokenStore_IsRevoked demo_jwt refresh2 (snd (TokenStore_Revoke rv_clock demo_jwt refresh1 (empty_server 0)))) =
      fst (TokenStore_IsRevoked demo_jwt refresh2 (empty_server 0))"
    by (rule login_sessions_independent [OF lib.jwx_axioms demo_jwt.jwt_store_axioms demo_ok _ _ _
          b1 [unfolded demo_login_response_def] b2 [unfolded demo_login_response_def]])
      (simp_all add: demo_gen_def ttl demo_jwt_checks)
  then show ?thesis
    using b1 b2 by (auto simp: tokens_accepted_def split: option.splits body_value.splits)
qed

text \<open>
  C30: who gets a token. The handler answers with status 200 exactly for the demo credentials when both
  tokens could be made, and only then does the response hold an access or a refresh token; a request that
  cannot be read gets 400 and wrong credentials get 401, without a call of the generators (the answer does
  not depend on them, and the outside world is unchanged); a failure of either generator gives 500 and no
  token, not even the access token that was made already.
\<close>

theorem login_gate:
  "let (r, w') = login_response bind gen_access gen_refresh clk cfg body w;
       ok = (bind body = Inr \<lparr>lr_Username = ''alice'', lr_Password = ''secret''\<rparr>);
       m = login_claim_map ''alice'' (clk w)
   in (fst r = 200 \<longleftrightarrow> ok \<and> (\<exists>a r w1 w2. gen_access m w = (Inr a, w1) \<and> gen_refresh m w1 = (Inr r, w2))) \<and>
      (\<exists>t. (''access_token'', t) \<in> set (snd r) \<or> (''refresh_token'', t) \<in> set (snd r)) = (fst r = 200) \<and>
      (fst r = (if \<exists>e. bind body = Inl e then 400 else 401) \<longleftrightarrow> \<not> ok) \<and>
      (ok \<or> (r, w') = login_response bind gen_access' gen_refresh' clk' cfg' body w \<and> w' = w) \<and>
      fst r \<in> {200, 400, 401, 500}"
  by (cases "bind body")
    (auto simp: login_response_def Let_def login_request.splits split: sum.splits prod.splits if_splits)

end
