(* ===== verification/Cache_Server.thy ===== *)
theory Cache_Server
  imports Cache
begin

text \<open>
  \<open>examples/middleware/cache/main.go\<close>: the routes of a server with the Redis cache, each with its handler
  and the configuration of its cache middleware. The middleware is zerohttp's: the model ends at the
  configuration it is given and the store it uses.
\<close>

section \<open>The routes\<close>

datatype json_field = JStr string | JInt int | JBool bool | JStrs "string list"

datatype content = Json_Body "(string \<times> json_field) list" | Html_Body string

text \<open>A nil pointer or an unset field of the configuration is \<open>None\<close>.\<close>

record cache_middleware =
  cm_CacheControl :: string
  cm_DefaultTTL :: duration
  cm_ETag :: "bool option"
  cm_LastModified :: "bool option"
  cm_Vary :: "string list option"

text \<open>A handler's status is 200; its body depends on the path value \<open>id\<close> and on the clock.\<close>

record cache_route =
  rt_Path :: string
  rt_Body :: "string \<Rightarrow> go_time \<Rightarrow> content"
  rt_Cache :: "cache_middleware option"

text \<open>\<open>Format(time.RFC3339)\<close> drops the fraction of the second (years 0 to 9999).\<close>

definition rfc3339 :: "go_time \<Rightarrow> string" where
  "rfc3339 t =
     (case print_time (t\<lparr>gt_instant := gt_instant t div second * second\<rparr>) of None \<Rightarrow> '''' | Some s \<Rightarrow> s)"

definition rfc3339_nano :: "go_time \<Rightarrow> string" where
  "rfc3339_nano t = (case print_time t of None \<Rightarrow> '''' | Some s \<Rightarrow> s)"

definition public_data_route :: cache_route where
  "public_data_route =
     \<lparr>rt_Path = ''/api/public/data'',
      rt_Body = (\<lambda>_ now. Json_Body
        [(''timestamp'', JInt (unix_sec (gt_instant now))),
         (''message'', JStr ''This response is cached in Redis with ETag support''), (''hits'', JInt 1)]),
      rt_Cache = Some \<lparr>cm_CacheControl = ''public, max-age=30'', cm_DefaultTTL = 30 * second,
        cm_ETag = Some True, cm_LastModified = Some True, cm_Vary = None\<rparr>\<rparr>"

definition user_route :: cache_route where
  "user_route =
     \<lparr>rt_Path = ''/api/users/{id}'',
      rt_Body = (\<lambda>userID now. Json_Body
        [(''id'', JStr userID), (''name'', JStr (''User '' @ userID)),
         (''email'', JStr (''user'' @ userID @ ''@example.com'')), (''fetchedAt'', JStr (rfc3339 now))]),
      rt_Cache = Some \<lparr>cm_CacheControl = ''private, max-age=60'', cm_DefaultTTL = minute,
        cm_ETag = Some True, cm_LastModified = None, cm_Vary = Some [''Accept'', ''Accept-Encoding'']\<rparr>\<rparr>"

definition live_route :: cache_route where
  "live_route =
     \<lparr>rt_Path = ''/api/live'',
      rt_Body = (\<lambda>_ now. Json_Body [(''status'', JStr ''ok''), (''timestamp'', JStr (rfc3339_nano now))]),
      rt_Cache = None\<rparr>"

definition config_route :: cache_route where
  "config_route =
     \<lparr>rt_Path = ''/api/config'',
      rt_Body = (\<lambda>_ _. Json_Body
        [(''version'', JStr ''1.0.0''), (''features'', JStrs [''cache'', ''etag'', ''ratelimit'']),
         (''maintenance'', JBool False)]),
      rt_Cache = Some \<lparr>cm_CacheControl = ''public, max-age=3600, immutable'', cm_DefaultTTL = 60 * minute,
        cm_ETag = None, cm_LastModified = None, cm_Vary = None\<rparr>\<rparr>"

definition page_html :: "go_time \<Rightarrow> string" where
  "page_html now =
     concat (map (\<lambda>line. line @ [CHR 0x0A])
       [''<!DOCTYPE html>'', ''<html>'', ''<head><title>Cache Demo</title></head>'', ''<body>'',
        ''<h1>Cached HTML Page</h1>'', ''<p>Generated at: '' @ rfc3339 now @ ''</p>'',
        ''<p>This page is cached for 2 minutes.</p>'', ''</body>''])
     @ ''</html>''"

definition page_route :: cache_route where
  "page_route =
     \<lparr>rt_Path = ''/page/info'', rt_Body = (\<lambda>_ now. Html_Body (page_html now)),
      rt_Cache = Some \<lparr>cm_CacheControl = ''public, max-age=120'', cm_DefaultTTL = 2 * minute,
        cm_ETag = None, cm_LastModified = None, cm_Vary = None\<rparr>\<rparr>"

definition stats_route :: cache_route where
  "stats_route =
     \<lparr>rt_Path = ''/api/stats'',
      rt_Body = (\<lambda>_ now. Json_Body
        [(''requests'', JInt 12345), (''cacheHits'', JInt 9876), (''cacheMisses'', JInt 2469),
         (''updatedAt'', JInt (unix_sec (gt_instant now)))]),
      rt_Cache = Some \<lparr>cm_CacheControl = ''public, max-age=10'', cm_DefaultTTL = 10 * second,
        cm_ETag = None, cm_LastModified = None, cm_Vary = None\<rparr>\<rparr>"

definition cache_routes :: "cache_route list" where
  "cache_routes = [public_data_route, user_route, live_route, config_route, page_route, stats_route]"

text \<open>The set-up: a failed ping ends the program, otherwise all routes share one store.\<close>

definition cache_server ::
  "'w cache_client \<Rightarrow> ('w, unit) act \<Rightarrow> ('w, 'w cache_store \<times> cache_route list) act" where
  "cache_server client ping w =
     (case ping w of
        (Inl err, w) \<Rightarrow>
          (Inl (NewError (''Failed to connect to Redis: '' @ error_text err @ [CHR 0x0A] @
             ''Make sure Redis is running: docker run -d --name redis -p 6379:6379 redis:7-alpine'')), w)
      | (Inr _, w) \<Rightarrow>
          (Inr (NewCacheStore client [\<lparr>csc_KeyPrefix = ''zerohttp:cache''\<rparr>], cache_routes), w))"

section \<open>The age that a response announces\<close>

text \<open>The \<open>max-age\<close> directive of a Cache-Control header, in seconds.\<close>

fun header_fields :: "string \<Rightarrow> string list" where
  "header_fields [] = [[]]"
| "header_fields (c # s) =
     (case header_fields s of
        [] \<Rightarrow> []
      | f # fs \<Rightarrow> if c = CHR '','' then [] # dropWhile (\<lambda>c. c = CHR '' '') f # fs else (c # f) # fs)"

definition max_age :: "string \<Rightarrow> int option" where
  "max_age cc =
     (case List.find (\<lambda>d. take 8 d = ''max-age='') (header_fields cc) of
        None \<Rightarrow> None | Some d \<Rightarrow> Some (int (undec (drop 8 d))))"

lemma max_ages:
  "max_age ''public, max-age=30'' = Some 30" "max_age ''private, max-age=60'' = Some 60"
  "max_age ''public, max-age=3600, immutable'' = Some 3600" "max_age ''public, max-age=120'' = Some 120"
  "max_age ''public, max-age=10'' = Some 10"
  by code_simp+

lemma route_age:
  assumes "r \<in> set cache_routes" and "rt_Cache r = Some cm"
  shows "\<exists>age. max_age (cm_CacheControl cm) = Some age \<and> cm_DefaultTTL cm = age * second \<and> 0 < age"
  using assms
  by (auto simp: cache_routes_def public_data_route_def user_route_def live_route_def config_route_def
      page_route_def stats_route_def max_ages minute_def)

section \<open>Property\<close>

text \<open>
  The cache keeps a response as long as the response tells its reader. For each route with a cache,
  Cache-Control announces a max-age; a record that the store is given with the route's DefaultTTL is
  returned, whatever is done to other keys, as long as less than that many seconds pass, and is a miss
  when more pass, so no reader gets from Redis a response older than announced.
\<close>

theorem cached_as_announced:
  assumes "cache_backed view late elapse s px" and "sv_ok (cache_view s (view w))"
    and "r \<in> set cache_routes" and "rt_Cache r = Some cm"
    and "cache_record_ok x" and "list_all (rec_spares k) os"
  shows "\<exists>age. max_age (cm_CacheControl cm) = Some age \<and> 0 < age \<and>
    (rec_waited os < px (age * second) \<longrightarrow>
      fst (Cache_Get s k (cache_run s elapse os (snd (Cache_Set s k x (cm_DefaultTTL cm) w)))) =
        Inr (Some (clean_cache_record x))) \<and>
    (px (age * second) < rec_waited os \<longrightarrow>
      fst (Cache_Get s k (cache_run s elapse os (snd (Cache_Set s k x (cm_DefaultTTL cm) w)))) = Inr None)"
proof -
  obtain age where age: "max_age (cm_CacheControl cm) = Some age" "cm_DefaultTTL cm = age * second" "0 < age"
    using route_age [OF assms(3,4)] by blast
  have ttl: "0 \<le> cm_DefaultTTL cm" "0 < cm_DefaultTTL cm" using age(2,3) by (simp_all add: second_def)
  show ?thesis
    using record_store.set_run_get [OF cache_backed.is_records [OF assms(1)] assms(2,5) ttl(1) assms(6)] age ttl(2)
    by (simp add: Cache_Get_rec Cache_Set_rec cache_run_rec)
qed

definition plain_record :: cache_Record where
  "plain_record = \<lparr>Rec_StatusCode = 200, Rec_Headers = None, Rec_Body = Some ''{}'', Rec_ETag = [],
     Rec_LastModified = zero_time, Rec_VaryHeaders = None\<rparr>"

lemma plain_record_ok: "cache_record_ok plain_record"
  by (simp add: cache_record_ok_def plain_record_def map_ok_def in_i64_def time_ok_def zero_time_def
      local_day_def epoch_days_def days_before_def)

lemma server_store: "cache_server srv_cache_client (give ()) w = (Inr (demo_cache, cache_routes), w)"
  by (simp add: cache_server_def give_def demo_cache_def)

theorem cached_as_announced_witness:
  "fst (Cache_Get demo_cache ''/api/stats'' (cache_run demo_cache (age late_at) [RecWait (9 * second)]
     (snd (Cache_Set demo_cache ''/api/stats'' plain_record (10 * second) (empty_server 0))))) =
     Inr (Some (clean_cache_record plain_record))"
proof -
  have r: "stats_route \<in> set cache_routes" by (simp add: cache_routes_def)
  obtain cm where cm: "rt_Cache stats_route = Some cm" "cm_CacheControl cm = ''public, max-age=10''"
    "cm_DefaultTTL cm = 10 * second"
    by (simp add: stats_route_def)
  from cached_as_announced [OF demo_cache.cache_backed_axioms demo_cache_ok [of demo_cache 0] r cm(1) plain_record_ok,
    where os = "[RecWait (9 * second)]" and k = "''/api/stats''"]
  show ?thesis by (simp add: cm max_ages wire_ms_exact duration_defs)
qed

end
