(* ===== verification/Middleware_Servers.thy ===== *)
theory Middleware_Servers
  imports Tracer Compress Idempotency RateLimit Extension_Servers
begin

text \<open>
  The servers of \<open>examples/middleware\<close> other than the cache and the login server: how their main programs
  set up the tracer, the compression providers, the rate limiter and the idempotency store, and what
  their handlers answer. zerohttp's middlewares end at the configuration that they are given.
\<close>

section \<open>How a program ends\<close>

text \<open>
  A main function that falls off its end runs its deferred calls and exits with 0; \<open>log.Fatal\<close> logs and
  calls \<open>os.Exit(1)\<close>, which ends the process there and runs none of them.
\<close>

datatype ending = Falls_Off | Os_Exit int

definition end_main :: "ending \<Rightarrow> ('w \<Rightarrow> 'w) list \<Rightarrow> 'w \<Rightarrow> int \<times> 'w" where
  "end_main e deferred w =
     (case e of Os_Exit n \<Rightarrow> (n, w) | Falls_Off \<Rightarrow> (0, fold (\<lambda>call. call) deferred w))"

definition log_fatal :: "(string \<Rightarrow> 'w \<Rightarrow> 'w) \<Rightarrow> string \<Rightarrow> ('w \<Rightarrow> 'w) list \<Rightarrow> 'w \<Rightarrow> int \<times> 'w" where
  "log_fatal logp msg deferred w = end_main (Os_Exit 1) deferred (logp msg w)"

section \<open>The tracer\<close>

text \<open>A JSON reply: its status and its string fields.\<close>

type_synonym reply_json = "int \<times> (string \<times> string) list"

definition tracer_hello :: reply_json where
  "tracer_hello = (200, [(''message'', ''Hello!'')])"

definition tracer_oops :: reply_json where
  "tracer_oops = (500, [(''error'', ''Oops'')])"

text \<open>
  \<open>serve\<close> is the application with the tracer in its configuration and its middleware, from its start to
  the error with which the start returns; \<open>ctx\<close> is the background context.
\<close>

definition tracer_main ::
  "('t, 's, 'kv, 'c, 'x, 'p, 'w, 'f) otel_lib \<Rightarrow> 'c \<Rightarrow>
     ('t otel_tracer \<Rightarrow> (string \<times> reply_json) list \<Rightarrow> 'w \<Rightarrow> go_error \<times> 'w) \<Rightarrow> (string \<Rightarrow> 'w \<Rightarrow> 'w) \<Rightarrow> 'w \<Rightarrow>
     int \<times> 'w" where
  "tracer_main lib ctx serve logp w =
     (case NewHTTPDefault lib ctx ''zerohttp-example'' ''localhost:4318'' True w of
        (Inl err, w) \<Rightarrow> log_fatal logp (''Failed to create tracer: '' @ error_text err) [] w
      | (Inr (tracerImpl, shutdown), w) \<Rightarrow>
          (case serve tracerImpl [(''/'', tracer_hello), (''/error'', tracer_oops)] w of
             (err, w) \<Rightarrow> log_fatal logp (error_text err) [shutdown] w))"

text \<open>
  The tracer is never shut down: main defers the shutdown and leaves by \<open>log.Fatal\<close>, so what the process
  does is the same whatever Shutdown does, and the spans that the batching exporter still holds are lost.
\<close>

lemma tracer_never_shut_down: "tracer_main (lib\<lparr>ot_Shutdown := f\<rparr>) = tracer_main lib"
  by (simp add: fun_eq_iff tracer_main_def NewHTTPDefault_def log_fatal_def end_main_def Let_def case_prod_unfold
      split: sum.split)

section \<open>Compression\<close>

datatype provider = Brotli brotli_provider | Zstd zstd_provider

record compress_config =
  cc_Level :: int
  cc_Algorithms :: "string list"
  cc_Providers :: "provider list"

definition compress_config_demo :: compress_config where
  "compress_config_demo =
     \<lparr>cc_Level = 6, cc_Algorithms = [''br'', ''zstd'', ''gzip'', ''deflate''],
      cc_Providers = [Brotli \<lparr>bp_Level = 0\<rparr>, Zstd \<lparr>zp_Level = 0\<rparr>]\<rparr>"

definition compress_page :: string where
  "compress_page =
     concat (map (\<lambda>line. line @ [CHR 0x0A])
       [''<!DOCTYPE html>'', ''<html>'', ''<head><title>Compression Demo</title></head>'', ''<body>'',
        ''<h1>Hello, Compressed World!</h1>'',
        ''<p>This server supports Brotli, Zstd, Gzip, and Deflate compression.</p>'',
        ''<p>The middleware automatically selects the best algorithm based on your client'' @ [CHR 0x27] @
          ''s Accept-Encoding header.</p>'',
        ''<ul>'', ''<li>Brotli (br): Best compression ratio, slower compression, fast decompression</li>'',
        ''<li>Zstd: Excellent compression with very fast decompression</li>'',
        ''<li>Gzip: Widely supported, good balance</li>'', ''<li>Deflate: Legacy support</li>'', ''</ul>'',
        ''</body>''])
     @ ''</html>''"

definition compress_index :: "string \<Rightarrow> (string \<Rightarrow> ('w, int) act) \<Rightarrow> ('p, 'w) http_handler" where
  "compress_index text_html write r s =
     (case s of (h, w) \<Rightarrow>
        (let h = header_set ''Content-Type'' text_html h; (r, w) = write compress_page w
         in (case r of Inl err \<Rightarrow> Inl err | Inr _ \<Rightarrow> Inr (), h, w)))"

definition compress_data :: "string list" where
  "compress_data = [''item1'', ''item2'', ''item3'', ''item4'', ''item5'', ''item6'', ''item7'', ''item8'',
     ''item9'', ''item10'']"

text \<open>The encoding that a provider answers with when it is asked for one; \<open>dflt\<close> is zstd's default level.\<close>

fun provider_encoding :: "int \<Rightarrow> provider \<Rightarrow> string \<Rightarrow> string option" where
  "provider_encoding dflt (Brotli p) n = map_option BrotliEncoder_Encoding (BrotliProvider_GetEncoder p n)"
| "provider_encoding dflt (Zstd p) n = map_option ZstdEncoder_Encoding (ZstdProvider_GetEncoder dflt p n)"

text \<open>
  Every algorithm of the configuration is one of zerohttp's own or answered by exactly one provider, with
  an encoder of that name.
\<close>

lemma algorithms_provided:
  assumes "n \<in> set (cc_Algorithms compress_config_demo)" and "n \<notin> {''gzip'', ''deflate''}"
  shows "List.map_filter (\<lambda>p. provider_encoding dflt p n) (cc_Providers compress_config_demo) = [n]"
  using assms
  by (auto simp: compress_config_demo_def List.map_filter_def BrotliProvider_GetEncoder_def
      ZstdProvider_GetEncoder_def BrotliEncoder_Encoding_def ZstdEncoder_Encoding_def)

section \<open>The rate limiter\<close>

record 'w limiter_config =
  lc_Store :: "'w rate_store"
  lc_Rate :: int
  lc_Window :: duration
  lc_IncludeHeaders :: "bool option"

definition limiter_main :: "'w ratelimit_client \<Rightarrow> ('w, unit) act \<Rightarrow> ('w, 'w limiter_config) act" where
  "limiter_main client ping w =
     (case ping w of
        (Inl err, w) \<Rightarrow>
          (Inl (NewError (''Failed to connect to Redis: '' @ error_text err @ [CHR 0x0A] @
             ''Make sure Redis is running: docker run -d --name redis -p 6379:6379 redis:7-alpine'')), w)
      | (Inr _, w) \<Rightarrow>
          (let rate = 10; window = minute;
               store = NewRateLimitStore client
                 [\<lparr>rc_Algorithm = SlidingWindow, rc_Window = window, rc_Rate = rate, rc_KeyPrefix = ''''\<rparr>]
           in (Inr \<lparr>lc_Store = store, lc_Rate = rate, lc_Window = window, lc_IncludeHeaders = Some True\<rparr>, w)))"

definition limiter_index :: "header \<Rightarrow> reply_json" where
  "limiter_index h =
     (let limit = header_get h ''X-RateLimit-Limit''; remaining = header_get h ''X-RateLimit-Remaining'';
          reset = header_get h ''X-RateLimit-Reset''
      in (200, [(''message'', ''Hello with Redis rate limiting!''), (''limit'', limit), (''remaining'', remaining),
           (''reset'', reset)]))"

text \<open>The middleware reports the limit that the store enforces.\<close>

lemma limiter_agrees:
  assumes "limiter_main client ping w = (Inr cfg, w')"
  shows "rl_rate (lc_Store cfg) = lc_Rate cfg \<and> rl_window (lc_Store cfg) = lc_Window cfg \<and>
    rl_algorithm (lc_Store cfg) = SlidingWindow \<and> rl_keyPrefix (lc_Store cfg) = ''ratelimit:''"
  using assms
  by (auto simp: limiter_main_def NewRateLimitStore_def DefaultRedisStoreConfig_def duration_defs Let_def
      split: sum.splits prod.splits)

section \<open>Idempotency\<close>

definition payments_main :: "'w idempotency_client \<Rightarrow> 'w idempotency_store" where
  "payments_main client =
     NewIdempotencyStore client [\<lparr>isc_KeyPrefix = ''idempotency'', isc_LockTTL = 0\<rparr>]"

definition payments_handler :: "(string \<Rightarrow> 'w \<Rightarrow> 'w) \<Rightarrow> 'w \<Rightarrow> reply_json \<times> 'w" where
  "payments_handler logp w =
     ((201, [(''status'', ''success''), (''message'', ''Payment processed'')]), logp ''Processing payment...'' w)"

end
