(* ===== verification/Adapter_Servers.thy ===== *)
theory Adapter_Servers
  imports Zerolog Huma
begin

text \<open>
  The servers of \<open>examples/adapters\<close>: a server that logs through the zerolog adapter and one whose
  operation is registered through the Huma adapter. A JSON reply is its status and its string fields;
  \<open>huma.Register\<close>, which decodes the input and encodes the output of an operation, is a parameter.
\<close>

section \<open>The logging server\<close>

text \<open>\<open>caller\<close> is the call \<open>Caller()\<close> of zerolog's contexts, which the adapter itself does not use.\<close>

definition zerolog_server :: "('l, 'e, 'c, 'w, 'f, 'x) zerolog_lib \<Rightarrow> ('c \<Rightarrow> 'c) \<Rightarrow> 'l logger" where
  "zerolog_server lib caller =
     (let zl = zc_Logger lib (caller (zc_Timestamp lib (zl_With lib
                 (zl_Level lib InfoLevel (zl_New lib ConsoleStdout)))))
      in NewLogger zl)"

definition zerolog_index ::
  "('l, 'e, 'c, 'w, 'f, 'x) zerolog_lib \<Rightarrow> 'l logger \<Rightarrow> 'w \<Rightarrow> (int \<times> (string \<times> string) list) \<times> 'w" where
  "zerolog_index lib logger w =
     (let (_, w) = Logger_Info lib logger ''handling request'' [] w
      in ((200, [(''message'', ''Hello, World!'')]), w))"

definition zerolog_error ::
  "('l, 'e, 'c, 'w, 'f, 'x) zerolog_lib \<Rightarrow> 'l logger \<Rightarrow> 'w \<Rightarrow> (int \<times> (string \<times> string) list) \<times> 'w" where
  "zerolog_error lib logger w =
     (let (_, w) = Logger_Error lib logger ''something went wrong'' [] w
      in ((500, [(''error'', ''internal error'')]), w))"

text \<open>
  Each request hands one line to the writer, at the level of its handler, with the logger's own fields and
  those of its hooks.
\<close>

context zerolog
begin

lemma server_lines:
  assumes "enabled (lg_logger l) InfoLevel w" and "enabled (lg_logger l) ErrorLevel w"
  shows "written (snd (zerolog_index lib l w)) =
      written w @ handed InfoLevel (context_of (lg_logger l))
        (hooks (lg_logger l) InfoLevel ''handling request'' (snd (maker lib InfoLevel (lg_logger l) w)))
        ''handling request''"
    and "written (snd (zerolog_error lib l w)) =
      written w @ handed ErrorLevel (context_of (lg_logger l))
        (hooks (lg_logger l) ErrorLevel ''something went wrong'' (snd (maker lib ErrorLevel (lg_logger l) w)))
        ''something went wrong''"
  using log_event_enabled [OF assms(1), of "''handling request''" "[]"]
    log_event_enabled [OF assms(2), of "''something went wrong''" "[]"]
  by (simp_all add: zerolog_index_def zerolog_error_def Logger_Info_def Logger_Error_def maker_def case_prod_unfold)

end

section \<open>The Huma server\<close>

record GreetingInput =
  gi_Name :: string

record GreetingOutput =
  go_Message :: string

definition greeting :: "GreetingInput \<Rightarrow> GreetingOutput res" where
  "greeting input = Inr \<lparr>go_Message = ''Hello, '' @ gi_Name input @ ''!''\<rparr>"

text \<open>What \<open>op_rest\<close> holds here: the operation's identifier and its summary.\<close>

definition greeting_operation :: "(string \<times> string) operation" where
  "greeting_operation =
     \<lparr>op_Method = ''GET'', op_Path = ''/greeting/{name}'', op_rest = (''greeting'', ''Get a greeting'')\<rparr>"

text \<open>
  \<open>register\<close> makes the handler of an operation and gives it to the adapter's Handle; the routes of the
  server are the index and what the adapter registered.
\<close>

definition huma_server ::
  "(string \<Rightarrow> string) \<Rightarrow> (('u, 'b, 't, 'k, 'w) zh_handler, 'g) router \<Rightarrow> ('u, 'b, 't, 'k, 'w) zh_handler \<Rightarrow>
     ((GreetingInput \<Rightarrow> GreetingOutput res) \<Rightarrow>
        (string \<times> string, 'u, 'b, 't, 'k, 'w) zerohttpContext \<Rightarrow> 'w \<Rightarrow> 'w) \<Rightarrow> 'g \<Rightarrow> 'g" where
  "huma_server uni app index register g =
     (let g = ro_GET app ''/'' index g;
          api = Huma_New (\<lambda>_. \<lambda>a. a) app (''My API'', ''1.0.0'')
      in Adapter_Handle uni api greeting_operation (register greeting) g)"

context route_table
begin

lemma huma_server_routes:
  "routes (huma_server uni ro index register g) = routes g @
     [(''GET'', ''/'', index), (''GET'', ''/greeting/{name}'', huma_handler greeting_operation (register greeting))]"
proof -
  have "to_upper uni ''GET'' = ''GET''" by (simp add: to_upper_def upper_char_def)
  then show ?thesis
    by (simp add: huma_server_def Huma_New_def Let_def Handle_routes registers greeting_operation_def
        supported_method_def)
qed

end

end
