(* ===== verification/Spec2Isabelle.thy ===== *)
theory Spec2Isabelle
  imports Jwt_Properties Rate_Races Rate_Reset Cache_Properties Idempotency_Properties Zerolog_Properties Tracer
    Huma_Response Compress Extensions Websocket_Echo WebTransport_Echo Extension_Servers Login_Server
    Cache_Server Middleware_Servers Adapter_Servers
begin

text \<open>
  This library verifies zerohttp-contrib: the adapters and the Redis-backed stores that extend the
  zerohttp web framework. Every definition that models code has the name of its Go function, with the
  type's name in front where two packages use the same one; the handlers and the main functions of the
  examples, which have no names or all the same one, are named after their program.

  \<^bold>\<open>Shared.\<close> \<open>Prelude\<close>: Go errors with \<open>errors.Is\<close>, fallible actions on an outside world \<open>'w\<close>, 64-bit
  integers with wrap-around, durations and instants, decimal strings. \<open>Float64\<close>: rounding to doubles with
  unbounded exponents, and the laws the rate limiter needs of it.

  \<^bold>\<open>Redis.\<close> The clients of \<open>src/storage\<close>, \<open>src/middleware/cache\<close> and \<open>src/middleware/idempotency\<close> are the
  records of \<open>Redis\<close>, that of \<open>src/middleware/ratelimit\<close> is in \<open>Redis_Limits\<close>. The documented effect of
  each command is a law of the locales \<open>redis_kv\<close>, \<open>redis_nx\<close>, \<open>redis_ttl\<close>, \<open>redis_counter\<close>, \<open>redis_zset\<close>
  and \<open>redis_scripts\<close>, on a view of a reachable server (clock, keys with deadlines); nothing is assumed
  of an unreachable one. \<open>Redis_Server\<close> and \<open>Redis_Limits_Server\<close> interpret them on a concrete server, on
  which the witnesses run.

  \<^bold>\<open>Locks and storages.\<close> \<open>Lease\<close>: processes competing for a lock as a step relation, and mutual
  exclusion by rule induction; \<open>Redis_Lock\<close>: SET NX with DEL keeps that contract, and polling for a lock.
  \<open>Storage_Interface\<close>: the contract \<open>kv_storage\<close> of \<open>storage.Storage\<close> and what becomes of one entry during
  any run that leaves it alone (\<open>quiet\<close>); \<open>Keyed_Redis\<close>: Redis under a one-to-one key function keeps the
  contract; \<open>Record_Store\<close>: records encoded over it. \<open>Storage\<close> is \<open>src/storage/redis.go\<close>.

  \<^bold>\<open>Cache and idempotency.\<close> \<open>Utf8\<close>, \<open>Json\<close>, \<open>Json_Value\<close>, \<open>Base64\<close>, \<open>Go_Time\<close> and \<open>Json_Struct\<close> are the
  part of \<open>encoding/json\<close> and \<open>time\<close> that the two stores use, with round trips; the JSON parser has fuel
  2 n + 1 for a text of n bytes, which \<open>need_bound\<close> shows to be enough for every text the printer writes.
  \<open>Cache\<close> and \<open>Idempotency\<close> are \<open>store.go\<close> of the two packages; \<open>Cache_Properties\<close> and
  \<open>Idempotency_Properties\<close> show what a reader sees after a write, when that is what was written, mutual
  exclusion and liveness of the lock, and which failures are reported.

  \<^bold>\<open>Rate limiter.\<close> \<open>RateLimit\<close> is \<open>src/middleware/ratelimit/store.go\<close> with its Lua script. \<open>Rate_Fixed\<close>: the
  counter as a function of the run, and the bound on admitted requests; \<open>Rate_Bucket\<close> and
  \<open>Rate_Bucket_Runs\<close>: the script's invariant in doubles, bursts, starvation, expiry; \<open>Rate_Bucket_Bound\<close>:
  the bound on what it admits, with the tokens as the potential; \<open>Rate_Sliding\<close>: the
  sorted set refines a log of admitted requests, and the limit in every window; \<open>Rate_Races\<close>: the check
  cut into its two halves and interleaved; \<open>Rate_Properties\<close>: the properties of the last two algorithms;
  \<open>Rate_Reset\<close>: whether the reset time of a refusal is kept.

  \<^bold>\<open>JWT.\<close> \<open>Claims\<close>: dynamic claim values; \<open>Jwt_Adapter\<close>, \<open>Jwt_Config\<close>, \<open>Jwt_TokenStore\<close>:
  \<open>src/middleware/jwtauth\<close>; \<open>Jwt_Tokens\<close>: the laws of the jwx library, which is a parameter
  (\<open>jwx\<close>, and \<open>jwx_checked\<close> for what it must refuse): a token comes back from its JSON text with its times
  to the second and with its strings turned into UTF-8 (\<open>to_valid\<close>); \<open>Jwx_Library\<close>: a concrete one that
  keeps them; \<open>Jwt_Revocation\<close>, \<open>Jwt_Properties\<close>: exactly what a revocation revokes and for how long, the
  round trip of Generate and Validate, and when and where a generated token is accepted.

  \<^bold>\<open>Adapters.\<close> \<open>Zerolog\<close> and \<open>Zerolog_Properties\<close>: \<open>src/adapters/zerolog/logger.go\<close>; \<open>Go_Http\<close> and \<open>Huma\<close>:
  \<open>src/adapters/huma/huma.go\<close>, with the loop of Unwrap as a partial function; \<open>Tracer\<close>:
  \<open>src/middleware/tracer/tracer.go\<close>; \<open>Compress\<close>: \<open>src/middleware/compress\<close>; \<open>Extensions\<close>:
  \<open>src/extensions\<close>. The third-party packages behind them are parameters with named laws. The locale
  \<open>zerolog\<close> says what is handed to the writer of a logger, the fields of its hooks (timestamps) included;
  what a writer makes of it, the sorted fields of the console for one, is not modelled. The locale \<open>otel\<close>
  has spans that record or not, the limit on the number of attributes and that on the length of values.

  \<open>Huma_Response\<close>: what reaches the client after any sequence of operations on the response.

  \<^bold>\<open>Example servers.\<close> The programs under \<open>src/examples\<close>, which compose the packages. \<open>Websocket_Echo\<close>: the
  read loop as a partial function, when it returns and what it sends. \<open>WebTransport_Echo\<close>: a session with
  its goroutines, each a machine whose events are calls of the library with arbitrary replies, in any
  interleaving (they share no state); what a stream gets back and how a session ends. \<open>Login_Server\<close>: the login handler over the token store, from the credentials to the
  independence of sessions. \<open>Cache_Server\<close>: the routes with their cache settings; \<open>Extension_Servers\<close>,
  \<open>Middleware_Servers\<close>, \<open>Adapter_Servers\<close>: set-up and handlers of the others, a main program being the list
  of the calls it makes on the application.

  \<^bold>\<open>Below.\<close> The properties that span components: a login and its logout, and stores that share a server.

  \<^bold>\<open>Not modelled.\<close> zerohttp itself (the router, the renderer and its middlewares, whose handlers for
  refresh and logout and whose token generators the examples call), the package documentation, the texts of errors of the
  standard library and of third-party code, doubles that overflow, infinities and NaN (a double beyond
  64 bits converts to the least \<open>int64\<close>, as on amd64: Go leaves it open), connection pools and contexts of the
  Redis clients, \<open>SET\<close> with a negative time to live (a special value of the client) and the bytes on the
  wire. A repeated member of a JSON object decodes a slice afresh, and field names match without regard
  to case on ASCII letters only.
\<close>

section \<open>Properties across components\<close>

text \<open>
  C1: a login and its logout, through the token store, the adapter and the storage. If Generate
  returned an access and a refresh token for the same login with a session, then Validate accepts
  both while they are current, revoking the claims of the refresh token succeeds and makes
  IsRevoked answer true for the access token, and the answer for a claims map of another session
  and another token key does not change. A session name that is not UTF-8 comes back from the token
  with U+FFFD for the bytes that are not (\<open>to_valid\<close>, which leaves UTF-8 alone), and the session
  revoked is the one of that name; an issuer or audience that is checked has to be UTF-8.
\<close>

theorem logout_revokes_session:
  assumes "jwx lib" and "jwt_store sview late elapse s px keyFunc clk" and "sv_ok (sview w)"
    and "login_claims m" and "map_of m ''sid'' = Some (AStr sid)" and "sid \<noteq> ''''"
    and "TokenStore_Generate lib s now1 now2 (MapClaims m) AccessToken ttl = Inr access"
    and "TokenStore_Generate lib s now1 now2 (MapClaims m) RefreshToken ttl' = Inr refresh"
    and "unix_sec now2 \<le> unix_sec now" and "0 < ttl \<longrightarrow> unix_sec now < unix_sec (now1 + ttl)"
    and "0 < ttl' \<longrightarrow> unix_sec now < unix_sec (now1 + ttl')" and "utf8_checks s"
  shows "\<exists>c c'. TokenStore_Validate lib s now access = Inr c \<and>
    TokenStore_Validate lib s now refresh = Inr c' \<and>
    fst (TokenStore_Revoke clk s c' w) = Inr () \<and>
    fst (TokenStore_IsRevoked s c (snd (TokenStore_Revoke clk s c' w))) = Inr True \<and>
    (\<forall>d. nonempty_string (claim d ''sid'') \<noteq> Some (to_valid sid) \<and> keyFunc d \<noteq> keyFunc c' \<longrightarrow>
       fst (TokenStore_IsRevoked s d (snd (TokenStore_Revoke clk s c' w))) =
         fst (TokenStore_IsRevoked s d w))"
proof -
  obtain c where c: "TokenStore_Validate lib s now access = Inr c"
    "\<forall>k v. map_of m k = Some v \<and> clean_name (fst ` set m) k \<longrightarrow> map_of c k = Some (json_string v)"
    using jwx.generate_validate [OF assms(1,4,7,9,10,12)] by blast
  obtain c' where c': "TokenStore_Validate lib s now refresh = Inr c'"
    "\<forall>k v. map_of m k = Some v \<and> clean_name (fst ` set m) k \<longrightarrow> map_of c' k = Some (json_string v)"
    using jwx.generate_validate [OF assms(1,4,8,9,11,12)] by blast
  have "clean_name (fst ` set m) ''sid''" by (simp add: ascii_clean_name)
  then have sid: "sid_of c = Some (to_valid sid)" "sid_of c' = Some (to_valid sid)"
    using c(2) c'(2) assms(5,6) by (simp_all add: claim_def)
  have "fst (TokenStore_IsRevoked s c (snd (TokenStore_Revoke clk s c' w))) = Inr True"
    by (simp add: jwt_store.IsRevoked_Revoke [OF assms(2,3)] sid)
  moreover have "fst (TokenStore_IsRevoked s d (snd (TokenStore_Revoke clk s c' w))) =
      fst (TokenStore_IsRevoked s d w)"
    if "nonempty_string (claim d ''sid'') \<noteq> Some (to_valid sid)" "keyFunc d \<noteq> keyFunc c'" for d
    using that by (simp add: jwt_store.IsRevoked_Revoke [OF assms(2,3)] sid)
  ultimately show ?thesis using c(1) c'(1) jwt_store.Revoke_eq(1) [OF assms(2,3)] by blast
qed

theorem logout_revokes_session_witness:
  "\<exists>access refresh c c'.
     TokenStore_Generate lib_jwx strict_jwt 0 0 (MapClaims demo_login) AccessToken (900 * second) = Inr access \<and>
     TokenStore_Generate lib_jwx strict_jwt 0 0 (MapClaims demo_login) RefreshToken (604800 * second) = Inr refresh \<and>
     TokenStore_Validate lib_jwx strict_jwt (5 * second) access = Inr c \<and>
     fst (TokenStore_IsRevoked strict_jwt c
       (snd (TokenStore_Revoke rv_clock strict_jwt c' (empty_server 0)))) = Inr True"
proof -
  obtain access refresh where g:
    "TokenStore_Generate lib_jwx strict_jwt 0 0 (MapClaims demo_login) AccessToken (900 * second) = Inr access"
    "TokenStore_Generate lib_jwx strict_jwt 0 0 (MapClaims demo_login) RefreshToken (604800 * second) = Inr refresh"
    using strict_generate by metis
  have st: "jwt_store (storage_view demo_storage) late_at (age late_at) strict_jwt wire_ms
      defaultTokenKeyFunc rv_clock"
    using demo_jwt.jwt_store_axioms
    by (simp add: jwt_store_def jwt_store_axioms_def)
  have "map_of demo_login ''sid'' = Some (AStr ''alice_1'')" by (simp add: demo_login_def)
  from logout_revokes_session [OF lib.jwx_axioms st demo_ok [of 0] demo_login_ok this _ g,
      where now = "5 * second"]
  show ?thesis using g strict_jwt_checks by (auto simp: unix_sec_def second_def)
qed

text \<open>
  C23: stores that share a server. A cache and an idempotency store whose prefixes are not empty, differ
  and have no colon do not see each other: no Get, Set or Delete of the cache changes what the
  idempotency store reads, and no Get, Set, Lock or Unlock of the idempotency store changes what the
  cache reads. With equal prefixes, as by default, they have the same keys.
\<close>

theorem stores_isolated:
  assumes "cache_backed view late elapse s px" and "idempotency_backed view late elapse t px"
    and "rv_up (view w)"
  shows "(cs_prefix s \<noteq> [] \<and> is_keyPrefix t \<noteq> [] \<and> cs_prefix s \<noteq> is_keyPrefix t \<and>
      CHR '':'' \<notin> set (cs_prefix s) \<and> CHR '':'' \<notin> set (is_keyPrefix t) \<longrightarrow>
      (\<forall>op. (\<forall>k x ttl. op = RecSet k x ttl \<longrightarrow> 0 \<le> ttl) \<and> (\<forall>d. op \<noteq> RecWait d) \<longrightarrow>
        idempotency_view t (view (cache_step s elapse op w)) = idempotency_view t (view w)) \<and>
      (\<forall>op. (\<forall>k x ttl. op = ISet k x ttl \<longrightarrow> 0 \<le> ttl) \<and> (\<forall>d. op \<noteq> IWait d) \<longrightarrow>
        cache_view s (view (idempotency_step t elapse op w)) = cache_view s (view w))) \<and>
    (cs_prefix s = is_keyPrefix t \<longrightarrow> Cache_makeKey s = Idempotency_makeKey t)"
proof (intro conjI impI allI)
  assume p: "cs_prefix s \<noteq> [] \<and> is_keyPrefix t \<noteq> [] \<and> cs_prefix s \<noteq> is_keyPrefix t \<and>
      CHR '':'' \<notin> set (cs_prefix s) \<and> CHR '':'' \<notin> set (is_keyPrefix t)"
  then have keys: "Cache_makeKey s j \<noteq> Idempotency_makeKey t k" for j k
    using append_sep_eq [of "CHR '':''" "cs_prefix s" "is_keyPrefix t" j k]
    by (simp add: Cache_makeKey_def Idempotency_makeKey_def)
  show "idempotency_view t (view (cache_step s elapse op w)) = idempotency_view t (view w)"
    if "(\<forall>k x ttl. op = RecSet k x ttl \<longrightarrow> 0 \<le> ttl) \<and> (\<forall>d. op \<noteq> RecWait d)" for op
    using that keys by (intro changes_unseen [OF cache_backed.cache_step_changes [OF assms(1,3)]]) auto
  show "cache_view s (view (idempotency_step t elapse op w)) = cache_view s (view w)"
    if "(\<forall>k x ttl. op = ISet k x ttl \<longrightarrow> 0 \<le> ttl) \<and> (\<forall>d. op \<noteq> IWait d)" for op
    using that keys [THEN not_sym]
    by (intro changes_unseen [OF idempotency_backed.idempotency_step_changes [OF assms(2,3)]]) auto
next
  show "Cache_makeKey s = Idempotency_makeKey t" if "cs_prefix s = is_keyPrefix t"
    using that by (simp add: fun_eq_iff Cache_makeKey_def Idempotency_makeKey_def)
qed

definition plain_cache :: "redis_view cache_store" where
  "plain_cache = NewCacheStore srv_cache_client [\<lparr>csc_KeyPrefix = ''cache''\<rparr>]"

theorem stores_isolated_witness:
  "cache_view plain_cache (snd (Idempotency_Lock demo_idempotency ''k'' (empty_server 0))) =
     cache_view plain_cache (empty_server 0)"
proof -
  have "cs_client plain_cache = srv_cache_client" "cs_prefix plain_cache = ''cache''"
    by (simp_all add: plain_cache_def NewCacheStore_def Let_def)
  moreover from this have "cache_backed (\<lambda>v. v) late_at (age late_at) plain_cache wire_ms"
    using srv_cache.redis_kv_axioms by (simp add: cache_backed_def)
  ultimately show ?thesis
    using stores_isolated [OF _ demo_idempotency.idempotency_backed_axioms, of plain_cache "empty_server 0"]
    by (auto dest: spec [of _ "ILock ''k''"])
qed

end
